theory Spec2Isabelle
  imports Complex_Main
begin

section \<open>Numbers, configuration and the persisted data model\<close>

text \<open>
  The backend (\<^verbatim>\<open>src/backend/server.js\<close>) is JavaScript.  A finite JavaScript
  Number is modelled by its exact value, a \<^typ>\<open>real\<close>.  A field on which the source
  tests \<^verbatim>\<open>Number.isFinite(x)\<close> is a \<open>num option\<close>, \<open>None\<close> when it is absent,
  \<^verbatim>\<open>null\<close> or not a finite number; a field the source converts with \<^verbatim>\<open>Number(x)\<close>
  is a \<open>jsnum\<close>, which keeps \<^verbatim>\<open>null\<close> (converted to 0) apart from an absent value
  (converted to \<^verbatim>\<open>NaN\<close>).  Amounts of money and ratios are computed in binary64
  arithmetic: every \<open>+\<close>, \<open>-\<close>, \<open>*\<close> and \<open>/\<close> on them is followed by the rounding
  \<open>fl\<close>.  Indices, counts and byte sizes are integers of magnitude below \<open>2 ^ 53\<close> in
  every store the server writes; binary64 arithmetic is exact on them and is written
  without \<open>fl\<close>.  An identifier that
  the source tests for truthiness (\<^verbatim>\<open>!taskId\<close>, \<^verbatim>\<open>workerId || ...\<close>) is a
  \<^typ>\<open>string\<close> whose empty value stands for every falsy value.  Timestamps are
  milliseconds since the epoch; the ISO strings the source stores are modelled by the
  number \<^verbatim>\<open>Date.parse\<close> reads back from them.  The random identifiers of
  \<^verbatim>\<open>nanoid()\<close> are parameters of the functions that draw them.  Display-only
  fields (\<^verbatim>\<open>id\<close>, \<^verbatim>\<open>createdAt\<close>, \<^verbatim>\<open>updatedAt\<close>, \<^verbatim>\<open>payoutAt\<close>,
  \<^verbatim>\<open>resultText\<close>, \<^verbatim>\<open>output\<close>, \<^verbatim>\<open>error\<close>, \<^verbatim>\<open>inputPreview\<close>) are left out
  of the records; no control flow of the modelled functions reads them.
\<close>

type_synonym num = real

text \<open>
  Rounding to binary64, to the nearest value with a tie going to the even significand.
  \<open>rne\<close> rounds a real to an integer that way; \<open>expo x\<close> is the exponent \<open>e\<close> with
  \<open>2 ^ e \<le> \<bar>x\<bar> < 2 ^ (e + 1)\<close>, kept within \<open>- 1022\<close> (the subnormal numbers) and
  \<open>1023\<close>; \<open>ulp x\<close> is the distance of two neighbouring binary64 numbers at \<open>x\<close>.
  A result of magnitude \<open>2 ^ 1024 - 2 ^ 970\<close> or more is \<^verbatim>\<open>Infinity\<close> in JavaScript;
  \<^typ>\<open>num\<close> has no such value, and the statements on amounts bound them far below.
\<close>

definition rne :: "real \<Rightarrow> int" where
  "rne x = (let n = \<lfloor>x\<rfloor>; r = x - of_int n
            in if r < 1 / 2 then n
               else if r > 1 / 2 then n + 1
               else if even n then n else n + 1)"

primrec expoFrom :: "nat \<Rightarrow> real \<Rightarrow> int" where
  "expoFrom 0 x = - 1022"
| "expoFrom (Suc n) x = (if 2 powi (int n - 1021) \<le> \<bar>x\<bar> then int n - 1021 else expoFrom n x)"

definition expo :: "real \<Rightarrow> int" where
  "expo x = expoFrom 2045 x"

definition ulp :: "real \<Rightarrow> real" where
  "ulp x = 2 powi (expo x - 52)"

definition fl :: "num \<Rightarrow> num" where
  "fl x = of_int (rne (x / ulp x)) * ulp x"

text \<open>
  \<^verbatim>\<open>x.toFixed(f)\<close>, as the number its digits denote.  ECMAScript: a negative \<open>x\<close>
  is negated and the sign put back; at \<open>x \<ge> 10^21\<close> the number is printed in full;
  otherwise the digits are those of the integer \<open>n\<close> with \<open>n / 10^f - x\<close> closest to
  zero, the larger \<open>n\<close> when two are equally close.  \<^verbatim>\<open>Number(x.toFixed(f))\<close> reads
  the digits back as the nearest binary64 number.
\<close>

definition toFixedPos :: "nat \<Rightarrow> num \<Rightarrow> num" where
  "toFixedPos f x =
     (if x \<ge> 10 ^ 21 then x else of_int \<lfloor>x * 10 ^ f + 1 / 2\<rfloor> / 10 ^ f)"

definition toFixed :: "nat \<Rightarrow> num \<Rightarrow> num" where
  "toFixed f x = (if x < 0 then - toFixedPos f (- x) else toFixedPos f x)"

definition Number_toFixed :: "nat \<Rightarrow> num \<Rightarrow> num" where
  "Number_toFixed f x = fl (toFixed f x)"

text \<open>\<^verbatim>\<open>Math.round\<close>: the nearest integer, a tie going up.\<close>

definition Math_round :: "num \<Rightarrow> num" where
  "Math_round x = of_int \<lfloor>x + 1 / 2\<rfloor>"

definition Math_floor :: "num \<Rightarrow> num" where
  "Math_floor x = of_int \<lfloor>x\<rfloor>"

text \<open>\<^verbatim>\<open>x || d\<close> and \<^verbatim>\<open>x ?? d\<close> on a possibly absent number.\<close>

definition orElse :: "num option \<Rightarrow> num \<Rightarrow> num" where
  "orElse x d = (case x of None \<Rightarrow> d | Some v \<Rightarrow> if v = 0 then d else v)"

definition nullish :: "'a option \<Rightarrow> 'a option \<Rightarrow> 'a option" where
  "nullish x d = (case x of None \<Rightarrow> d | Some v \<Rightarrow> Some v)"

text \<open>
  A numeric field of a task as the JSON store holds it: absent, \<^verbatim>\<open>null\<close> or a finite
  number.  \<open>Number_of\<close> is \<^verbatim>\<open>Number(x)\<close>, \<open>None\<close> standing for \<^verbatim>\<open>NaN\<close>;
  \<open>finiteOf\<close> is \<open>x\<close> where \<^verbatim>\<open>Number.isFinite(x)\<close> holds; \<open>truthyOr x d\<close> is
  \<^verbatim>\<open>x || d\<close>.
\<close>

datatype jsnum = Absent | Null | Num num

fun Number_of :: "jsnum \<Rightarrow> num option" where
  "Number_of Absent = None"
| "Number_of Null = Some 0"
| "Number_of (Num v) = Some v"

fun finiteOf :: "jsnum \<Rightarrow> num option" where
  "finiteOf (Num v) = Some v"
| "finiteOf x = None"

fun truthyOr :: "jsnum \<Rightarrow> num \<Rightarrow> num" where
  "truthyOr (Num v) d = (if v = 0 then d else v)"
| "truthyOr x d = d"

text \<open>The constants of the head of the file and the three environment switches.\<close>

definition DEFAULT_MAX_BUCKETS :: num where "DEFAULT_MAX_BUCKETS = 10"
definition DEFAULT_BUCKET_BYTES :: num where "DEFAULT_BUCKET_BYTES = 1024 * 1024"
definition BUCKET_TIMEOUT_MS :: int where "BUCKET_TIMEOUT_MS = 20 * 60 * 1000"
definition MAX_ITEM_RESULTS_STORED :: nat where "MAX_ITEM_RESULTS_STORED = 200"
definition MAX_SAFE_INTEGER :: num where "MAX_SAFE_INTEGER = 9007199254740991"

record config =
  PLATFORM_FEE_PERCENT :: num
  DISABLE_BUDGET_CHECKS :: bool
  SANDBOX_WALLET_ENABLED :: bool

datatype txType =
  SeedCredit | WalletDeposit | WalletWithdrawal | ChunkDebit | ChunkCredit | PlatformFee

record txMeta =
  m_taskId :: "string option"
  m_chunkIndex :: "num option"
  m_reason :: "string option"

record walletTransaction =
  tx_userId :: string
  tx_sessionId :: string
  tx_type :: txType
  tx_amount :: num
  tx_balanceAfter :: num
  tx_meta :: txMeta

record user =
  u_id :: string
  u_sessionId :: string
  u_walletBalance :: num
  u_roles :: "string list"

text \<open>
  A sanitised per-item record and a bucket result.  \<open>r_status\<close> is whatever string
  the request carried.
\<close>

record itemResult =
  i_globalIndex :: "num option"
  i_localIndex :: "num option"
  i_status :: string

record chunkResult =
  r_taskId :: string
  r_chunkIndex :: "num option"
  r_status :: string
  r_rangeStart :: "num option"
  r_rangeEnd :: "num option"
  r_itemsCount :: "num option"
  r_bytesUsed :: "num option"
  r_itemResults :: "itemResult list"
  r_itemResultsTotal :: "num option"
  r_itemResultsTruncated :: bool
  r_processedItems :: "num option"
  r_workerId :: string
  r_payoutIssued :: bool

record assignment =
  a_taskId :: string
  a_chunkIndex :: "num option"
  a_workerId :: string
  a_assignedAt :: "int option"
  a_expiresAt :: "int option"
  a_rangeStart :: "num option"
  a_rangeEnd :: "num option"
  a_itemsCount :: "num option"
  a_processedCount :: "num option"
  a_progressRangeEnd :: "num option"
  a_bytesUsed :: "num option"
  a_lastBatchOffset :: "num option"
  a_lastBatchSize :: "num option"

text \<open>
  An input item is represented by its canonical serialisation, so that
  \<^verbatim>\<open>Buffer.byteLength(JSON.stringify(item))\<close> is its length.  \<open>t_dataItems\<close> is
  what \<^verbatim>\<open>readTaskItems\<close> reads from the task's data file.
\<close>

type_synonym item = string

record bucketConfig =
  maxBuckets :: "num option"
  maxBucketBytes :: "num option"

record task =
  t_id :: string
  t_creatorId :: string
  t_creatorSessionId :: string
  t_status :: string
  t_revoked :: bool
  t_assignedWorkers :: "string list"
  t_costPerChunk :: jsnum
  t_creditCost :: jsnum
  t_maxBillableChunks :: jsnum
  t_totalChunks :: jsnum
  t_budgetTotal :: jsnum
  t_chunksPaid :: jsnum
  t_budgetSpent :: jsnum
  t_platformFeePercent :: jsnum
  t_bucketConfig :: bucketConfig
  t_maxBucketBytes :: "num option"
  t_nextChunkIndex :: "num option"
  t_totalItems :: "num option"
  t_processedChunks :: num
  t_processedItems :: num
  t_progress :: num
  t_dataItems :: "item list"

record db =
  tasks :: "task list"
  chunkResults :: "chunkResult list"
  chunkAssignments :: "assignment list"
  users :: "user list"
  walletTransactions :: "walletTransaction list"
  platformLedger :: num

text \<open>
  The source holds references to objects inside the collections and mutates them in
  place.  A reference is modelled by the position of the object in its collection.
\<close>

fun findIndex :: "('a \<Rightarrow> bool) \<Rightarrow> 'a list \<Rightarrow> nat option" where
  "findIndex P [] = None"
| "findIndex P (x # xs) = (if P x then Some 0 else map_option Suc (findIndex P xs))"

section \<open>Wallet ledger\<close>

definition findUserBySessionId :: "db \<Rightarrow> string \<Rightarrow> nat option" where
  "findUserBySessionId d sessionId =
     (if sessionId = [] then None
      else findIndex (\<lambda>u. u_sessionId u = sessionId) (users d))"

text \<open>\<open>nid\<close> and \<open>nid'\<close> are the two \<^verbatim>\<open>nanoid()\<close> draws of \<^verbatim>\<open>createUser\<close>.\<close>

definition createUser :: "string \<Rightarrow> string \<Rightarrow> db \<Rightarrow> string \<Rightarrow> num \<Rightarrow> string list \<Rightarrow> db \<times> nat" where
  "createUser nid nid' d sessionId initialBalance roles =
     (let u = \<lparr> u_id = nid,
                u_sessionId = (if sessionId = [] then nid' else sessionId),
                u_walletBalance = initialBalance,
                u_roles = roles \<rparr>
      in (d\<lparr>users := users d @ [u]\<rparr>, length (users d)))"

definition ensureWorkerUser :: "string \<Rightarrow> string \<Rightarrow> db \<Rightarrow> string \<Rightarrow> db \<times> nat option" where
  "ensureWorkerUser nid nid' d workerId =
     (if workerId = [] then (d, None)
      else case findUserBySessionId d workerId of
             Some i \<Rightarrow> (d, Some i)
           | None \<Rightarrow> (let (d', i) = createUser nid nid' d workerId 0 [''worker'']
                      in (d', Some i)))"

definition pushWalletTransaction :: "db \<Rightarrow> walletTransaction \<Rightarrow> db" where
  "pushWalletTransaction d payload = d\<lparr>walletTransactions := walletTransactions d @ [payload]\<rparr>"

definition adjustUserBalance ::
  "db \<Rightarrow> nat option \<Rightarrow> num \<Rightarrow> txType \<Rightarrow> txMeta \<Rightarrow> db \<times> walletTransaction option" where
  "adjustUserBalance d user delta type meta =
     (case user of
        None \<Rightarrow> (d, None)
      | Some i \<Rightarrow>
          (let u = users d ! i;
               amount = delta;
               u' = u\<lparr>u_walletBalance := fl (u_walletBalance u + amount)\<rparr>;
               tx = \<lparr> tx_userId = u_id u', tx_sessionId = u_sessionId u', tx_type = type,
                      tx_amount = amount, tx_balanceAfter = u_walletBalance u',
                      tx_meta = meta \<rparr>
           in (pushWalletTransaction (d\<lparr>users := (users d)[i := u']\<rparr>) tx, Some tx)))"

definition recordPlatformEarning :: "db \<Rightarrow> num \<Rightarrow> txMeta \<Rightarrow> db" where
  "recordPlatformEarning d amount meta =
     (let total = fl (platformLedger d + amount)
      in pushWalletTransaction (d\<lparr>platformLedger := total\<rparr>)
           \<lparr> tx_userId = ''platform'', tx_sessionId = ''platform'', tx_type = PlatformFee,
             tx_amount = amount, tx_balanceAfter = total, tx_meta = meta \<rparr>)"

section \<open>Payout settler\<close>

record budget =
  costPerChunk :: num
  maxBillableChunks :: num
  budgetTotal :: num
  chunksPaid :: num
  budgetSpent :: num

definition resolveTaskBudget :: "task \<Rightarrow> budget" where
  "resolveTaskBudget t =
     (let cost = (case Number_of (t_costPerChunk t) of
                    Some c \<Rightarrow> if c > 0 then c else orElse (Number_of (t_creditCost t)) 1
                  | None \<Rightarrow> orElse (Number_of (t_creditCost t)) 1);
          maxB = (case Number_of (t_maxBillableChunks t) of
                    Some m \<Rightarrow> m
                  | None \<Rightarrow> (case Number_of (t_totalChunks t) of Some c \<Rightarrow> c | None \<Rightarrow> 1));
          paid = (case Number_of (t_chunksPaid t) of Some p \<Rightarrow> p | None \<Rightarrow> 0)
      in \<lparr> costPerChunk = cost,
           maxBillableChunks = maxB,
           budgetTotal = (case Number_of (t_budgetTotal t) of
                            Some b \<Rightarrow> b | None \<Rightarrow> fl (cost * maxB)),
           chunksPaid = paid,
           budgetSpent = (case Number_of (t_budgetSpent t) of
                            Some s \<Rightarrow> s | None \<Rightarrow> fl (cost * paid)) \<rparr>)"

text \<open>
  The local constants \<^verbatim>\<open>feePercent\<close>, \<^verbatim>\<open>platformShare\<close> and \<^verbatim>\<open>workerShare\<close> of
  \<^verbatim>\<open>issueChunkPayout\<close> (source lines 178 to 182), each a function of the task.
\<close>

definition feePercentOf :: "config \<Rightarrow> task \<Rightarrow> num" where
  "feePercentOf env t =
     (case Number_of (t_platformFeePercent t) of
        Some p \<Rightarrow> p | None \<Rightarrow> PLATFORM_FEE_PERCENT env)"

definition platformShareOf :: "config \<Rightarrow> task \<Rightarrow> num" where
  "platformShareOf env t =
     Number_toFixed 6 (fl (fl (costPerChunk (resolveTaskBudget t) * feePercentOf env t) / 100))"

definition workerShareOf :: "config \<Rightarrow> task \<Rightarrow> num" where
  "workerShareOf env t =
     Number_toFixed 6 (fl (costPerChunk (resolveTaskBudget t) - platformShareOf env t))"

definition payoutMeta :: "task \<Rightarrow> chunkResult \<Rightarrow> txMeta" where
  "payoutMeta t r = \<lparr> m_taskId = Some (t_id t), m_chunkIndex = r_chunkIndex r, m_reason = None \<rparr>"

text \<open>
  \<^verbatim>\<open>issueChunkPayout(db, task, chunkResult, workerId)\<close>.  The task and the result are
  objects of the caller; the model returns them updated beside the store.
\<close>

definition issueChunkPayout ::
  "config \<Rightarrow> string \<Rightarrow> string \<Rightarrow> db \<Rightarrow> task option \<Rightarrow> chunkResult option \<Rightarrow> string
     \<Rightarrow> bool \<times> db \<times> task option \<times> chunkResult option" where
  "issueChunkPayout env nid nid' d taskO resultO workerId =
     (case (taskO, resultO) of
        (Some t, Some r) \<Rightarrow>
          if r_payoutIssued r then (False, d, taskO, resultO)
          else if r_status r \<noteq> ''completed'' then (False, d, taskO, resultO)
          else
            let b = resolveTaskBudget t in
            if \<not> DISABLE_BUDGET_CHECKS env \<and> chunksPaid b \<ge> maxBillableChunks b
            then (False, d, taskO, resultO)
            else
              let creatorSessionId =
                    (if t_creatorId t \<noteq> [] then t_creatorId t else t_creatorSessionId t)
              in case findUserBySessionId d creatorSessionId of
                   None \<Rightarrow> (False, d, taskO, resultO)
                 | Some customerAccount \<Rightarrow>
                     let (d1, worker) = (if workerId \<noteq> [] then ensureWorkerUser nid nid' d workerId
                                         else (d, None));
                         total = costPerChunk b;
                         platformShare = platformShareOf env t;
                         workerShare = workerShareOf env t;
                         d2 = fst (adjustUserBalance d1 (Some customerAccount) (- total)
                                     ChunkDebit (payoutMeta t r));
                         d3 = (if worker \<noteq> None
                               then fst (adjustUserBalance d2 worker workerShare
                                           ChunkCredit (payoutMeta t r))
                               else d2);
                         d4 = (if platformShare \<noteq> 0
                               then recordPlatformEarning d3 platformShare (payoutMeta t r)
                               else d3);
                         t' = t\<lparr> t_chunksPaid := Num (fl (truthyOr (t_chunksPaid t) 0 + 1)),
                                 t_budgetSpent := Num (fl (truthyOr (t_budgetSpent t) 0 + total)) \<rparr>;
                         r' = r\<lparr> r_payoutIssued := True,
                                 r_workerId := (if workerId \<noteq> [] then workerId else r_workerId r) \<rparr>
                     in (True, d4, Some t', Some r')
      | _ \<Rightarrow> (False, d, taskO, resultO))"

text \<open>
  The specification's words, for comparison with the code: rounding to \<open>f\<close> decimals
  with a tie going to the even digit, and rounding with a tie going up.
\<close>

definition round_half_even :: "nat \<Rightarrow> num \<Rightarrow> num" where
  "round_half_even f x =
     (let y = x * 10 ^ f; n = \<lfloor>y\<rfloor>; frac = y - of_int n
      in of_int (if frac < 1 / 2 then n
                 else if frac > 1 / 2 then n + 1
                 else if even n then n else n + 1) / 10 ^ f)"

definition round_half_up :: "nat \<Rightarrow> num \<Rightarrow> num" where
  "round_half_up f x = of_int \<lfloor>x * 10 ^ f + 1 / 2\<rfloor> / 10 ^ f"

text \<open>
  The specification's ledger invariant for one bucket: the transactions carrying the
  task's id and the bucket's index are exactly three, one of each payout type, and
  their amounts add up to zero.
\<close>

definition txFor :: "string \<Rightarrow> num option \<Rightarrow> walletTransaction \<Rightarrow> bool" where
  "txFor tid idx tx = (m_taskId (tx_meta tx) = Some tid \<and> m_chunkIndex (tx_meta tx) = idx)"

definition payoutTransactionsBalanced :: "db \<Rightarrow> task \<Rightarrow> chunkResult \<Rightarrow> bool" where
  "payoutTransactionsBalanced d t r =
     (let txs = filter (txFor (t_id t) (r_chunkIndex r)) (walletTransactions d)
      in length txs = 3
         \<and> length (filter (\<lambda>x. tx_type x = ChunkDebit) txs) = 1
         \<and> length (filter (\<lambda>x. tx_type x = ChunkCredit) txs) = 1
         \<and> length (filter (\<lambda>x. tx_type x = PlatformFee) txs) = 1
         \<and> sum_list (map tx_amount txs) = 0)"

section \<open>Wallet endpoints\<close>

text \<open>
  \<^verbatim>\<open>normalizeCurrencyAmount(value)\<close>.  The argument is what \<^verbatim>\<open>Number(value)\<close> yields,
  \<open>None\<close> when that is not finite.
\<close>

definition normalizeCurrencyAmount :: "num option \<Rightarrow> num option" where
  "normalizeCurrencyAmount value =
     (case value of
        None \<Rightarrow> None
      | Some numeric \<Rightarrow> (let rounded = fl (Math_round (fl (numeric * 100)) / 100)
                        in Some (Number_toFixed 2 rounded)))"

text \<open>\<^verbatim>\<open>String.prototype.trim\<close> on the ASCII white space.\<close>

definition isSpace :: "char \<Rightarrow> bool" where
  "isSpace c = (c \<in> set [CHR '' '', CHR 0x09, CHR 0x0A, CHR 0x0B, CHR 0x0C, CHR 0x0D])"

definition trim :: "string \<Rightarrow> string" where
  "trim s = rev (dropWhile isSpace (rev (dropWhile isSpace s)))"

datatype walletResponse =
    WalletError nat string
  | WalletOk user walletTransaction

text \<open>
  \<open>currentUser\<close> is \<^verbatim>\<open>req.currentUser\<close>, the user the session middleware attached;
  \<open>reason\<close> is \<open>None\<close> when the request's \<^verbatim>\<open>reason\<close> is not a string.
\<close>

definition walletDeposit ::
  "config \<Rightarrow> db \<Rightarrow> nat option \<Rightarrow> string \<Rightarrow> num option \<Rightarrow> string option
     \<Rightarrow> walletResponse \<times> db" where
  "walletDeposit env d currentUser sessionId amount reason =
     (case normalizeCurrencyAmount amount of
        None \<Rightarrow> (WalletError 400 ''Deposit amount must be greater than zero'', d)
      | Some normalized \<Rightarrow>
          if normalized \<le> 0
          then (WalletError 400 ''Deposit amount must be greater than zero'', d)
          else if normalized > 1000000
          then (WalletError 400 ''Deposit amount exceeds limit'', d)
          else if \<not> SANDBOX_WALLET_ENABLED env
          then (WalletError 403
                  ''Manual wallet deposits are disabled. Configure Stripe to add funds.'', d)
          else
            (case nullish currentUser (findUserBySessionId d sessionId) of
               None \<Rightarrow> (WalletError 500 ''User session not found'', d)
             | Some sessionUser \<Rightarrow>
                 (let meta = \<lparr> m_taskId = None, m_chunkIndex = None,
                               m_reason = Some (case reason of
                                                  Some s \<Rightarrow> if trim s \<noteq> [] then trim s
                                                            else ''manual-deposit''
                                                | None \<Rightarrow> ''manual-deposit'') \<rparr>
                  in case adjustUserBalance d (Some sessionUser) normalized WalletDeposit meta of
                       (d', Some transaction) \<Rightarrow>
                         (WalletOk (users d' ! sessionUser) transaction, d')
                     | (d', None) \<Rightarrow> (WalletError 500 ''Failed to deposit funds'', d'))))"

definition walletWithdraw ::
  "config \<Rightarrow> db \<Rightarrow> nat option \<Rightarrow> string \<Rightarrow> num option \<Rightarrow> string option
     \<Rightarrow> walletResponse \<times> db" where
  "walletWithdraw env d currentUser sessionId amount reason =
     (case normalizeCurrencyAmount amount of
        None \<Rightarrow> (WalletError 400 ''Withdrawal amount must be greater than zero'', d)
      | Some normalized \<Rightarrow>
          if normalized \<le> 0
          then (WalletError 400 ''Withdrawal amount must be greater than zero'', d)
          else if normalized > 1000000
          then (WalletError 400 ''Withdrawal amount exceeds limit'', d)
          else if \<not> SANDBOX_WALLET_ENABLED env
          then (WalletError 403 ''Manual withdrawals are disabled. Contact support.'', d)
          else
            (case nullish currentUser (findUserBySessionId d sessionId) of
               None \<Rightarrow> (WalletError 500 ''User session not found'', d)
             | Some sessionUser \<Rightarrow>
                 (let currentBalance = u_walletBalance (users d ! sessionUser) in
                  if normalized > currentBalance
                  then (WalletError 400 ''Insufficient wallet balance'', d)
                  else
                    (let meta = \<lparr> m_taskId = None, m_chunkIndex = None,
                                  m_reason = Some (case reason of
                                                     Some s \<Rightarrow> if trim s \<noteq> [] then trim s
                                                               else ''manual-withdrawal''
                                                   | None \<Rightarrow> ''manual-withdrawal'') \<rparr>
                     in case adjustUserBalance d (Some sessionUser) (- normalized)
                               WalletWithdrawal meta of
                          (d', Some transaction) \<Rightarrow>
                            (WalletOk (users d' ! sessionUser) transaction, d')
                        | (d', None) \<Rightarrow> (WalletError 500 ''Failed to withdraw funds'', d')))))"

section \<open>Item results submitted by workers\<close>

text \<open>
  A JSON value as far as the sanitisers look at it.  \<open>JObject\<close> stands for any object
  or array; \<open>JUndefined\<close> for an absent property.
\<close>

datatype jsValue = JUndefined | JNull | JBool bool | JNum num | JStr string | JObject

fun truthy :: "jsValue \<Rightarrow> bool" where
  "truthy JUndefined = False"
| "truthy JNull = False"
| "truthy (JBool b) = b"
| "truthy (JNum n) = (n \<noteq> 0)"
| "truthy (JStr s) = (s \<noteq> [])"
| "truthy JObject = True"

text \<open>
  A submitted item: an object, of which the properties \<^verbatim>\<open>globalIndex\<close>,
  \<^verbatim>\<open>localIndex\<close> and \<^verbatim>\<open>status\<close> are kept, or a value that is not an object
  (\<^verbatim>\<open>null\<close>, a boolean, a number, a string), on which \<^verbatim>\<open>item?.p\<close> is undefined.
\<close>

datatype rawItem = RawObject jsValue jsValue jsValue | RawPrimitive jsValue

fun rawGlobalIndex :: "rawItem \<Rightarrow> jsValue" where
  "rawGlobalIndex (RawObject g l s) = g"
| "rawGlobalIndex (RawPrimitive v) = JUndefined"

fun rawLocalIndex :: "rawItem \<Rightarrow> jsValue" where
  "rawLocalIndex (RawObject g l s) = l"
| "rawLocalIndex (RawPrimitive v) = JUndefined"

fun rawStatus :: "rawItem \<Rightarrow> jsValue" where
  "rawStatus (RawObject g l s) = s"
| "rawStatus (RawPrimitive v) = JUndefined"

fun finiteNum :: "jsValue \<Rightarrow> num option" where
  "finiteNum (JNum n) = Some n"
| "finiteNum v = None"

record sanitized =
  s_items :: "itemResult list"
  s_total :: nat
  s_truncated :: bool

text \<open>The callback of \<^verbatim>\<open>limited.map((item, idx) => ...)\<close> in \<^verbatim>\<open>sanitizeItemResults\<close>.\<close>

definition sanitizeItem :: "rawItem \<Rightarrow> nat \<Rightarrow> itemResult" where
  "sanitizeItem item idx =
     \<lparr> i_globalIndex = finiteNum (rawGlobalIndex item),
       i_localIndex = (case finiteNum (rawLocalIndex item) of
                         Some n \<Rightarrow> Some n | None \<Rightarrow> Some (of_nat idx)),
       i_status = (if rawStatus item = JStr ''failed'' then ''failed''
                   else if rawStatus item = JStr ''skipped'' then ''skipped''
                   else ''completed'') \<rparr>"

text \<open>\<open>raw\<close> is \<open>None\<close> when the submitted value is not an array.\<close>

definition sanitizeItemResults :: "rawItem list option \<Rightarrow> sanitized" where
  "sanitizeItemResults raw =
     (case raw of
        None \<Rightarrow> \<lparr> s_items = [], s_total = 0, s_truncated = False \<rparr>
      | Some xs \<Rightarrow>
          if length xs = 0 then \<lparr> s_items = [], s_total = 0, s_truncated = False \<rparr>
          else
            (let limited = take MAX_ITEM_RESULTS_STORED xs;
                 items = map (\<lambda>(item, idx). sanitizeItem item idx)
                             (zip limited [0 ..< length limited])
             in \<lparr> s_items = items, s_total = length xs,
                  s_truncated = (length xs > length items) \<rparr>))"

record fallbacks =
  fb_globalIndex :: "num option"
  fb_localIndex :: "num option"
  fb_status :: jsValue

definition numOrNull :: "num option \<Rightarrow> jsValue" where
  "numOrNull x = (case x of Some n \<Rightarrow> JNum n | None \<Rightarrow> JNull)"

definition sanitizeSingleItem :: "rawItem \<Rightarrow> fallbacks \<Rightarrow> itemResult option" where
  "sanitizeSingleItem raw fb =
     (case raw of
        RawPrimitive v \<Rightarrow> None
      | RawObject g l s \<Rightarrow>
          (let safe = sanitizeItemResults (Some
                 [RawObject
                    (case finiteNum g of Some n \<Rightarrow> JNum n | None \<Rightarrow> numOrNull (fb_globalIndex fb))
                    (case finiteNum l of Some n \<Rightarrow> JNum n | None \<Rightarrow> numOrNull (fb_localIndex fb))
                    (if truthy s then s
                     else if truthy (fb_status fb) then fb_status fb
                     else JStr ''completed'')])
           in case s_items safe of [] \<Rightarrow> None | x # xs \<Rightarrow> Some x))"

text \<open>The claim's words: what the stored status of an item is to be.\<close>

definition coerceStatus :: "jsValue \<Rightarrow> string" where
  "coerceStatus v = (if v = JStr ''failed'' then ''failed''
                     else if v = JStr ''skipped'' then ''skipped'' else ''completed'')"

section \<open>Bucket planner\<close>

record itemRange =
  rg_start :: num
  rg_end :: num

text \<open>
  \<^verbatim>\<open>normalizeRange(entry, fallbackIndex)\<close> reads \<^verbatim>\<open>rangeStart\<close>, \<^verbatim>\<open>rangeEnd\<close> and
  \<^verbatim>\<open>itemsCount\<close> of a lease, of a result or of an object built on the spot; the model
  takes the three fields.
\<close>

definition normalizeRange ::
  "num option \<Rightarrow> num option \<Rightarrow> num option \<Rightarrow> num option \<Rightarrow> itemRange option" where
  "normalizeRange rangeStart rangeEnd itemsCount fallbackIndex =
     (case (rangeStart, rangeEnd) of
        (Some s, Some e) \<Rightarrow>
          if e > s then Some \<lparr> rg_start = s, rg_end = e \<rparr>
          else (case fallbackIndex of
                  Some f \<Rightarrow> Some \<lparr> rg_start = f,
                                   rg_end = f + (case itemsCount of Some c \<Rightarrow> max 1 c | None \<Rightarrow> 1) \<rparr>
                | None \<Rightarrow> None)
      | _ \<Rightarrow>
          (case fallbackIndex of
             Some f \<Rightarrow> Some \<lparr> rg_start = f,
                              rg_end = f + (case itemsCount of Some c \<Rightarrow> max 1 c | None \<Rightarrow> 1) \<rparr>
           | None \<Rightarrow> None))"

definition assignmentRange :: "assignment \<Rightarrow> itemRange option" where
  "assignmentRange e = normalizeRange (a_rangeStart e) (a_rangeEnd e) (a_itemsCount e) (a_chunkIndex e)"

definition resultRange :: "chunkResult \<Rightarrow> itemRange option" where
  "resultRange r = normalizeRange (r_rangeStart r) (r_rangeEnd r) (r_itemsCount r) (r_chunkIndex r)"

text \<open>
  The loop shared by \<^verbatim>\<open>ensureBucketConfig\<close> and \<^verbatim>\<open>ensureItemFits\<close>:
  \<^verbatim>\<open>while (cfg.maxBuckets > 1 && size > cfg.maxBucketBytes)\<close>.
\<close>

function fitLoop :: "num \<Rightarrow> num \<Rightarrow> num \<Rightarrow> num \<times> num" where
  "fitLoop mb bytes sz =
     (if mb > 1 \<and> sz > bytes
      then fitLoop (max 1 (Math_floor (mb / 2))) (bytes * 2) sz
      else (mb, bytes))"
  by pat_completeness auto
termination
proof (relation "measure (\<lambda>(mb, bytes, sz). nat \<lceil>mb\<rceil>)")
  show "wf (measure (\<lambda>(mb, bytes, sz). nat \<lceil>mb\<rceil>))" by simp
next
  fix mb bytes sz :: real
  assume a: "mb > 1 \<and> sz > bytes"
  have "\<lfloor>mb / 2\<rfloor> < \<lceil>mb\<rceil>" using a by linarith
  moreover have "1 < \<lceil>mb\<rceil>" using a by linarith
  ultimately have "\<lceil>max 1 (Math_floor (mb / 2))\<rceil> < \<lceil>mb\<rceil>"
    by (simp add: Math_floor_def max_def)
  then show "((max 1 (Math_floor (mb / 2)), bytes * 2, sz), (mb, bytes, sz))
               \<in> measure (\<lambda>(mb, bytes, sz). nat \<lceil>mb\<rceil>)"
    using a by simp
qed

declare fitLoop.simps [simp del]

definition largestItemBytes :: "item list \<Rightarrow> num" where
  "largestItemBytes items =
     of_nat (fold (\<lambda>item largest. if length item > largest then length item else largest) items 0)"

text \<open>
  \<^verbatim>\<open>ensureItemFits(size)\<close>, the closure of \<^verbatim>\<open>calculateBucket\<close> over the task's
  \<^verbatim>\<open>bucketConfig\<close>.  A comparison with an absent field is false, as in JavaScript.
\<close>

definition ensureItemFits :: "bucketConfig \<Rightarrow> num \<Rightarrow> bool \<times> bucketConfig" where
  "ensureItemFits cfg sz =
     (case maxBucketBytes cfg of
        None \<Rightarrow> (False, cfg)
      | Some bytes \<Rightarrow>
          (let (mb1, bytes1, changed) =
                 (case maxBuckets cfg of
                    Some mb \<Rightarrow> (let (m, b) = fitLoop mb bytes sz
                                in (Some m, b, mb > 1 \<and> sz > bytes))
                  | None \<Rightarrow> (None, bytes, False))
           in if sz > bytes1
              then (True, \<lparr> maxBuckets = mb1, maxBucketBytes = Some (max bytes1 (sz * 2)) \<rparr>)
              else (changed, \<lparr> maxBuckets = mb1, maxBucketBytes = Some bytes1 \<rparr>)))"

text \<open>\<^verbatim>\<open>ensureBucketConfig(task, items)\<close>: the flag \<^verbatim>\<open>mutated\<close> and the task as it leaves.\<close>

definition ensureBucketConfig :: "task \<Rightarrow> item list \<Rightarrow> bool \<times> task" where
  "ensureBucketConfig t items =
     (let cfg = t_bucketConfig t;
          existingMaxBuckets =
            (case maxBuckets cfg of
               Some m \<Rightarrow> if m > 0 then Some (max 1 (Math_floor m)) else None
             | None \<Rightarrow> None);
          configuredTotalChunks =
            (case finiteOf (t_totalChunks t) of
               Some c \<Rightarrow> if c > 0 then Some (max 1 (Math_floor c)) else None
             | None \<Rightarrow> None);
          desiredMaxBuckets =
            (case nullish existingMaxBuckets configuredTotalChunks of
               Some v \<Rightarrow> v | None \<Rightarrow> DEFAULT_MAX_BUCKETS);
          mutated1 = (case maxBuckets cfg of
                        Some m \<Rightarrow> m \<le> 0 \<or> Math_floor m \<noteq> desiredMaxBuckets
                      | None \<Rightarrow> True);
          mb0 = (case maxBuckets cfg of
                   Some m \<Rightarrow> if m \<le> 0 \<or> Math_floor m \<noteq> desiredMaxBuckets
                             then desiredMaxBuckets else m
                 | None \<Rightarrow> desiredMaxBuckets);
          fallbackBytes = (case t_maxBucketBytes t of
                             Some b \<Rightarrow> if b > 0 then b else DEFAULT_BUCKET_BYTES
                           | None \<Rightarrow> DEFAULT_BUCKET_BYTES);
          mutated2 = (case maxBucketBytes cfg of Some b \<Rightarrow> b \<le> 0 | None \<Rightarrow> True);
          bytes0 = (case maxBucketBytes cfg of
                      Some b \<Rightarrow> if b \<le> 0 then max 1024 fallbackBytes else b
                    | None \<Rightarrow> max 1024 fallbackBytes);
          largest = largestItemBytes items;
          (mb1, bytes1) = fitLoop mb0 bytes0 largest;
          mutated3 = (mb0 > 1 \<and> largest > bytes0);
          mutated4 = (largest > bytes1);
          bytes2 = (if largest > bytes1 then max bytes1 (largest * 2) else bytes1);
          mutated5 = (t_totalChunks t \<noteq> Num mb1);
          mutated6 = (t_maxBucketBytes t \<noteq> Some bytes2)
      in (mutated1 \<or> mutated2 \<or> mutated3 \<or> mutated4 \<or> mutated5 \<or> mutated6,
          t\<lparr> t_bucketConfig := \<lparr> maxBuckets = Some mb1, maxBucketBytes = Some bytes2 \<rparr>,
             t_totalChunks := Num mb1,
             t_maxBucketBytes := Some bytes2 \<rparr>))"

text \<open>
  The specification's words for the normalisation: one halving step, and the
  configuration after \<open>k\<close> halving steps from \<open>(n, b)\<close>.
\<close>

definition halveBuckets :: "num \<Rightarrow> num" where
  "halveBuckets mb = max 1 (of_int \<lfloor>mb / 2\<rfloor>)"

section \<open>Assignment allocator\<close>

definition assignedTime :: "assignment \<Rightarrow> int" where
  "assignedTime e = (case a_assignedAt e of Some t \<Rightarrow> t | None \<Rightarrow> 0)"

definition sweepExpiredAssignments :: "int \<Rightarrow> assignment list \<Rightarrow> string \<Rightarrow> assignment list" where
  "sweepExpiredAssignments now assignments taskId =
     filter (\<lambda>entry. \<not> (a_taskId entry = taskId
                        \<and> now > (case a_expiresAt entry of
                                   Some t \<Rightarrow> t
                                 | None \<Rightarrow> assignedTime entry + BUCKET_TIMEOUT_MS)))
            assignments"

definition finishedStatus :: "string \<Rightarrow> bool" where
  "finishedStatus s = (s = ''completed'' \<or> s = ''failed'' \<or> s = ''skipped'')"

text \<open>
  \<^verbatim>\<open>finishedResults.find(...)\<close> followed by the test of its status: the first result
  of the task with the lease's chunk index exists and is terminal.
\<close>

definition relatedResultFinished :: "chunkResult list \<Rightarrow> string \<Rightarrow> assignment \<Rightarrow> bool" where
  "relatedResultFinished results taskId entry =
     (case find (\<lambda>r. r_taskId r = taskId \<and> r_chunkIndex r = a_chunkIndex entry) results of
        Some r \<Rightarrow> finishedStatus (r_status r)
      | None \<Rightarrow> False)"

text \<open>
  The loop \<^verbatim>\<open>for (let i = assignmentsCollection.length - 1; i >= 0; i--)\<close> of
  \<^verbatim>\<open>next-chunk\<close>.  It walks the collection from its end, so the tail of the list is
  scanned first; it returns the collection after the \<^verbatim>\<open>splice\<close> calls and the position
  of \<^verbatim>\<open>existingResumeAssignment\<close> in it.
\<close>

fun resumeScan ::
  "chunkResult list \<Rightarrow> string \<Rightarrow> string \<Rightarrow> assignment list \<Rightarrow> assignment list \<times> nat option" where
  "resumeScan results taskId workerId [] = ([], None)"
| "resumeScan results taskId workerId (entry # rest) =
     (let (rest', existing) = resumeScan results taskId workerId rest in
      if a_taskId entry \<noteq> taskId then (entry # rest', map_option Suc existing)
      else if a_workerId entry \<noteq> workerId then (entry # rest', map_option Suc existing)
      else if relatedResultFinished results taskId entry then (rest', existing)
      else (case existing of
              None \<Rightarrow> (entry # rest', Some 0)
            | Some j \<Rightarrow>
                (let existingTime = assignedTime (rest' ! j);
                     candidateTime = assignedTime entry
                 in if candidateTime < existingTime then (entry # rest', Some 0)
                    else (entry # rest', Some (Suc j)))))"

definition indexCovered :: "num \<Rightarrow> itemRange list \<Rightarrow> bool" where
  "indexCovered index ranges = list_ex (\<lambda>r. index \<ge> rg_start r \<and> index < rg_end r) ranges"

definition collectRanges :: "(num option \<times> num option \<times> num option \<times> num option) list \<Rightarrow> itemRange list" where
  "collectRanges entries =
     List.map_filter (\<lambda>(rangeStart, rangeEnd, itemsCount, chunkIndex).
                        normalizeRange rangeStart rangeEnd itemsCount chunkIndex) entries"

definition gtOpt :: "num \<Rightarrow> num option \<Rightarrow> bool" where
  "gtOpt x bound = (case bound of Some l \<Rightarrow> x > l | None \<Rightarrow> False)"

definition geOpt :: "num \<Rightarrow> num option \<Rightarrow> bool" where
  "geOpt x bound = (case bound of Some l \<Rightarrow> x \<ge> l | None \<Rightarrow> False)"

definition applyItemFits :: "task \<Rightarrow> num \<Rightarrow> bool \<times> task" where
  "applyItemFits t sz =
     (let (changed, cfg) = ensureItemFits (t_bucketConfig t) sz
      in (changed,
          if changed
          then t\<lparr> t_bucketConfig := cfg,
                  t_totalChunks := (case maxBuckets cfg of Some v \<Rightarrow> Num v | None \<Rightarrow> Absent),
                  t_maxBucketBytes := maxBucketBytes cfg \<rparr>
          else t\<lparr> t_bucketConfig := cfg \<rparr>))"

text \<open>
  The \<^verbatim>\<open>while (end < total)\<close> loop of \<^verbatim>\<open>calculateBucket\<close>; it returns the task,
  \<^verbatim>\<open>bytesUsed\<close> and \<^verbatim>\<open>end\<close> at the loop's exit.
\<close>

function bucketLoop ::
  "num list \<Rightarrow> itemRange list \<Rightarrow> itemRange list \<Rightarrow> nat \<Rightarrow> task \<Rightarrow> num option \<Rightarrow> num \<Rightarrow> nat
     \<Rightarrow> task \<times> num \<times> nat" where
  "bucketLoop itemSizes finishedRanges assignedRanges start t limit bytesUsed end =
     (if end < length itemSizes then
        if indexCovered (of_nat end) finishedRanges \<or> indexCovered (of_nat end) assignedRanges
        then (t, bytesUsed, end)
        else
          (let sz = itemSizes ! end;
               (changed, t1) = (if gtOpt sz limit then applyItemFits t sz else (False, t));
               limit1 = (if changed then maxBucketBytes (t_bucketConfig t1) else limit)
           in if gtOpt sz limit1
              then (if end = start then (t1, sz, start + 1) else (t1, bytesUsed, end))
              else if bytesUsed > 0 \<and> gtOpt (bytesUsed + sz) limit1 then (t1, bytesUsed, end)
              else if geOpt (bytesUsed + sz) limit1 then (t1, bytesUsed + sz, end + 1)
              else bucketLoop itemSizes finishedRanges assignedRanges start t1 limit1
                     (bytesUsed + sz) (end + 1))
      else (t, bytesUsed, end))"
  by pat_completeness auto
termination
  by (relation "measure (\<lambda>(itemSizes, f, a, start, t, limit, bytesUsed, end). length itemSizes - end)")
     auto

declare bucketLoop.simps [simp del]

record bucket =
  b_rangeStart :: nat
  b_rangeEnd :: nat
  b_bytesUsed :: num

definition calculateBucket ::
  "task \<Rightarrow> item list \<Rightarrow> itemRange list \<Rightarrow> itemRange list \<Rightarrow> bucket option \<times> task" where
  "calculateBucket t items finishedRanges assignedRanges =
     (let total = length items;
          itemSizes = map (\<lambda>item. of_nat (length item)) items
      in case find (\<lambda>i. \<not> indexCovered (of_nat i) finishedRanges
                         \<and> \<not> indexCovered (of_nat i) assignedRanges) [0 ..< total] of
           None \<Rightarrow> (None, t)
         | Some start \<Rightarrow>
             (let firstSize = itemSizes ! start;
                  (changed, t1) = applyItemFits t firstSize;
                  limit = maxBucketBytes (t_bucketConfig t1);
                  (t2, bytesUsed, end) =
                    bucketLoop itemSizes finishedRanges assignedRanges start t1 limit 0 start;
                  (bytesUsed', end') = (if end = start then (itemSizes ! start, start + 1)
                                         else (bytesUsed, end))
              in (Some \<lparr> b_rangeStart = start, b_rangeEnd = min end' total,
                         b_bytesUsed = bytesUsed' \<rparr>, t2)))"

section \<open>Task progress\<close>

definition orZero :: "num option \<Rightarrow> num" where
  "orZero x = (case x of Some v \<Rightarrow> v | None \<Rightarrow> 0)"

definition processedForResult :: "chunkResult \<Rightarrow> num" where
  "processedForResult result =
     (let totalFromRange = map_option (\<lambda>r. max 0 (rg_end r - rg_start r)) (resultRange result);
          totalFromCount = map_option (max 0) (r_itemsCount result);
          processedHint = map_option (max 0) (r_processedItems result);
          totalFallback = map_option (max 0) (r_itemResultsTotal result)
      in if finishedStatus (r_status result)
         then orZero (nullish totalFromRange
                        (nullish totalFromCount (nullish processedHint totalFallback)))
         else if r_status result = ''processing''
         then orZero (nullish processedHint (nullish totalFromRange totalFallback))
         else 0)"

definition computeProgress :: "task \<Rightarrow> chunkResult list \<Rightarrow> task" where
  "computeProgress t resultsArr =
     (let mine = filter (\<lambda>result. r_taskId result = t_id t) resultsArr;
          processedChunks = of_nat (length (filter (\<lambda>result. finishedStatus (r_status result)) mine));
          processedItems = sum_list (map processedForResult mine);
          chunkGoal = nullish (finiteOf (t_totalChunks t)) (finiteOf (t_maxBillableChunks t));
          progress =
            (if orZero (t_totalItems t) > 0
             then min 100 (Math_round (fl (fl (processedItems / orZero (t_totalItems t)) * 100)))
             else if orZero chunkGoal > 0
             then min 100 (Math_round (fl (fl (processedChunks / orZero chunkGoal) * 100)))
             else t_progress t)
      in t\<lparr> t_processedChunks := processedChunks,
             t_processedItems := processedItems,
             t_progress := progress,
             t_status := (if progress = 100 \<and> t_status t \<noteq> ''completed''
                          then ''completed'' else t_status t) \<rparr>)"

section \<open>The endpoint \<^verbatim>\<open>/api/worker/next-chunk\<close>\<close>

record chunkGrant =
  g_chunkIndex :: num
  g_chunkData :: "item list"
  g_rangeStart :: "num option"
  g_rangeEnd :: "num option"
  g_totalItems :: nat
  g_bucketBytes :: "num option"
  g_maxBucketBytes :: "num option"
  g_resume :: bool
  g_processedCount :: "num option"

datatype nextChunkResponse =
    NextChunkError nat string
  | NextChunkRefused string
  | NextChunkOk chunkGrant

text \<open>\<^verbatim>\<open>Array.prototype.slice(start, end)\<close>: the bounds are truncated to integers.\<close>

definition truncInt :: "num \<Rightarrow> int" where
  "truncInt x = (if x < 0 then \<lceil>x\<rceil> else \<lfloor>x\<rfloor>)"

definition slice :: "'a list \<Rightarrow> num \<Rightarrow> num \<Rightarrow> 'a list" where
  "slice xs s e =
     (let n = int (length xs);
          k = (if truncInt s < 0 then max (n + truncInt s) 0 else min (truncInt s) n);
          f = (if truncInt e < 0 then max (n + truncInt e) 0 else min (truncInt e) n)
      in take (nat (f - k)) (drop (nat k) xs))"

definition falsyToNull :: "num option \<Rightarrow> num option" where
  "falsyToNull x = (case x of Some v \<Rightarrow> if v = 0 then None else Some v | None \<Rightarrow> None)"

text \<open>The branch \<^verbatim>\<open>if (existingResumeAssignment)\<close>: the answer it sends.\<close>

definition resumeGrant :: "assignment \<Rightarrow> item list \<Rightarrow> task \<Rightarrow> chunkGrant" where
  "resumeGrant existing dataItems t =
     (let n = of_nat (length dataItems);
          resumeRange = assignmentRange existing;
          resumeStart = (case resumeRange of
                           Some r \<Rightarrow> rg_start r
                         | None \<Rightarrow> orZero (nullish (a_rangeStart existing) (a_chunkIndex existing)));
          resumeEnd = (case resumeRange of
                         Some r \<Rightarrow> rg_end r
                       | None \<Rightarrow> (case a_rangeEnd existing of Some e \<Rightarrow> e | None \<Rightarrow> resumeStart));
          safeStart = max 0 (min resumeStart n);
          safeEnd0 = max safeStart (min resumeEnd n);
          safeEnd = (if safeEnd0 \<le> safeStart
                     then min n (safeStart + (case a_itemsCount existing of
                                                Some c \<Rightarrow> max 1 c | None \<Rightarrow> 1))
                     else safeEnd0)
      in \<lparr> g_chunkIndex = (case a_chunkIndex existing of Some c \<Rightarrow> c | None \<Rightarrow> safeStart),
           g_chunkData = slice dataItems safeStart safeEnd,
           g_rangeStart = Some safeStart,
           g_rangeEnd = Some safeEnd,
           g_totalItems = length dataItems,
           g_bucketBytes = falsyToNull (a_bytesUsed existing),
           g_maxBucketBytes = maxBucketBytes (t_bucketConfig t),
           g_resume = True,
           g_processedCount = a_processedCount existing \<rparr>)"

text \<open>The rest of the handler, reached when no lease is resumed.\<close>

definition allocateChunk ::
  "config \<Rightarrow> int \<Rightarrow> db \<Rightarrow> nat \<Rightarrow> task \<Rightarrow> budget \<Rightarrow> assignment list \<Rightarrow> item list
     \<Rightarrow> string \<Rightarrow> string \<Rightarrow> nextChunkResponse \<times> db" where
  "allocateChunk env now d ti t budgetInfo activeAssignments dataItems taskId workerId =
     (let taskCustomer = findUserBySessionId d (t_creatorId t) in
      if \<not> DISABLE_BUDGET_CHECKS env \<and> maxBillableChunks budgetInfo > 0
         \<and> chunksPaid budgetInfo + of_nat (length activeAssignments) \<ge> maxBillableChunks budgetInfo
      then (NextChunkRefused ''budget-exhausted'', d\<lparr>tasks := (tasks d)[ti := t]\<rparr>)
      else if \<not> DISABLE_BUDGET_CHECKS env
              \<and> (case taskCustomer of
                    Some c \<Rightarrow> u_walletBalance (users d ! c) < costPerChunk budgetInfo
                  | None \<Rightarrow> False)
      then (NextChunkRefused ''insufficient-funds'', d\<lparr>tasks := (tasks d)[ti := t]\<rparr>)
      else
        (let finishedRanges = collectRanges
               (map (\<lambda>r. (r_rangeStart r, r_rangeEnd r, r_itemsCount r, r_chunkIndex r))
                    (filter (\<lambda>r. r_taskId r = taskId) (chunkResults d)));
             assignedRanges = collectRanges
               (map (\<lambda>a. (a_rangeStart a, a_rangeEnd a, a_itemsCount a, a_chunkIndex a))
                    activeAssignments)
         in case calculateBucket t dataItems finishedRanges assignedRanges of
              (None, t1) \<Rightarrow> (NextChunkRefused ''no-chunk'', d\<lparr>tasks := (tasks d)[ti := t1]\<rparr>)
            | (Some bucket, t1) \<Rightarrow>
                (let chunkIndex = orElse (t_nextChunkIndex t1) 0;
                     lease = \<lparr> a_taskId = taskId,
                               a_chunkIndex = Some chunkIndex,
                               a_workerId = workerId,
                               a_assignedAt = Some now,
                               a_expiresAt = Some (now + BUCKET_TIMEOUT_MS),
                               a_rangeStart = Some (of_nat (b_rangeStart bucket)),
                               a_rangeEnd = Some (of_nat (b_rangeEnd bucket)),
                               a_itemsCount = Some (of_nat (b_rangeEnd bucket)
                                                     - of_nat (b_rangeStart bucket)),
                               a_processedCount = Some 0,
                               a_progressRangeEnd = Some (of_nat (b_rangeStart bucket)),
                               a_bytesUsed = Some (b_bytesUsed bucket),
                               a_lastBatchOffset = Some 0,
                               a_lastBatchSize = Some 0 \<rparr>;
                     t2 = t1\<lparr> t_nextChunkIndex := Some (chunkIndex + 1),
                              t_status := ''processing'',
                              t_assignedWorkers :=
                                (if workerId \<in> set (t_assignedWorkers t1) then t_assignedWorkers t1
                                 else t_assignedWorkers t1 @ [workerId]) \<rparr>
                 in (NextChunkOk
                       \<lparr> g_chunkIndex = chunkIndex,
                         g_chunkData = slice dataItems (of_nat (b_rangeStart bucket))
                                         (of_nat (b_rangeEnd bucket)),
                         g_rangeStart = Some (of_nat (b_rangeStart bucket)),
                         g_rangeEnd = Some (of_nat (b_rangeEnd bucket)),
                         g_totalItems = length dataItems,
                         g_bucketBytes = Some (b_bytesUsed bucket),
                         g_maxBucketBytes = maxBucketBytes (t_bucketConfig t2),
                         g_resume = False,
                         g_processedCount = None \<rparr>,
                     d\<lparr> tasks := (tasks d)[ti := t2],
                        chunkAssignments := chunkAssignments d @ [lease] \<rparr>))))"

definition nextChunk :: "config \<Rightarrow> int \<Rightarrow> db \<Rightarrow> string \<Rightarrow> string \<Rightarrow> nextChunkResponse \<times> db" where
  "nextChunk env now d taskId workerId =
     (if taskId = [] \<or> workerId = []
      then (NextChunkError 400 ''taskId and workerId required'', d)
      else case findIndex (\<lambda>t. t_id t = taskId) (tasks d) of
             None \<Rightarrow> (NextChunkError 404 ''Task not found'', d)
           | Some ti \<Rightarrow>
               (let t = tasks d ! ti in
                if t_revoked t then (NextChunkRefused ''revoked'', d)
                else if workerId \<notin> set (t_assignedWorkers t)
                then (NextChunkRefused ''not-assigned'', d)
                else
                  (let budgetInfo = resolveTaskBudget t;
                       swept = sweepExpiredAssignments now (chunkAssignments d) (t_id t);
                       (assignmentsCollection, existingResumeAssignment) =
                          resumeScan (chunkResults d) taskId workerId swept;
                       d1 = d\<lparr>chunkAssignments := assignmentsCollection\<rparr>;
                       activeAssignments = filter (\<lambda>a. a_taskId a = taskId) assignmentsCollection;
                       dataItems = t_dataItems t
                   in if length dataItems = 0
                      then (NextChunkError 400 ''No data items available for task'', d1)
                      else
                        (let (mutatedConfig, t1) =
                               ensureBucketConfig
                                 (t\<lparr>t_totalItems := Some (of_nat (length dataItems))\<rparr>) dataItems
                         in case existingResumeAssignment of
                              Some ei \<Rightarrow>
                                (let existing = assignmentsCollection ! ei;
                                     existing' = existing\<lparr> a_expiresAt := Some (now + BUCKET_TIMEOUT_MS),
                                                          a_workerId := (if a_workerId existing = []
                                                                         then workerId
                                                                         else a_workerId existing) \<rparr>
                                 in (NextChunkOk (resumeGrant existing dataItems t1),
                                     d1\<lparr> tasks := (tasks d1)[ti := t1],
                                         chunkAssignments := assignmentsCollection[ei := existing'] \<rparr>))
                            | None \<Rightarrow>
                                allocateChunk env now d1 ti t1 budgetInfo activeAssignments
                                  dataItems taskId workerId))))"

section \<open>The endpoint \<^verbatim>\<open>/api/worker/record-chunk\<close>\<close>

text \<open>
  The fields of the request body the handler reads.  \<open>rc_chunkIndex\<close> is \<open>None\<close> when
  \<^verbatim>\<open>typeof chunkIndex !== "number"\<close>; \<open>rc_itemResults\<close> is \<open>None\<close> when the value is
  not an array.
\<close>

record recordChunkRequest =
  rc_taskId :: string
  rc_chunkIndex :: "num option"
  rc_status :: string
  rc_rangeStart :: "num option"
  rc_rangeEnd :: "num option"
  rc_itemsCount :: "num option"
  rc_bytesUsed :: "num option"
  rc_itemResults :: "rawItem list option"
  rc_workerId :: string

text \<open>
  \<open>RcThrew\<close>: the handler threw.  It is an \<^verbatim>\<open>async\<close> function without
  \<^verbatim>\<open>try\<close>, so no response is sent; what it had mutated in the store stays mutated.
\<close>

datatype recordChunkResponse =
    RcError nat string
  | RcOk bool
  | RcThrew string

text \<open>
  The loop over the leases (source lines 1618 to 1631).  Each lease is judged on its own,
  so walking the collection backwards with \<^verbatim>\<open>splice\<close> keeps the leases for which the
  test fails, in their order.
\<close>

definition releaseAssignments ::
  "string \<Rightarrow> num \<Rightarrow> num option \<Rightarrow> num option \<Rightarrow> assignment list \<Rightarrow> assignment list" where
  "releaseAssignments taskId chunkIndex rangeStart rangeEnd assignments =
     filter (\<lambda>entry.
        \<not> (a_taskId entry = taskId
           \<and> (a_chunkIndex entry = Some chunkIndex
              \<or> (case (rangeStart, rangeEnd) of
                    (Some rs, Some re) \<Rightarrow>
                      (case assignmentRange entry of
                         Some entryRange \<Rightarrow> rg_start entryRange = rs \<and> rg_end entryRange = re
                       | None \<Rightarrow> False)
                  | _ \<Rightarrow> False))))
       assignments"

text \<open>The loop over the results (source lines 1653 to 1664).\<close>

definition overlap :: "itemRange \<Rightarrow> itemRange \<Rightarrow> num" where
  "overlap a b = max 0 (min (rg_end a) (rg_end b) - max (rg_start a) (rg_start b))"

definition dedupResults ::
  "string \<Rightarrow> num \<Rightarrow> itemRange option \<Rightarrow> chunkResult list \<Rightarrow> chunkResult list" where
  "dedupResults taskId chunkIndex rng resultsArr =
     filter (\<lambda>r.
        \<not> (r_taskId r = taskId
           \<and> r_chunkIndex r \<noteq> Some chunkIndex
           \<and> (case (rng, resultRange r) of
                 (Some a, Some rRange) \<Rightarrow> overlap a rRange > 0
               | _ \<Rightarrow> False)))
       resultsArr"

definition resolveItemsCount ::
  "num option \<Rightarrow> num option \<Rightarrow> num option \<Rightarrow> itemResult list \<Rightarrow> num option" where
  "resolveItemsCount itemsCount rangeStart rangeEnd sanitizedItems =
     (case itemsCount of
        Some c \<Rightarrow> Some c
      | None \<Rightarrow>
          (case (rangeStart, rangeEnd) of
             (Some rs, Some re) \<Rightarrow> Some (re - rs)
           | _ \<Rightarrow> if length sanitizedItems \<noteq> 0
                  then Some (of_nat (length sanitizedItems)) else None))"

text \<open>
  \<^verbatim>\<open>req.body?.workerId || matchedAssignment?.workerId || existing?.workerId || null\<close>.
\<close>

definition resolveWorkerId :: "recordChunkRequest \<Rightarrow> assignment option \<Rightarrow> chunkResult \<Rightarrow> string" where
  "resolveWorkerId req matchedAssignment existing =
     (if rc_workerId req \<noteq> [] then rc_workerId req
      else case matchedAssignment of
             Some m \<Rightarrow> if a_workerId m \<noteq> [] then a_workerId m else r_workerId existing
           | None \<Rightarrow> r_workerId existing)"

text \<open>The branch \<^verbatim>\<open>if (existing)\<close>: the assignments to the stored result.\<close>

definition updateExisting ::
  "chunkResult \<Rightarrow> recordChunkRequest \<Rightarrow> sanitized \<Rightarrow> num option \<Rightarrow> string \<Rightarrow> chunkResult" where
  "updateExisting existing req payload resolvedItemsCount resolvedWorkerId =
     existing\<lparr>
       r_status := rc_status req,
       r_rangeStart := (case rc_rangeStart req of Some v \<Rightarrow> Some v | None \<Rightarrow> r_rangeStart existing),
       r_rangeEnd := (case rc_rangeEnd req of Some v \<Rightarrow> Some v | None \<Rightarrow> r_rangeEnd existing),
       r_itemsCount := (case resolvedItemsCount of
                          Some c \<Rightarrow> Some c | None \<Rightarrow> r_itemsCount existing),
       r_processedItems := (case resolvedItemsCount of
                              Some c \<Rightarrow> Some c
                            | None \<Rightarrow> Some (of_nat (length (s_items payload)))),
       r_bytesUsed := (case rc_bytesUsed req of Some v \<Rightarrow> Some v | None \<Rightarrow> r_bytesUsed existing),
       r_itemResults := s_items payload,
       r_itemResultsTotal := Some (of_nat (s_total payload)),
       r_itemResultsTruncated := s_truncated payload,
       r_workerId := (if resolvedWorkerId \<noteq> [] then resolvedWorkerId else r_workerId existing) \<rparr>"

text \<open>
  The end of the handler, from \<^verbatim>\<open>const targetResult = ...\<close> on: the payout, the
  recomputed progress and the answer.  The task and the result are objects of the
  collections; the model writes them back at their positions.
\<close>

definition settleTerminal ::
  "config \<Rightarrow> string \<Rightarrow> string \<Rightarrow> db \<Rightarrow> nat \<Rightarrow> task \<Rightarrow> nat \<Rightarrow> chunkResult \<Rightarrow> string
     \<Rightarrow> recordChunkResponse \<times> db" where
  "settleTerminal env nid nid' d2 ti t ei targetResult resolvedWorkerId =
     (let (payoutApplied, d3, tO, rO) =
            issueChunkPayout env nid nid' d2 (Some t) (Some targetResult) resolvedWorkerId;
          r' = (case rO of Some r \<Rightarrow> r | None \<Rightarrow> targetResult);
          results' = (chunkResults d3)[ei := r'];
          t' = computeProgress (case tO of Some x \<Rightarrow> x | None \<Rightarrow> t) results'
      in (RcOk payoutApplied,
          d3\<lparr> tasks := (tasks d3)[ti := t'], chunkResults := results' \<rparr>))"

text \<open>
  The handler.  In the branch without an existing result the object literal of
  \<^verbatim>\<open>newResult\<close> reads \<^verbatim>\<open>itemResultsTotal\<close> (source line 1709), a name that is
  declared nowhere in the module: evaluating it throws a \<^verbatim>\<open>ReferenceError\<close> before
  the result is pushed, after the leases and the overlapping results were removed.
\<close>

definition recordChunk ::
  "config \<Rightarrow> string \<Rightarrow> string \<Rightarrow> db \<Rightarrow> recordChunkRequest \<Rightarrow> recordChunkResponse \<times> db" where
  "recordChunk env nid nid' d req =
     (case rc_chunkIndex req of
        None \<Rightarrow> (RcError 400 ''Missing fields'', d)
      | Some chunkIndex \<Rightarrow>
          if rc_taskId req = [] \<or> rc_status req = [] then (RcError 400 ''Missing fields'', d)
          else case findIndex (\<lambda>t. t_id t = rc_taskId req) (tasks d) of
            None \<Rightarrow> (RcError 404 ''Task not found'', d)
          | Some ti \<Rightarrow>
              (let taskId = rc_taskId req;
                   t0 = tasks d ! ti;
                   t = (if t_status t0 = ''queued'' then t0\<lparr>t_status := ''processing''\<rparr> else t0);
                   assignments = chunkAssignments d;
                   matchedAssignment =
                     find (\<lambda>entry. a_taskId entry = taskId \<and> a_chunkIndex entry = Some chunkIndex)
                          assignments;
                   assignments' = releaseAssignments taskId chunkIndex (rc_rangeStart req)
                                    (rc_rangeEnd req) assignments;
                   rng = normalizeRange (rc_rangeStart req) (rc_rangeEnd req) (rc_itemsCount req)
                           (Some chunkIndex);
                   payload = sanitizeItemResults (rc_itemResults req);
                   resolvedItemsCount = resolveItemsCount (rc_itemsCount req) (rc_rangeStart req)
                                          (rc_rangeEnd req) (s_items payload);
                   resultsArr = dedupResults taskId chunkIndex rng (chunkResults d);
                   existing = findIndex (\<lambda>r. r_taskId r = taskId \<and> r_chunkIndex r = Some chunkIndex)
                                resultsArr;
                   d1 = d\<lparr> tasks := (tasks d)[ti := t],
                           chunkAssignments := assignments',
                           chunkResults := resultsArr \<rparr>
               in case existing of
                    None \<Rightarrow> (RcThrew ''ReferenceError: itemResultsTotal is not defined'', d1)
                  | Some ei \<Rightarrow>
                      (let old = resultsArr ! ei;
                           resolvedWorkerId = resolveWorkerId req matchedAssignment old;
                           targetResult = updateExisting old req payload resolvedItemsCount
                                            resolvedWorkerId;
                           d2 = d1\<lparr>chunkResults := resultsArr[ei := targetResult]\<rparr>
                       in settleTerminal env nid nid' d2 ti t ei targetResult resolvedWorkerId)))"

section \<open>The endpoint \<^verbatim>\<open>/api/worker/record-progress\<close>\<close>

text \<open>
  The fields of the request body.  \<open>rp_chunkIndex\<close> is \<open>None\<close> when the value is not a
  number, \<open>rp_items\<close> when it is not an array; an absent \<^verbatim>\<open>item\<close> is
  \<open>RawPrimitive JUndefined\<close>.
\<close>

record recordProgressRequest =
  rp_taskId :: string
  rp_chunkIndex :: "num option"
  rp_workerId :: string
  rp_rangeStart :: "num option"
  rp_itemsProcessed :: "num option"
  rp_totalItems :: "num option"
  rp_bytesUsed :: "num option"
  rp_item :: rawItem
  rp_items :: "rawItem list option"
  rp_batchOffset :: "num option"
  rp_batchSize :: "num option"

datatype recordProgressResponse =
    RpError nat string
  | RpOk num "num option"

definition floorNonNeg :: "num \<Rightarrow> num" where
  "floorNonNeg x = max 0 (Math_floor x)"

definition rawItemTruthy :: "rawItem \<Rightarrow> bool" where
  "rawItemTruthy item = (case item of RawObject g l s \<Rightarrow> True | RawPrimitive v \<Rightarrow> truthy v)"

text \<open>The block \<^verbatim>\<open>if (assignment) { ... }\<close>.\<close>

definition progressAssignment ::
  "int \<Rightarrow> recordProgressRequest \<Rightarrow> num \<Rightarrow> assignment \<Rightarrow> assignment" where
  "progressAssignment now req processed a =
     a\<lparr> a_processedCount := Some processed,
        a_bytesUsed := (case rp_bytesUsed req of Some v \<Rightarrow> Some v | None \<Rightarrow> a_bytesUsed a),
        a_progressRangeEnd := (case rp_rangeStart req of
                                 Some rs \<Rightarrow> Some (rs + processed)
                               | None \<Rightarrow> a_progressRangeEnd a),
        a_lastBatchOffset := (case rp_batchOffset req of
                                Some v \<Rightarrow> Some (floorNonNeg v) | None \<Rightarrow> a_lastBatchOffset a),
        a_lastBatchSize := (case rp_batchSize req of
                              Some v \<Rightarrow> Some (floorNonNeg v) | None \<Rightarrow> a_lastBatchSize a),
        a_expiresAt := Some (now + BUCKET_TIMEOUT_MS),
        a_workerId := (if rp_workerId req \<noteq> [] then rp_workerId req else a_workerId a) \<rparr>"

text \<open>The result created when the bucket has none yet.\<close>

definition newProgressEntry :: "recordProgressRequest \<Rightarrow> num \<Rightarrow> num option \<Rightarrow> num \<Rightarrow> chunkResult" where
  "newProgressEntry req chunkIndex totalItems processed =
     \<lparr> r_taskId = rp_taskId req,
       r_chunkIndex = Some chunkIndex,
       r_status = ''processing'',
       r_rangeStart = rp_rangeStart req,
       r_rangeEnd = rp_rangeStart req,
       r_itemsCount = totalItems,
       r_bytesUsed = rp_bytesUsed req,
       r_itemResults = [],
       r_itemResultsTotal = Some 0,
       r_itemResultsTruncated = False,
       r_processedItems = Some processed,
       r_workerId = [],
       r_payoutIssued = False \<rparr>"

text \<open>The scalar updates of the result, source lines 1839 to 1869.\<close>

definition progressScalars :: "recordProgressRequest \<Rightarrow> num option \<Rightarrow> num \<Rightarrow> chunkResult \<Rightarrow> chunkResult" where
  "progressScalars req totalItems processed r =
     r\<lparr> r_status := (if r_status r \<noteq> ''completed'' \<and> r_status r \<noteq> ''failed''
                      then ''processing'' else r_status r),
        r_rangeStart := (case rp_rangeStart req of
                           Some rs \<Rightarrow> (case r_rangeStart r of
                                         None \<Rightarrow> Some rs | Some old \<Rightarrow> Some (min old rs))
                         | None \<Rightarrow> r_rangeStart r),
        r_rangeEnd := (case rp_rangeStart req of
                         Some rs \<Rightarrow>
                           (let candidateEnd = rs + processed
                            in case r_rangeEnd r of
                                 None \<Rightarrow> Some candidateEnd
                               | Some old \<Rightarrow> if candidateEnd > old then Some candidateEnd
                                             else Some old)
                       | None \<Rightarrow> r_rangeEnd r),
        r_itemsCount := (case totalItems of
                           Some tot \<Rightarrow> if tot > orZero (r_itemsCount r) then Some tot
                                       else r_itemsCount r
                         | None \<Rightarrow> r_itemsCount r),
        r_processedItems := (if processed > orZero (r_processedItems r) then Some processed
                             else r_processedItems r),
        r_bytesUsed := (case rp_bytesUsed req of Some v \<Rightarrow> Some v | None \<Rightarrow> r_bytesUsed r) \<rparr>"

text \<open>
  The callback of \<^verbatim>\<open>rawBatch.forEach((rawItem, idx) => ...)\<close>, folded over the batch
  with the list of stored items as the state.
\<close>

definition mergeItem ::
  "recordProgressRequest \<Rightarrow> num \<Rightarrow> nat \<Rightarrow> itemResult list \<Rightarrow> rawItem \<times> nat \<Rightarrow> itemResult list" where
  "mergeItem req processed batchLength stored entry =
     (case entry of (rawItem, idx) \<Rightarrow>
        (let fallbackLocal = (case rp_batchOffset req of
                                Some off \<Rightarrow> floorNonNeg off + of_nat idx
                              | None \<Rightarrow> max 0 (processed - of_nat batchLength + of_nat idx));
             fallbackGlobal = (case rp_rangeStart req of
                                 Some rs \<Rightarrow> Some (rs + fallbackLocal) | None \<Rightarrow> None);
             fb = \<lparr> fb_globalIndex = (case finiteNum (rawGlobalIndex rawItem) of
                                        Some n \<Rightarrow> Some n | None \<Rightarrow> fallbackGlobal),
                    fb_localIndex = (case finiteNum (rawLocalIndex rawItem) of
                                       Some n \<Rightarrow> Some n | None \<Rightarrow> Some fallbackLocal),
                    fb_status = (if truthy (rawStatus rawItem) then rawStatus rawItem
                                 else JStr ''completed'') \<rparr>
         in case sanitizeSingleItem rawItem fb of
              None \<Rightarrow> stored
            | Some sanitized \<Rightarrow>
                (case i_localIndex sanitized of
                   Some localIdx \<Rightarrow>
                     filter (\<lambda>existing. case i_localIndex existing of
                                          Some l \<Rightarrow> l \<noteq> localIdx | None \<Rightarrow> True) stored
                     @ [sanitized]
                 | None \<Rightarrow> stored @ [sanitized])))"

definition sortKey :: "itemResult \<Rightarrow> num" where
  "sortKey a = (case i_localIndex a of Some l \<Rightarrow> l | None \<Rightarrow> MAX_SAFE_INTEGER)"

text \<open>\<^verbatim>\<open>rawBatch\<close>: the array \<^verbatim>\<open>items\<close> when it has elements, else the single \<^verbatim>\<open>item\<close>.\<close>

definition rawBatchOf :: "recordProgressRequest \<Rightarrow> rawItem list" where
  "rawBatchOf req =
     (case rp_items req of
        Some xs \<Rightarrow> if length xs > 0 then xs
                   else if rawItemTruthy (rp_item req) then [rp_item req] else []
      | None \<Rightarrow> if rawItemTruthy (rp_item req) then [rp_item req] else [])"

definition mergeBatch ::
  "recordProgressRequest \<Rightarrow> num \<Rightarrow> itemResult list \<Rightarrow> itemResult list" where
  "mergeBatch req processed stored =
     (let rawBatch = rawBatchOf req
      in if length rawBatch > 0
         then (let merged = foldl (mergeItem req processed (length rawBatch)) stored
                              (zip rawBatch [0 ..< length rawBatch]);
                   sorted = sort_key sortKey merged
               in if length sorted > MAX_ITEM_RESULTS_STORED
                  then drop (length sorted - MAX_ITEM_RESULTS_STORED) sorted
                  else sorted)
         else stored)"

text \<open>All the updates of the result entry, source lines 1839 to 1923.\<close>

definition progressResult ::
  "recordProgressRequest \<Rightarrow> num option \<Rightarrow> num \<Rightarrow> chunkResult \<Rightarrow> chunkResult" where
  "progressResult req totalItems processed r =
     (let r1 = progressScalars req totalItems processed r;
          r2 = r1\<lparr>r_itemResults := mergeBatch req processed (r_itemResults r1)\<rparr>;
          r3 = r2\<lparr>r_itemResultsTotal :=
                   (if processed > orZero (r_itemResultsTotal r2) then Some processed
                    else r_itemResultsTotal r2)\<rparr>
      in r3\<lparr>r_itemResultsTruncated :=
             (of_nat (length (r_itemResults r3)) < orZero (r_itemResultsTotal r3))\<rparr>)"

definition recordProgress ::
  "int \<Rightarrow> db \<Rightarrow> recordProgressRequest \<Rightarrow> recordProgressResponse \<times> db" where
  "recordProgress now d req =
     (case (rp_chunkIndex req, rp_itemsProcessed req) of
        (Some chunkIndex, Some itemsProcessed) \<Rightarrow>
          if rp_taskId req = []
          then (RpError 400 ''taskId, chunkIndex, and itemsProcessed are required'', d)
          else case findIndex (\<lambda>t. t_id t = rp_taskId req) (tasks d) of
            None \<Rightarrow> (RpError 404 ''Task not found'', d)
          | Some ti \<Rightarrow>
              (let taskId = rp_taskId req;
                   t = tasks d ! ti;
                   assignments = chunkAssignments d;
                   total = map_option floorNonNeg (rp_totalItems req);
                   processedRaw = floorNonNeg itemsProcessed;
                   processed = (case total of Some tot \<Rightarrow> min processedRaw tot | None \<Rightarrow> processedRaw);
                   assignments' =
                     (case findIndex (\<lambda>entry. a_taskId entry = taskId
                                              \<and> a_chunkIndex entry = Some chunkIndex) assignments of
                        Some ai \<Rightarrow> assignments[ai := progressAssignment now req processed (assignments ! ai)]
                      | None \<Rightarrow> assignments);
                   resultsArr0 = chunkResults d;
                   (resultsArr, ri) =
                     (case findIndex (\<lambda>r. r_taskId r = taskId \<and> r_chunkIndex r = Some chunkIndex)
                             resultsArr0 of
                        Some i \<Rightarrow> (resultsArr0, i)
                      | None \<Rightarrow> (resultsArr0 @ [newProgressEntry req chunkIndex total processed],
                                 length resultsArr0));
                   resultEntry = progressResult req total processed (resultsArr ! ri);
                   results' = resultsArr[ri := resultEntry]
               in (RpOk processed total,
                   d\<lparr> tasks := (tasks d)[ti := computeProgress t results'],
                      chunkAssignments := assignments',
                      chunkResults := results' \<rparr>))
      | _ \<Rightarrow> (RpError 400 ''taskId, chunkIndex, and itemsProcessed are required'', d))"

section \<open>Definitions used by the statements\<close>

text \<open>
  \<^verbatim>\<open>issueChunkPayout\<close> in two halves: its guards, which yield the customer account
  when the payout is to be applied, and the store the three ledger writes leave.
\<close>

definition payoutGuards :: "config \<Rightarrow> db \<Rightarrow> task \<Rightarrow> chunkResult \<Rightarrow> nat option" where
  "payoutGuards env d t r =
     (if r_payoutIssued r then None
      else if r_status r \<noteq> ''completed'' then None
      else if \<not> DISABLE_BUDGET_CHECKS env
              \<and> chunksPaid (resolveTaskBudget t) \<ge> maxBillableChunks (resolveTaskBudget t)
      then None
      else findUserBySessionId d
             (if t_creatorId t \<noteq> [] then t_creatorId t else t_creatorSessionId t))"

text \<open>The store a payout leaves, once its guards are passed.\<close>

definition payoutStore :: "config \<Rightarrow> string \<Rightarrow> string \<Rightarrow> db \<Rightarrow> task \<Rightarrow> chunkResult \<Rightarrow> string \<Rightarrow> nat \<Rightarrow> db" where
  "payoutStore env nid nid' d t r w customerAccount =
     (let d1 = (if w \<noteq> [] then fst (ensureWorkerUser nid nid' d w) else d);
          worker = (if w \<noteq> [] then snd (ensureWorkerUser nid nid' d w) else None);
          d2 = fst (adjustUserBalance d1 (Some customerAccount)
                      (- costPerChunk (resolveTaskBudget t)) ChunkDebit (payoutMeta t r));
          d3 = (if worker \<noteq> None
                then fst (adjustUserBalance d2 worker (workerShareOf env t) ChunkCredit (payoutMeta t r))
                else d2)
      in if platformShareOf env t \<noteq> 0
         then recordPlatformEarning d3 (platformShareOf env t) (payoutMeta t r)
         else d3)"

text \<open>The claim's words and the code's test for a lease other than the bucket's own.\<close>

definition leaseOverlaps :: "assignment \<Rightarrow> num option \<Rightarrow> num option \<Rightarrow> bool" where
  "leaseOverlaps e rangeStart rangeEnd =
     (case (rangeStart, rangeEnd, assignmentRange e) of
        (Some rs, Some re, Some er) \<Rightarrow> overlap \<lparr> rg_start = rs, rg_end = re \<rparr> er > 0
      | _ \<Rightarrow> False)"

definition leaseRangeEquals :: "assignment \<Rightarrow> num option \<Rightarrow> num option \<Rightarrow> bool" where
  "leaseRangeEquals e rangeStart rangeEnd =
     (case (rangeStart, rangeEnd) of
        (Some rs, Some re) \<Rightarrow> assignmentRange e = Some \<lparr> rg_start = rs, rg_end = re \<rparr>
      | _ \<Rightarrow> False)"

text \<open>The claim's words: the status a bucket is to get from its item results.\<close>

definition derivedStatus :: "rawItem list \<Rightarrow> string" where
  "derivedStatus items =
     (if list_ex (\<lambda>i. coerceStatus (rawStatus i) = ''failed'') items then ''failed''
      else if list_ex (\<lambda>i. coerceStatus (rawStatus i) = ''completed'') items then ''completed''
      else ''skipped'')"

text \<open>The result stored for a bucket: the first of the collection with its keys.\<close>

definition storedResult :: "db \<Rightarrow> string \<Rightarrow> num \<Rightarrow> chunkResult option" where
  "storedResult d taskId chunkIndex =
     find (\<lambda>r. r_taskId r = taskId \<and> r_chunkIndex r = Some chunkIndex) (chunkResults d)"


text \<open>\<open>processedItems\<close> of a bucket as the server reads it, 0 when nothing is stored.\<close>

definition processedOf :: "db \<Rightarrow> string \<Rightarrow> num \<Rightarrow> num" where
  "processedOf d taskId chunkIndex =
     (case storedResult d taskId chunkIndex of
        Some r \<Rightarrow> orZero (r_processedItems r)
      | None \<Rightarrow> 0)"

text \<open>A sequence of progress calls, each with the time it arrives.\<close>

definition runProgress :: "db \<Rightarrow> (int \<times> recordProgressRequest) list \<Rightarrow> db" where
  "runProgress d steps = foldl (\<lambda>s (now, req). snd (recordProgress now s req)) d steps"


text \<open>
  Leases of a task and worker as \<^verbatim>\<open>next-chunk\<close> sorts them: one it may resume (no terminal
  result for its bucket), one it splices out (terminal result present), all leases of the pair,
  and the grant an answer carries.
\<close>

definition resumable :: "chunkResult list \<Rightarrow> string \<Rightarrow> string \<Rightarrow> assignment \<Rightarrow> bool" where
  "resumable results taskId workerId e =
     (a_taskId e = taskId \<and> a_workerId e = workerId \<and> \<not> relatedResultFinished results taskId e)"

definition settledLease :: "chunkResult list \<Rightarrow> string \<Rightarrow> string \<Rightarrow> assignment \<Rightarrow> bool" where
  "settledLease results taskId workerId e =
     (a_taskId e = taskId \<and> a_workerId e = workerId \<and> relatedResultFinished results taskId e)"

definition pairLeases :: "string \<Rightarrow> string \<Rightarrow> assignment list \<Rightarrow> assignment list" where
  "pairLeases taskId workerId leases =
     filter (\<lambda>e. a_taskId e = taskId \<and> a_workerId e = workerId) leases"

definition grantOf :: "nextChunkResponse \<Rightarrow> chunkGrant option" where
  "grantOf resp = (case resp of NextChunkOk g \<Rightarrow> Some g | _ \<Rightarrow> None)"

text \<open>
  \<^verbatim>\<open>cfg.maxBuckets\<close> and \<^verbatim>\<open>cfg.maxBucketBytes\<close> as the two repairing
  \<^verbatim>\<open>if\<close> statements of \<^verbatim>\<open>ensureBucketConfig\<close> leave them (source lines 607 to 623),
  before the loop.
\<close>

definition repairedMaxBuckets :: "task \<Rightarrow> num" where
  "repairedMaxBuckets t =
     (let cfg = t_bucketConfig t;
          existingMaxBuckets =
            (case maxBuckets cfg of
               Some m \<Rightarrow> if m > 0 then Some (max 1 (Math_floor m)) else None
             | None \<Rightarrow> None);
          configuredTotalChunks =
            (case finiteOf (t_totalChunks t) of
               Some c \<Rightarrow> if c > 0 then Some (max 1 (Math_floor c)) else None
             | None \<Rightarrow> None);
          desiredMaxBuckets =
            (case nullish existingMaxBuckets configuredTotalChunks of
               Some v \<Rightarrow> v | None \<Rightarrow> DEFAULT_MAX_BUCKETS)
      in case maxBuckets cfg of
           Some m \<Rightarrow> if m \<le> 0 \<or> Math_floor m \<noteq> desiredMaxBuckets
                     then desiredMaxBuckets else m
         | None \<Rightarrow> desiredMaxBuckets)"

definition repairedMaxBucketBytes :: "task \<Rightarrow> num" where
  "repairedMaxBucketBytes t =
     (let fallbackBytes = (case t_maxBucketBytes t of
                             Some b \<Rightarrow> if b > 0 then b else DEFAULT_BUCKET_BYTES
                           | None \<Rightarrow> DEFAULT_BUCKET_BYTES)
      in case maxBucketBytes (t_bucketConfig t) of
           Some b \<Rightarrow> if b \<le> 0 then max 1024 fallbackBytes else b
         | None \<Rightarrow> max 1024 fallbackBytes)"


text \<open>
  The item the callback of \<^verbatim>\<open>rawBatch.forEach\<close> in \<^verbatim>\<open>record-progress\<close> stores for
  the batch item at position \<open>idx\<close> (its constant \<^verbatim>\<open>sanitized\<close>, source lines 1875 to
  1889), \<open>None\<close> when the item is not an object.
\<close>

definition batchItem ::
  "recordProgressRequest \<Rightarrow> num \<Rightarrow> nat \<Rightarrow> rawItem \<Rightarrow> nat \<Rightarrow> itemResult option" where
  "batchItem req processed batchLength rawItem idx =
     (let fallbackLocal = (case rp_batchOffset req of
                             Some off \<Rightarrow> floorNonNeg off + of_nat idx
                           | None \<Rightarrow> max 0 (processed - of_nat batchLength + of_nat idx));
          fallbackGlobal = (case rp_rangeStart req of
                              Some rs \<Rightarrow> Some (rs + fallbackLocal) | None \<Rightarrow> None);
          fb = \<lparr> fb_globalIndex = (case finiteNum (rawGlobalIndex rawItem) of
                                     Some n \<Rightarrow> Some n | None \<Rightarrow> fallbackGlobal),
                 fb_localIndex = (case finiteNum (rawLocalIndex rawItem) of
                                    Some n \<Rightarrow> Some n | None \<Rightarrow> Some fallbackLocal),
                 fb_status = (if truthy (rawStatus rawItem) then rawStatus rawItem
                              else JStr ''completed'') \<rparr>
      in sanitizeSingleItem rawItem fb)"


section \<open>Concrete states used by the examples\<close>

definition envA :: config where
  "envA = \<lparr> PLATFORM_FEE_PERCENT = 10, DISABLE_BUDGET_CHECKS = True,
            SANDBOX_WALLET_ENABLED = False \<rparr>"

definition customerA :: user where
  "customerA = \<lparr> u_id = ''u1'', u_sessionId = ''cust'', u_walletBalance = 20,
                 u_roles = [''customer''] \<rparr>"

definition taskA :: "num \<Rightarrow> num \<Rightarrow> task" where
  "taskA cost fee =
     \<lparr> t_id = ''t1'', t_creatorId = ''cust'', t_creatorSessionId = [],
       t_status = ''processing'', t_revoked = False, t_assignedWorkers = [''w1''],
       t_costPerChunk = Num cost, t_creditCost = Absent, t_maxBillableChunks = Num 5,
       t_totalChunks = Num 5, t_budgetTotal = Num (fl (cost * 5)), t_chunksPaid = Num 0,
       t_budgetSpent = Num 0, t_platformFeePercent = Num fee,
       t_bucketConfig = \<lparr> maxBuckets = Some 5, maxBucketBytes = Some 1024 \<rparr>,
       t_maxBucketBytes = Some 1024, t_nextChunkIndex = Some 1, t_totalItems = Some 4,
       t_processedChunks = 0, t_processedItems = 0, t_progress = 0,
       t_dataItems = [''1'', ''2'', ''3'', ''4''] \<rparr>"

definition resultA :: chunkResult where
  "resultA =
     \<lparr> r_taskId = ''t1'', r_chunkIndex = Some 0, r_status = ''completed'',
       r_rangeStart = Some 0, r_rangeEnd = Some 2, r_itemsCount = Some 2,
       r_bytesUsed = Some 2, r_itemResults = [], r_itemResultsTotal = Some 0,
       r_itemResultsTruncated = False, r_processedItems = Some 2, r_workerId = ''w1'',
       r_payoutIssued = False \<rparr>"

definition dbA :: db where
  "dbA = \<lparr> tasks = [], chunkResults = [], chunkAssignments = [], users = [customerA],
           walletTransactions = [], platformLedger = 0 \<rparr>"

definition metaA :: txMeta where
  "metaA = \<lparr> m_taskId = Some ''t1'', m_chunkIndex = Some 0, m_reason = None \<rparr>"

text \<open>The store after the bucket of \<open>resultA\<close> is paid with cost 2 and a fee of 0 percent.\<close>

definition dbA_zero_fee :: db where
  "dbA_zero_fee =
     dbA\<lparr> users := [customerA\<lparr>u_walletBalance := 18\<rparr>,
                     \<lparr> u_id = ''n1'', u_sessionId = ''w1'', u_walletBalance = 2,
                       u_roles = [''worker''] \<rparr>],
          walletTransactions :=
            [\<lparr> tx_userId = ''u1'', tx_sessionId = ''cust'', tx_type = ChunkDebit,
               tx_amount = - 2, tx_balanceAfter = 18, tx_meta = metaA \<rparr>,
             \<lparr> tx_userId = ''n1'', tx_sessionId = ''w1'', tx_type = ChunkCredit,
               tx_amount = 2, tx_balanceAfter = 2, tx_meta = metaA \<rparr>] \<rparr>"

text \<open>
  The binary64 numbers nearest to 0.2 and to 1.8, and the store after the same bucket is
  paid with cost 2 and a fee of 10 percent.
\<close>

definition double_0_2 :: num where
  "double_0_2 = 3602879701896397 / 18014398509481984"

definition double_1_8 :: num where
  "double_1_8 = 8106479329266893 / 4503599627370496"

definition dbA_paid :: db where
  "dbA_paid =
     dbA\<lparr> users := [customerA\<lparr>u_walletBalance := 18\<rparr>,
                     \<lparr> u_id = ''n1'', u_sessionId = ''w1'', u_walletBalance = double_1_8,
                       u_roles = [''worker''] \<rparr>],
          walletTransactions :=
            [\<lparr> tx_userId = ''u1'', tx_sessionId = ''cust'', tx_type = ChunkDebit,
               tx_amount = - 2, tx_balanceAfter = 18, tx_meta = metaA \<rparr>,
             \<lparr> tx_userId = ''n1'', tx_sessionId = ''w1'', tx_type = ChunkCredit,
               tx_amount = double_1_8, tx_balanceAfter = double_1_8, tx_meta = metaA \<rparr>,
             \<lparr> tx_userId = ''platform'', tx_sessionId = ''platform'', tx_type = PlatformFee,
               tx_amount = double_0_2, tx_balanceAfter = double_0_2, tx_meta = metaA \<rparr>],
          platformLedger := double_0_2 \<rparr>"

definition taskA_paid :: task where
  "taskA_paid = (taskA 2 10)\<lparr>t_chunksPaid := Num 1, t_budgetSpent := Num 2\<rparr>"

definition resultA_paid :: chunkResult where
  "resultA_paid = resultA\<lparr>r_payoutIssued := True\<rparr>"


text \<open>Submitted items and a progress batch.\<close>

definition itemsC10 :: "rawItem list" where
  "itemsC10 = [RawObject JUndefined JUndefined (JStr ''FAILED''),
               RawPrimitive JNull,
               RawObject (JNum 7) (JNum 2) (JStr ''failed''),
               RawObject JUndefined JUndefined JUndefined]"

definition progressC10 :: recordProgressRequest where
  "progressC10 = \<lparr> rp_taskId = ''t1'', rp_chunkIndex = Some 0, rp_workerId = ''w1'',
       rp_rangeStart = Some 0, rp_itemsProcessed = Some 1, rp_totalItems = Some 2,
       rp_bytesUsed = None, rp_item = RawPrimitive JUndefined,
       rp_items = Some [RawObject JUndefined JUndefined (JNum 1)],
       rp_batchOffset = Some 0, rp_batchSize = Some 1 \<rparr>"

text \<open>A task whose first item is larger than its byte limit.\<close>

definition taskC7 :: task where
  "taskC7 = (taskA 2 10)\<lparr> t_bucketConfig := \<lparr> maxBuckets = Some 8, maxBucketBytes = Some 1 \<rparr>,
                          t_dataItems := [''12345'', ''1''] \<rparr>"


text \<open>
  A task whose stored \<^verbatim>\<open>maxBuckets\<close> is 0 and whose \<^verbatim>\<open>maxBucketBytes\<close> is
  \<^verbatim>\<open>null\<close>; \<^verbatim>\<open>POST /api/tasks\<close> stores that \<^verbatim>\<open>null\<close> when the upload names no byte limit.
\<close>

definition taskC7_zero :: task where
  "taskC7_zero = (taskA 2 10)\<lparr> t_bucketConfig := \<lparr> maxBuckets = Some 0, maxBucketBytes = None \<rparr>,
                               t_maxBucketBytes := None \<rparr>"
text \<open>
  A store with one task, two leases of worker \<open>w1\<close> (buckets 0 and 1) and a result in
  progress for bucket 0.
\<close>

definition leaseB0 :: assignment where
  "leaseB0 = \<lparr> a_taskId = ''t1'', a_chunkIndex = Some 0, a_workerId = ''w1'',
       a_assignedAt = Some 1000, a_expiresAt = Some 1201000, a_rangeStart = Some 0,
       a_rangeEnd = Some 2, a_itemsCount = Some 2, a_processedCount = Some 0,
       a_progressRangeEnd = Some 0, a_bytesUsed = Some 2, a_lastBatchOffset = Some 0,
       a_lastBatchSize = Some 0 \<rparr>"

definition leaseB1 :: assignment where
  "leaseB1 = leaseB0\<lparr> a_chunkIndex := Some 1, a_assignedAt := Some 2000,
       a_expiresAt := Some 1202000, a_rangeStart := Some 2, a_rangeEnd := Some 4,
       a_progressRangeEnd := Some 2 \<rparr>"

definition resultB0 :: chunkResult where
  "resultB0 = resultA\<lparr> r_status := ''processing'', r_workerId := [] \<rparr>"

definition dbB :: db where
  "dbB = \<lparr> tasks = [taskA 2 10], chunkResults = [resultB0],
           chunkAssignments = [leaseB0, leaseB1], users = [customerA],
           walletTransactions = [], platformLedger = 0 \<rparr>"

text \<open>A terminal update for bucket 0 that reports the range \<open>[0, 3)\<close>.\<close>

definition terminalB :: recordChunkRequest where
  "terminalB = \<lparr> rc_taskId = ''t1'', rc_chunkIndex = Some 0, rc_status = ''completed'',
       rc_rangeStart = Some 0, rc_rangeEnd = Some 3, rc_itemsCount = Some 3,
       rc_bytesUsed = None, rc_itemResults = None, rc_workerId = ''w1'' \<rparr>"

text \<open>
  A terminal update for bucket 0 that says \<open>completed\<close> and carries a failed item, and
  one that carries the task, the bucket and the status only.
\<close>

definition terminalFailedItem :: recordChunkRequest where
  "terminalFailedItem = terminalB\<lparr> rc_rangeEnd := Some 2, rc_itemsCount := Some 2,
       rc_itemResults := Some [RawObject (JNum 0) (JNum 0) (JStr ''failed''),
                               RawObject (JNum 1) (JNum 1) (JStr ''completed'')] \<rparr>"

definition terminalBare :: recordChunkRequest where
  "terminalBare = terminalB\<lparr> rc_rangeStart := None, rc_rangeEnd := None,
       rc_itemsCount := None, rc_workerId := [] \<rparr>"


text \<open>A progress call for bucket 0 of the example task reporting two items done, and the
  example store before any result is recorded.\<close>

definition progressB :: recordProgressRequest where
  "progressB = \<lparr> rp_taskId = ''t1'', rp_chunkIndex = Some 0, rp_workerId = ''w1'',
       rp_rangeStart = Some 0, rp_itemsProcessed = Some 2, rp_totalItems = Some 2,
       rp_bytesUsed = None, rp_item = RawPrimitive JUndefined,
       rp_items = Some [RawObject (JNum 1) (JNum 1) (JStr ''completed'')],
       rp_batchOffset = Some 1, rp_batchSize = Some 1 \<rparr>"

definition dbC :: db where
  "dbC = dbB\<lparr>chunkResults := []\<rparr>"








text \<open>A progress batch of two items, the first of them failed.\<close>

definition progressTwo :: recordProgressRequest where
  "progressTwo = progressB\<lparr> rp_items := Some [RawObject JUndefined (JNum 0) (JStr ''failed''),
                                               RawObject JUndefined JUndefined JUndefined],
                            rp_batchOffset := Some 0, rp_batchSize := Some 2 \<rparr>"

section \<open>Binary64 rounding\<close>

lemma rne_error: "\<bar>of_int (rne x) - x\<bar> \<le> 1 / 2"
  unfolding rne_def Let_def by (auto; linarith)

lemma rne_of_int: "rne (of_int n) = n"
  by (simp add: rne_def)

lemma rne_minus: "rne (- x) = - rne x"
proof (cases "x = of_int \<lfloor>x\<rfloor>")
  case True
  then obtain n where "x = of_int n" ..
  then show ?thesis by (simp add: rne_of_int flip: of_int_minus)
next
  case False
  then have f: "\<lfloor>- x\<rfloor> = - \<lfloor>x\<rfloor> - 1"
    by (metis ceiling_altdef ceiling_def add_diff_cancel minus_diff_eq minus_minus uminus_add_conv_diff)
  show ?thesis
    unfolding rne_def Let_def f using False
    by (auto simp: algebra_simps)
qed

lemma expoFrom_range: "- 1022 \<le> expoFrom n x \<and> expoFrom n x \<le> int n - 1022"
  by (induction n) auto

lemma expoFrom_lower: "expoFrom n x = - 1022 \<or> 2 powi (expoFrom n x) \<le> \<bar>x\<bar>"
  by (induction n) auto

lemma expoFrom_upper: "\<bar>x\<bar> < 2 powi (int n - 1021) \<Longrightarrow> \<bar>x\<bar> < 2 powi (expoFrom n x + 1)"
proof (induction n)
  case 0
  then show ?case by simp
next
  case (Suc n)
  show ?case
  proof (cases "2 powi (int n - 1021) \<le> \<bar>x\<bar>")
    case True
    then show ?thesis using Suc.prems by (simp add: algebra_simps)
  next
    case False
    then show ?thesis using Suc.IH by simp
  qed
qed

lemma expoFrom_minus: "expoFrom n (- x) = expoFrom n x"
  by (induction n) simp_all

lemma expo_range: "- 1022 \<le> expo x" "expo x \<le> 1023"
  using expoFrom_range[of 2045 x] by (simp_all add: expo_def)

lemma expo_lower: "expo x = - 1022 \<or> 2 powi (expo x) \<le> \<bar>x\<bar>"
  using expoFrom_lower[of 2045 x] by (simp add: expo_def)

lemma expo_upper: "\<bar>x\<bar> < 2 powi 1024 \<Longrightarrow> \<bar>x\<bar> < 2 powi (expo x + 1)"
  using expoFrom_upper[of x 2045] by (simp add: expo_def)

lemma expo_le: "\<bar>x\<bar> \<le> 2 powi k \<Longrightarrow> - 1022 \<le> k \<Longrightarrow> expo x \<le> k"
proof -
  assume a: "\<bar>x\<bar> \<le> 2 powi k" "- 1022 \<le> k"
  from expo_lower[of x] show ?thesis
  proof
    assume "expo x = - 1022" then show ?thesis using a by simp
  next
    assume "2 powi (expo x) \<le> \<bar>x\<bar>"
    then have "(2::real) powi (expo x) \<le> 2 powi k" using a by linarith
    then show ?thesis
      by (smt (verit) power_int_strict_increasing)
  qed
qed

lemma expo_eq:
  assumes "2 powi e \<le> \<bar>x\<bar>" "\<bar>x\<bar> < 2 powi (e + 1)" "- 1022 \<le> e" "e \<le> 1023"
  shows "expo x = e"
proof -
  have "(2::real) powi (e + 1) \<le> 2 powi 1024"
    using assms(4) by (intro power_int_increasing) auto
  then have "\<bar>x\<bar> < 2 powi 1024" using assms(2) by linarith
  from expo_upper[OF this] have "(2::real) powi e < 2 powi (expo x + 1)"
    using assms(1) by linarith
  then have 1: "e \<le> expo x"
    by (smt (verit) power_int_increasing)
  have 2: "expo x \<le> e"
  proof (rule ccontr)
    assume "\<not> expo x \<le> e"
    then have g: "e + 1 \<le> expo x" by simp
    then have "expo x \<noteq> - 1022" using assms(3) by simp
    with expo_lower[of x] have "2 powi (expo x) \<le> \<bar>x\<bar>" by simp
    moreover have "(2::real) powi (e + 1) \<le> 2 powi (expo x)"
      using g by (intro power_int_increasing) auto
    ultimately show False using assms(2) by linarith
  qed
  from 1 2 show ?thesis by simp
qed

lemma ulp_pos: "0 < ulp x"
  by (simp add: ulp_def zero_less_power_int)

text \<open>The rounding error is at most half a unit in the last place.\<close>

lemma fl_error: "\<bar>fl x - x\<bar> \<le> ulp x / 2"
proof -
  have "fl x - x = (of_int (rne (x / ulp x)) - x / ulp x) * ulp x"
    using ulp_pos[of x] by (simp add: fl_def algebra_simps)
  then have "\<bar>fl x - x\<bar> = \<bar>of_int (rne (x / ulp x)) - x / ulp x\<bar> * ulp x"
    using ulp_pos[of x] by (simp add: abs_mult)
  also have "\<dots> \<le> 1 / 2 * ulp x"
    using rne_error[of "x / ulp x"] ulp_pos[of x] by (intro mult_right_mono) auto
  finally show ?thesis by simp
qed

lemma fl_abs_error:
  assumes "\<bar>x\<bar> \<le> 2 powi k" "- 1022 \<le> k"
  shows "\<bar>fl x - x\<bar> \<le> 2 powi (k - 53)"
proof -
  have "expo x \<le> k" using assms by (rule expo_le)
  then have "ulp x \<le> 2 powi (k - 52)"
    unfolding ulp_def by (intro power_int_increasing) auto
  moreover have "(2::real) powi (k - 52) = 2 * 2 powi (k - 53)"
    using power_int_add_1'[of "2::real" "k - 53"] by (simp add: algebra_simps)
  ultimately show ?thesis using fl_error[of x] by linarith
qed

text \<open>The value of \<open>fl\<close> once the exponent is known.\<close>

lemma fl_eval:
  assumes "2 powi e \<le> \<bar>x\<bar>" "\<bar>x\<bar> < 2 powi (e + 1)" "- 1022 \<le> e" "e \<le> 1023"
  shows "fl x = of_int (rne (x / 2 powi (e - 52))) * 2 powi (e - 52)"
  by (simp add: fl_def ulp_def expo_eq[OF assms])

lemma fl_zero [simp]: "fl 0 = 0"
  by (simp add: fl_def rne_def)

lemma fl_minus: "fl (- x) = - fl x"
  by (simp add: fl_def ulp_def expo_def expoFrom_minus rne_minus)

text \<open>An integer below \<open>2 ^ 53\<close> in magnitude is a binary64 number.\<close>

lemma fl_of_int:
  assumes "\<bar>n\<bar> < 2 ^ 53"
  shows "fl (of_int n) = of_int n"
proof (cases "n = 0")
  case True
  then show ?thesis by simp
next
  case False
  let ?x = "of_int n :: real"
  let ?e = "expo ?x"
  have xu: "\<bar>?x\<bar> \<le> 2 powi 52 * 2 - 1"
  proof -
    have "\<bar>n\<bar> \<le> 2 ^ 53 - 1" using assms by simp
    then have "of_int \<bar>n\<bar> \<le> (of_int (2 ^ 53 - 1) :: real)" by (rule of_int_le_iff[THEN iffD2])
    then show ?thesis by simp
  qed
  have "?e \<le> 52"
  proof (rule ccontr)
    assume "\<not> ?e \<le> 52"
    then have g: "53 \<le> ?e" by simp
    then have "?e \<noteq> - 1022" by simp
    with expo_lower[of ?x] have "2 powi ?e \<le> \<bar>?x\<bar>" by simp
    moreover have "(2::real) powi 53 \<le> 2 powi ?e" using g by (intro power_int_increasing) auto
    ultimately show False using xu by simp
  qed
  then obtain k where k: "52 - ?e = int k" using nonneg_int_cases[of "52 - ?e"] by auto
  have u: "ulp ?x = 1 / 2 ^ k"
  proof -
    have ek: "?e - 52 = - int k" using k by linarith
    have "ulp ?x = 2 powi (- int k)" unfolding ulp_def ek ..
    then show ?thesis by (simp add: power_int_minus power_int_of_nat field_simps)
  qed
  have "?x / ulp ?x = of_int (n * 2 ^ k)" by (simp add: u)
  then have "rne (?x / ulp ?x) = n * 2 ^ k" by (simp only: rne_of_int)
  then show ?thesis by (simp add: fl_def u)
qed

lemma fl_numeral [simp]: "numeral k < (9007199254740992::int) \<Longrightarrow> fl (numeral k) = numeral k"
  using fl_of_int[of "numeral k"] by simp

lemma fl_one [simp]: "fl 1 = 1"
  using fl_of_int[of 1] by simp

lemma fl_neg_numeral [simp]:
  "numeral k < (9007199254740992::int) \<Longrightarrow> fl (- numeral k) = - numeral k"
  by (simp add: fl_minus)

section \<open>Searching a collection\<close>

lemma findIndex_Some:
  "findIndex P xs = Some i \<Longrightarrow> i < length xs \<and> P (xs ! i) \<and> (\<forall>j<i. \<not> P (xs ! j))"
proof (induction xs arbitrary: i)
  case Nil
  then show ?case by simp
next
  case (Cons x xs)
  show ?case
  proof (cases "P x")
    case True
    with Cons.prems show ?thesis by simp
  next
    case False
    with Cons.prems obtain k where k: "findIndex P xs = Some k" "i = Suc k" by auto
    from Cons.IH[OF k(1)] False k(2) show ?thesis
      by (auto simp: nth_Cons split: nat.splits)
  qed
qed

lemma findIndex_None: "findIndex P xs = None \<longleftrightarrow> (\<forall>x\<in>set xs. \<not> P x)"
  by (induction xs) auto

lemma findIndex_update:
  "i < length xs \<Longrightarrow> P y = P (xs ! i) \<Longrightarrow> findIndex P (xs[i := y]) = findIndex P xs"
proof (induction xs arbitrary: i)
  case Nil
  then show ?case by simp
next
  case (Cons x xs)
  then show ?case by (cases i) auto
qed

lemma findIndex_append:
  "findIndex P (xs @ [y]) =
     (case findIndex P xs of Some i \<Rightarrow> Some i
      | None \<Rightarrow> if P y then Some (length xs) else None)"
  by (induction xs) (auto split: option.splits)

lemma find_findIndex: "find P xs = map_option (nth xs) (findIndex P xs)"
  by (induction xs) (auto simp: option.map_comp comp_def)

lemma find_filter_keep: "(\<And>x. P x \<Longrightarrow> Q x) \<Longrightarrow> find P (filter Q xs) = find P xs"
  by (induction xs) auto

lemma find_update_first:
  "findIndex P xs = Some i \<Longrightarrow> P y \<Longrightarrow> find P (xs[i := y]) = Some y"
proof (induction xs arbitrary: i)
  case Nil
  then show ?case by simp
next
  case (Cons x xs)
  then show ?case by (cases i) (auto split: if_splits)
qed

lemma findIndex_find_Some:
  "find P xs = Some y \<Longrightarrow> \<exists>i. findIndex P xs = Some i \<and> xs ! i = y"
  by (auto simp: find_findIndex)

section \<open>Properties of the payout settler\<close>

lemmas exampleA_defs =
  envA_def customerA_def taskA_def resultA_def dbA_def metaA_def dbA_zero_fee_def
  dbA_paid_def taskA_paid_def resultA_paid_def

lemmas payout_defs =
  issueChunkPayout_def resolveTaskBudget_def findUserBySessionId_def ensureWorkerUser_def
  createUser_def adjustUserBalance_def recordPlatformEarning_def pushWalletTransaction_def
  payoutMeta_def orElse_def Let_def

lemma issueChunkPayout_noop:
  "r_payoutIssued r \<or> r_status r \<noteq> ''completed'' \<Longrightarrow>
     issueChunkPayout env nid nid' d (Some t) (Some r) w = (False, d, Some t, Some r)"
  by (auto simp: issueChunkPayout_def)

lemma issueChunkPayout_True:
  assumes "issueChunkPayout env nid nid' d (Some t) (Some r) w = (True, d', t', r')"
  shows "\<exists>t1 r1. t' = Some t1 \<and> r' = Some r1 \<and> r_payoutIssued r1 \<and> t_id t1 = t_id t
           \<and> r_chunkIndex r1 = r_chunkIndex r \<and> \<not> r_payoutIssued r \<and> r_status r = ''completed''"
  using assms
  by (auto simp: issueChunkPayout_def Let_def split: if_splits option.splits prod.splits)

lemma ensureWorkerUser_tx:
  "walletTransactions (fst (ensureWorkerUser nid nid' d w)) = walletTransactions d"
  "platformLedger (fst (ensureWorkerUser nid nid' d w)) = platformLedger d"
  "w \<noteq> [] \<Longrightarrow> snd (ensureWorkerUser nid nid' d w) \<noteq> None"
  by (simp_all add: ensureWorkerUser_def createUser_def Let_def split: option.splits)

lemma ensureWorkerUser_pair:
  assumes "ensureWorkerUser nid nid' d w = (d1, wk)"
  shows "walletTransactions d1 = walletTransactions d \<and> platformLedger d1 = platformLedger d
         \<and> (w \<noteq> [] \<longrightarrow> wk \<noteq> None)"
  using ensureWorkerUser_tx(1)[where nid=nid and nid'=nid' and d=d and w=w]
        ensureWorkerUser_tx(2)[where nid=nid and nid'=nid' and d=d and w=w]
        ensureWorkerUser_tx(3)[where nid=nid and nid'=nid' and d=d and w=w] assms
  by auto

lemma adjustUserBalance_tx:
  "walletTransactions (fst (adjustUserBalance d (Some i) delta ty m)) =
     walletTransactions d @
       [\<lparr> tx_userId = u_id (users d ! i), tx_sessionId = u_sessionId (users d ! i),
          tx_type = ty, tx_amount = delta,
          tx_balanceAfter = fl (u_walletBalance (users d ! i) + delta), tx_meta = m \<rparr>]"
  by (simp add: adjustUserBalance_def Let_def pushWalletTransaction_def)

lemma adjustUserBalance_ledger:
  "platformLedger (fst (adjustUserBalance d u delta ty m)) = platformLedger d"
  by (simp add: adjustUserBalance_def Let_def pushWalletTransaction_def split: option.splits)

text \<open>What a payout that is applied appends to the transaction collection.\<close>

lemma issueChunkPayout_appended:
  assumes "issueChunkPayout env nid nid' d (Some t) (Some r) w = (True, d', t', r')"
  shows "map (\<lambda>tx. (tx_type tx, tx_amount tx, tx_meta tx))
             (drop (length (walletTransactions d)) (walletTransactions d')) =
           [(ChunkDebit, - costPerChunk (resolveTaskBudget t), payoutMeta t r)]
           @ (if w \<noteq> [] then [(ChunkCredit, workerShareOf env t, payoutMeta t r)] else [])
           @ (if platformShareOf env t \<noteq> 0
              then [(PlatformFee, platformShareOf env t, payoutMeta t r)] else [])"
    and "take (length (walletTransactions d)) (walletTransactions d') = walletTransactions d"
    and "platformLedger d' = (if platformShareOf env t \<noteq> 0
                              then fl (platformLedger d + platformShareOf env t)
                              else platformLedger d)"
  using assms
  by (auto simp: issueChunkPayout_def Let_def adjustUserBalance_tx adjustUserBalance_ledger
        recordPlatformEarning_def pushWalletTransaction_def
      split: if_splits option.splits prod.splits dest!: ensureWorkerUser_pair)

lemma filter_txFor_split:
  assumes "take n xs = ys" "filter P ys = []"
  shows "filter P xs = filter P (drop n xs)"
proof -
  have "filter P xs = filter P (take n xs @ drop n xs)" by simp
  also have "\<dots> = filter P (drop n xs)" using assms by simp
  finally show ?thesis .
qed

subsection \<open>Rounding of \<open>toFixed\<close> and of the shares\<close>

lemma rne_nonneg: "0 \<le> x \<Longrightarrow> 0 \<le> rne x"
  unfolding rne_def Let_def by (auto; linarith)

lemma fl_nonneg: "0 \<le> x \<Longrightarrow> 0 \<le> fl x"
  using rne_nonneg[of "x / ulp x"] ulp_pos[of x] by (simp add: fl_def)

text \<open>
  Below \<open>10 ^ 21\<close>, \<^verbatim>\<open>toFixed(f)\<close> prints an integer number of units of the last decimal,
  nearest to the argument; for an argument that is not negative a tie goes up.
\<close>

lemma toFixed_nonneg:
  assumes "0 \<le> x" "x < 10 ^ 21"
  shows "toFixed f x = of_int \<lfloor>x * 10 ^ f + 1 / 2\<rfloor> / 10 ^ f"
    and "of_int \<lfloor>x * 10 ^ f + 1 / 2\<rfloor> - 1 / 2 \<le> x * 10 ^ f"
    and "x * 10 ^ f < of_int \<lfloor>x * 10 ^ f + 1 / 2\<rfloor> + 1 / 2"
    and "0 \<le> \<lfloor>x * 10 ^ f + 1 / 2\<rfloor>"
proof -
  show "toFixed f x = of_int \<lfloor>x * 10 ^ f + 1 / 2\<rfloor> / 10 ^ f"
    using assms by (simp add: toFixed_def toFixedPos_def)
  show "of_int \<lfloor>x * 10 ^ f + 1 / 2\<rfloor> - 1 / 2 \<le> x * 10 ^ f" by linarith
  show "x * 10 ^ f < of_int \<lfloor>x * 10 ^ f + 1 / 2\<rfloor> + 1 / 2" by linarith
  have "0 \<le> x * 10 ^ f" using assms(1) by simp
  then show "0 \<le> \<lfloor>x * 10 ^ f + 1 / 2\<rfloor>" by simp
qed

lemma toFixed_nearest:
  assumes "\<bar>x\<bar> < 10 ^ 21"
  shows "\<exists>k. toFixed f x = of_int k / 10 ^ f \<and> \<bar>of_int k - x * 10 ^ f\<bar> \<le> 1 / 2"
proof (cases "x < 0")
  case False
  then have "0 \<le> x" "x < 10 ^ 21" using assms by auto
  note t = toFixed_nonneg(1-3)[OF this, of f]
  have "\<bar>of_int \<lfloor>x * 10 ^ f + 1 / 2\<rfloor> - x * 10 ^ f\<bar> \<le> 1 / 2"
    using t(2,3) by linarith
  with t(1) show ?thesis by blast
next
  case True
  then have p: "0 \<le> - x" "- x < 10 ^ 21" using assms by auto
  note t = toFixed_nonneg(1-3)[OF p, of f]
  have "toFixed f x = - toFixed f (- x)" using True by (simp add: toFixed_def)
  also have "\<dots> = of_int (- \<lfloor>- x * 10 ^ f + 1 / 2\<rfloor>) / 10 ^ f"
    using t(1) by simp
  finally have 1: "toFixed f x = of_int (- \<lfloor>- x * 10 ^ f + 1 / 2\<rfloor>) / 10 ^ f" .
  have "(of_int (- \<lfloor>- x * 10 ^ f + 1 / 2\<rfloor>) :: real) = - of_int \<lfloor>- x * 10 ^ f + 1 / 2\<rfloor>"
    by simp
  then have 2: "\<bar>of_int (- \<lfloor>- x * 10 ^ f + 1 / 2\<rfloor>) - x * 10 ^ f\<bar> \<le> 1 / 2"
    using t(2,3) by linarith
  from 1 2 show ?thesis by blast
qed

text \<open>
  The two shares for a cost \<open>c\<close> and a fee percentage \<open>p\<close>, as the source computes them:
  the quotient \<open>q\<close> and the difference \<open>s\<close> are binary64 results, each is rounded to six
  decimals, and each decimal is read back as a binary64 number.
\<close>

lemma pow2_values:
  "(2::real) powi 21 = 2097152" "(2::real) powi 22 = 4194304" "(2::real) powi 23 = 8388608"
  "(2::real) powi 24 = 16777216" "(2::real) powi 27 = 134217728"
  "(2::real) powi (- 26) = 1 / 67108864" "(2::real) powi (- 29) = 1 / 536870912"
  "(2::real) powi (- 30) = 1 / 1073741824" "(2::real) powi (- 31) = 1 / 2147483648"
  "(2::real) powi (- 32) = 1 / 4294967296"
  by (simp_all add: power_int_minus)

lemma shares_analysis:
  fixes c p :: real
  assumes c: "0 \<le> c" "c \<le> 1048576" and p: "0 \<le> p" "p \<le> 100"
  defines "q \<equiv> fl (fl (c * p) / 100)"
  defines "P \<equiv> Number_toFixed 6 q"
  defines "s \<equiv> fl (c - P)"
  defines "W \<equiv> Number_toFixed 6 s"
  shows "0 \<le> q" and "\<bar>q - c * p / 100\<bar> \<le> 2 powi (- 31)"
    and "P = fl (of_int \<lfloor>q * 10 ^ 6 + 1 / 2\<rfloor> / 10 ^ 6)"
    and "\<bar>s - (c - P)\<bar> \<le> 2 powi (- 30)"
    and "\<exists>m. W = fl (of_int m / 10 ^ 6) \<and> \<bar>of_int m - s * 10 ^ 6\<bar> \<le> 1 / 2"
    and "\<bar>- c + W + P\<bar> \<le> 1 / 10 ^ 6"
proof -
  define a where "a = fl (c * p)"
  have cp0: "0 \<le> c * p" using c p by simp
  have "c * p \<le> 1048576 * 100" using c p by (intro mult_mono) auto
  then have cp: "c * p \<le> 134217728" by simp
  have "\<bar>c * p\<bar> \<le> 2 powi 27" using cp cp0 by (simp add: pow2_values)
  from fl_abs_error[OF this]
  have a_err: "\<bar>a - c * p\<bar> \<le> 1 / 67108864" by (simp add: a_def pow2_values)
  have a0: "0 \<le> a" unfolding a_def using cp0 by (rule fl_nonneg)
  have a_le: "a \<le> 134217729" using a_err cp by linarith
  have d0: "0 \<le> a / 100" using a0 by simp
  have "a / 100 \<le> 2097152" using a_le by linarith
  then have "\<bar>a / 100\<bar> \<le> 2 powi 21" using d0 by (simp add: pow2_values)
  from fl_abs_error[OF this]
  have q_err: "\<bar>q - a / 100\<bar> \<le> 1 / 4294967296" by (simp add: q_def a_def pow2_values)
  show q0: "0 \<le> q" unfolding q_def a_def[symmetric] using d0 by (rule fl_nonneg)
  have "\<bar>q - c * p / 100\<bar> \<le> 1 / 2147483648" using q_err a_err by linarith
  then show q_cp: "\<bar>q - c * p / 100\<bar> \<le> 2 powi (- 31)" by (simp add: pow2_values)
  have q_le: "q \<le> 2097153" using q_err a_le by linarith
  then have q21: "q < 10 ^ 21" by simp
  define n where "n = \<lfloor>q * 10 ^ 6 + 1 / 2\<rfloor>"
  define Pd where "Pd = (of_int n / 10 ^ 6 :: real)"
  note t = toFixed_nonneg[OF q0 q21, of 6, folded n_def]
  have tq: "toFixed 6 q = Pd" using t(1) by (simp add: Pd_def)
  have Pn: "P = fl Pd" by (simp add: P_def Number_toFixed_def tq)
  show "P = fl (of_int \<lfloor>q * 10 ^ 6 + 1 / 2\<rfloor> / 10 ^ 6)"
    using Pn by (simp add: Pd_def n_def)
  have n0: "0 \<le> Pd" using t(4) by (simp add: Pd_def)
  have "Pd * 10 ^ 6 = of_int n" by (simp add: Pd_def)
  then have "Pd * 1000000 \<le> q * 1000000 + 1" using t(2) by simp
  then have n_le: "Pd \<le> 2097154" using q_le by linarith
  have P0: "0 \<le> P" unfolding Pn using n0 by (rule fl_nonneg)
  have "\<bar>Pd\<bar> \<le> 2 powi 22" using n0 n_le by (simp add: pow2_values)
  from fl_abs_error[OF this]
  have P_err: "\<bar>P - Pd\<bar> \<le> 1 / 2147483648" by (simp add: Pn pow2_values)
  have P_le: "P \<le> 2097155" using P_err n_le by linarith
  have "\<bar>c - P\<bar> \<le> 2 powi 23" using c P0 P_le by (simp add: pow2_values)
  from fl_abs_error[OF this]
  have s_err: "\<bar>s - (c - P)\<bar> \<le> 1 / 1073741824" by (simp add: s_def pow2_values)
  then show "\<bar>s - (c - P)\<bar> \<le> 2 powi (- 30)" by (simp add: pow2_values)
  have s_abs: "\<bar>s\<bar> \<le> 3145732" using s_err c P0 P_le by linarith
  then have "\<bar>s\<bar> < 10 ^ 21" by simp
  from toFixed_nearest[OF this, of 6] obtain m where
    m: "toFixed 6 s = of_int m / 10 ^ 6" "\<bar>of_int m - s * 10 ^ 6\<bar> \<le> 1 / 2" by blast
  define Wd where "Wd = (of_int m / 10 ^ 6 :: real)"
  have Wm: "W = fl Wd" by (simp add: W_def Number_toFixed_def m(1) Wd_def)
  show "\<exists>m. W = fl (of_int m / 10 ^ 6) \<and> \<bar>of_int m - s * 10 ^ 6\<bar> \<le> 1 / 2"
    using Wm m(2) unfolding Wd_def by blast
  have "Wd * 1000000 = of_int m" by (simp add: Wd_def)
  then have "\<bar>Wd * 1000000 - s * 1000000\<bar> \<le> 1 / 2" using m(2) by simp
  then have ms: "\<bar>Wd - s\<bar> \<le> 1 / 2000000" by linarith
  have "\<bar>Wd\<bar> \<le> 16777216" using ms s_abs by linarith
  then have "\<bar>Wd\<bar> \<le> 2 powi 24" by (simp add: pow2_values)
  from fl_abs_error[OF this]
  have W_err: "\<bar>W - Wd\<bar> \<le> 1 / 536870912" by (simp add: Wm pow2_values)
  have "\<bar>- c + W + P\<bar> \<le> 1 / 1000000" using W_err ms s_err by linarith
  then show "\<bar>- c + W + P\<bar> \<le> 1 / 10 ^ 6" by simp
qed

subsection \<open>The shares of the examples\<close>

lemma fl_values:
  "fl (1 / 5) = double_0_2"
  "fl (9 / 5) = double_1_8"
  "fl (32425917317067571 / 18014398509481984) = double_1_8"
  "fl (25 / 32) = 25 / 32"
  "fl (1 / 128) = 1 / 128"
  "fl (7813 / 1000000) = 562985982218331 / 72057594037927936"
  "fl (55732009359912869 / 72057594037927936) = 6966501169989109 / 9007199254740992"
  "fl (773437 / 1000000) = 6966501169989109 / 9007199254740992"
  "fl (3 / 32) = 3 / 32"
  "fl (3 / 3200) = 1080863910568919 / 1152921504606846976"
  "fl (937 / 1000000) = 8642299598532925 / 9223372036854775808"
  "fl (856048828856602307 / 9223372036854775808) = 3343940737721103 / 36028797018963968"
  "fl (92813 / 1000000) = 3343940737721103 / 36028797018963968"
  "fl (1953 / 250000) = 9006622793988689 / 1152921504606846976"
  "fl (469 / 500000) = 2162880742642445 / 2305843009213693952"
proof -
  show "fl (1 / 5) = double_0_2"
    by (subst fl_eval[of "- 3"]) (simp_all add: rne_def power_int_minus Let_def double_0_2_def)
  show "fl (9 / 5) = double_1_8"
    by (subst fl_eval[of 0]) (simp_all add: rne_def power_int_minus Let_def double_1_8_def)
  show "fl (32425917317067571 / 18014398509481984) = double_1_8"
    by (subst fl_eval[of 0]) (simp_all add: rne_def power_int_minus Let_def double_1_8_def)
  show "fl (25 / 32) = 25 / 32"
    by (subst fl_eval[of "- 1"]) (simp_all add: rne_def power_int_minus Let_def)
  show "fl (1 / 128) = 1 / 128"
    by (subst fl_eval[of "- 7"]) (simp_all add: rne_def power_int_minus Let_def)
  show "fl (7813 / 1000000) = 562985982218331 / 72057594037927936"
    by (subst fl_eval[of "- 7"]) (simp_all add: rne_def power_int_minus Let_def)
  show "fl (55732009359912869 / 72057594037927936) = 6966501169989109 / 9007199254740992"
    by (subst fl_eval[of "- 1"]) (simp_all add: rne_def power_int_minus Let_def)
  show "fl (773437 / 1000000) = 6966501169989109 / 9007199254740992"
    by (subst fl_eval[of "- 1"]) (simp_all add: rne_def power_int_minus Let_def)
  show "fl (3 / 32) = 3 / 32"
    by (subst fl_eval[of "- 4"]) (simp_all add: rne_def power_int_minus Let_def)
  show "fl (3 / 3200) = 1080863910568919 / 1152921504606846976"
    by (subst fl_eval[of "- 11"]) (simp_all add: rne_def power_int_minus Let_def)
  show "fl (937 / 1000000) = 8642299598532925 / 9223372036854775808"
    by (subst fl_eval[of "- 11"]) (simp_all add: rne_def power_int_minus Let_def)
  show "fl (856048828856602307 / 9223372036854775808) = 3343940737721103 / 36028797018963968"
    by (subst fl_eval[of "- 4"]) (simp_all add: rne_def power_int_minus Let_def)
  show "fl (92813 / 1000000) = 3343940737721103 / 36028797018963968"
    by (subst fl_eval[of "- 4"]) (simp_all add: rne_def power_int_minus Let_def)
  show "fl (1953 / 250000) = 9006622793988689 / 1152921504606846976"
    by (subst fl_eval[of "- 8"]) (simp_all add: rne_def power_int_minus Let_def)
  show "fl (469 / 500000) = 2162880742642445 / 2305843009213693952"
    by (subst fl_eval[of "- 11"]) (simp_all add: rne_def power_int_minus Let_def)
qed

lemma fl_doubles [simp]: "fl double_0_2 = double_0_2" "fl double_1_8 = double_1_8"
proof -
  show "fl double_0_2 = double_0_2"
    unfolding double_0_2_def
    by (subst fl_eval[of "- 3"]) (simp_all add: rne_def power_int_minus Let_def)
  show "fl double_1_8 = double_1_8"
    unfolding double_1_8_def
    by (subst fl_eval[of 0]) (simp_all add: rne_def power_int_minus Let_def)
qed

lemma doubles_nonzero [simp]: "double_0_2 \<noteq> 0" "double_1_8 \<noteq> 0"
  by (simp_all add: double_0_2_def double_1_8_def)

lemma taskA_budget:
  "0 < c \<Longrightarrow> costPerChunk (resolveTaskBudget (taskA c f)) = c"
  "feePercentOf env (taskA c f) = f"
  "chunksPaid (resolveTaskBudget (taskA c f)) = 0"
  "maxBillableChunks (resolveTaskBudget (taskA c f)) = 5"
  by (simp_all add: resolveTaskBudget_def feePercentOf_def taskA_def)

lemma sharesA:
  "platformShareOf envA (taskA 2 10) = double_0_2"
  "workerShareOf envA (taskA 2 10) = double_1_8"
  "platformShareOf envA (taskA 2 0) = 0"
  "workerShareOf envA (taskA 2 0) = 2"
proof -
  have t: "toFixed 6 double_0_2 = 1 / 5" "toFixed 6 double_1_8 = 9 / 5"
    by (simp_all add: toFixed_def toFixedPos_def double_0_2_def double_1_8_def)
  show p: "platformShareOf envA (taskA 2 10) = double_0_2"
    by (simp add: platformShareOf_def taskA_budget Number_toFixed_def fl_values t)
  have d: "fl (2 - double_0_2) = double_1_8"
    unfolding double_0_2_def by (simp add: fl_values)
  show "workerShareOf envA (taskA 2 10) = double_1_8"
    by (simp add: workerShareOf_def p taskA_budget Number_toFixed_def d fl_values t)
  show z: "platformShareOf envA (taskA 2 0) = 0"
    by (simp add: platformShareOf_def taskA_budget Number_toFixed_def toFixed_def toFixedPos_def)
  show "workerShareOf envA (taskA 2 0) = 2"
    by (simp add: workerShareOf_def z taskA_budget Number_toFixed_def toFixed_def toFixedPos_def)
qed

lemma sharesB:
  "platformShareOf envA (taskA (25 / 32) 1) = fl (7813 / 1000000)"
  "workerShareOf envA (taskA (25 / 32) 1) = fl (773437 / 1000000)"
  "platformShareOf envA (taskA (3 / 32) 1) = fl (937 / 1000000)"
  "workerShareOf envA (taskA (3 / 32) 1) = fl (92813 / 1000000)"
proof -
  have q1: "fl (fl (25 / 32) / 100) = 1 / 128" by (simp add: fl_values)
  have t1: "toFixed 6 (1 / 128) = 7813 / 1000000" by (simp add: toFixed_def toFixedPos_def)
  show p1: "platformShareOf envA (taskA (25 / 32) 1) = fl (7813 / 1000000)"
    by (simp add: platformShareOf_def taskA_budget Number_toFixed_def q1 t1)
  have s1: "fl (25 / 32 - fl (7813 / 1000000)) = 6966501169989109 / 9007199254740992"
    by (simp add: fl_values)
  have w1: "toFixed 6 (6966501169989109 / 9007199254740992) = 773437 / 1000000"
    by (simp add: toFixed_def toFixedPos_def)
  show "workerShareOf envA (taskA (25 / 32) 1) = fl (773437 / 1000000)"
    by (simp add: workerShareOf_def p1 taskA_budget Number_toFixed_def s1 w1)
  have q2: "fl (fl (3 / 32) / 100) = 1080863910568919 / 1152921504606846976"
    by (simp add: fl_values)
  have t2: "toFixed 6 (1080863910568919 / 1152921504606846976) = 937 / 1000000"
    by (simp add: toFixed_def toFixedPos_def)
  show p2: "platformShareOf envA (taskA (3 / 32) 1) = fl (937 / 1000000)"
    by (simp add: platformShareOf_def taskA_budget Number_toFixed_def q2 t2)
  have s2: "fl (3 / 32 - fl (937 / 1000000)) = 3343940737721103 / 36028797018963968"
    by (simp add: fl_values)
  have w2: "toFixed 6 (3343940737721103 / 36028797018963968) = 92813 / 1000000"
    by (simp add: toFixed_def toFixedPos_def)
  show "workerShareOf envA (taskA (3 / 32) 1) = fl (92813 / 1000000)"
    by (simp add: workerShareOf_def p2 taskA_budget Number_toFixed_def s2 w2)
qed

lemma taskA_sel:
  "t_id (taskA c f) = ''t1''" "t_creatorId (taskA c f) = ''cust''"
  "t_chunksPaid (taskA c f) = Num 0" "t_budgetSpent (taskA c f) = Num 0"
  by (simp_all add: taskA_def)

lemmas payoutA_defs =
  issueChunkPayout_def taskA_sel taskA_budget findUserBySessionId_def ensureWorkerUser_def
  createUser_def adjustUserBalance_def recordPlatformEarning_def pushWalletTransaction_def
  payoutMeta_def Let_def envA_def customerA_def resultA_def dbA_def metaA_def
  resultA_paid_def

lemma payA:
  "issueChunkPayout envA ''n1'' ''n2'' dbA (Some (taskA 2 10)) (Some resultA) ''w1''
     = (True, dbA_paid, Some taskA_paid, Some resultA_paid)"
  by (simp add: payoutA_defs sharesA[unfolded envA_def] dbA_paid_def taskA_paid_def)

lemma payA_zero_fee:
  "issueChunkPayout envA ''n1'' ''n2'' dbA (Some (taskA 2 0)) (Some resultA) ''w1''
     = (True, dbA_zero_fee, Some ((taskA 2 0)\<lparr>t_chunksPaid := Num 1, t_budgetSpent := Num 2\<rparr>),
        Some resultA_paid)"
  by (simp add: payoutA_defs sharesA[unfolded envA_def] dbA_zero_fee_def)

subsection \<open>C1: the transactions of a paid bucket\<close>

text \<open>
  Claim C1 as stated fails, in two ways.  With a platform fee of 0 percent the platform
  share is 0, the guard \<^verbatim>\<open>if (platformShare !== 0)\<close> skips the platform-fee
  transaction, and the paid bucket has two transactions, not three.  With cost 2 and a
  fee of 10 percent the bucket has its three transactions, of amounts \<open>- 2\<close> and the
  binary64 numbers nearest to 1.8 and to 0.2, and these add up to \<open>1 / 2 ^ 54\<close>, not to
  zero.
\<close>

theorem payout_ledger_invariant_counterexample:
  "issueChunkPayout envA ''n1'' ''n2'' dbA (Some (taskA 2 0)) (Some resultA) ''w1''
     = (True, dbA_zero_fee, Some ((taskA 2 0)\<lparr>t_chunksPaid := Num 1, t_budgetSpent := Num 2\<rparr>),
        Some resultA_paid)
   \<and> r_payoutIssued resultA_paid
   \<and> map tx_type (filter (txFor ''t1'' (Some 0)) (walletTransactions dbA_zero_fee))
       = [ChunkDebit, ChunkCredit]
   \<and> \<not> payoutTransactionsBalanced dbA_zero_fee
          ((taskA 2 0)\<lparr>t_chunksPaid := Num 1, t_budgetSpent := Num 2\<rparr>) resultA_paid
   \<and> issueChunkPayout envA ''n1'' ''n2'' dbA (Some (taskA 2 10)) (Some resultA) ''w1''
       = (True, dbA_paid, Some taskA_paid, Some resultA_paid)
   \<and> map (\<lambda>tx. (tx_type tx, tx_amount tx))
         (filter (txFor ''t1'' (Some 0)) (walletTransactions dbA_paid))
       = [(ChunkDebit, - 2), (ChunkCredit, double_1_8), (PlatformFee, double_0_2)]
   \<and> sum_list (map tx_amount (filter (txFor ''t1'' (Some 0)) (walletTransactions dbA_paid)))
       = 1 / 2 ^ 54
   \<and> \<not> payoutTransactionsBalanced dbA_paid taskA_paid resultA_paid"
proof -
  have z: "map tx_type (filter (txFor ''t1'' (Some 0)) (walletTransactions dbA_zero_fee))
       = [ChunkDebit, ChunkCredit]"
    by (simp add: dbA_zero_fee_def dbA_def metaA_def txFor_def)
  have nz: "\<not> payoutTransactionsBalanced dbA_zero_fee
          ((taskA 2 0)\<lparr>t_chunksPaid := Num 1, t_budgetSpent := Num 2\<rparr>) resultA_paid"
    by (simp add: payoutTransactionsBalanced_def dbA_zero_fee_def dbA_def metaA_def txFor_def
          taskA_sel resultA_paid_def resultA_def Let_def)
  have f: "filter (txFor ''t1'' (Some 0)) (walletTransactions dbA_paid) = walletTransactions dbA_paid"
    by (simp add: dbA_paid_def dbA_def metaA_def txFor_def)
  have m: "map (\<lambda>tx. (tx_type tx, tx_amount tx))
         (filter (txFor ''t1'' (Some 0)) (walletTransactions dbA_paid))
       = [(ChunkDebit, - 2), (ChunkCredit, double_1_8), (PlatformFee, double_0_2)]"
    unfolding f by (simp add: dbA_paid_def dbA_def)
  have s: "sum_list (map tx_amount (filter (txFor ''t1'' (Some 0)) (walletTransactions dbA_paid)))
       = 1 / 2 ^ 54"
    unfolding f by (simp add: dbA_paid_def dbA_def double_0_2_def double_1_8_def)
  have np: "\<not> payoutTransactionsBalanced dbA_paid taskA_paid resultA_paid"
    using s by (simp add: payoutTransactionsBalanced_def taskA_paid_def taskA_sel resultA_paid_def
                  resultA_def Let_def)
  have i: "r_payoutIssued resultA_paid" by (simp add: resultA_paid_def)
  show ?thesis
    apply (intro conjI)
    apply (rule payA_zero_fee i z nz payA m s np)+
    done
qed

text \<open>
  Claim C1, amended.  When \<^verbatim>\<open>issueChunkPayout\<close> pays a bucket and no transaction
  carried the task's id and the bucket's index before, the result has \<open>payoutIssued\<close>
  and the transactions carrying that id and index are, in this order: a chunk-debit of
  minus the cost; a chunk-credit of the worker share, only when the worker id is not
  empty; a platform-fee of the platform share, only when that share is not zero.  The
  amounts are binary64 numbers and need not add up to zero: when all three are written,
  the cost lies between 0 and \<open>2 ^ 20\<close> and the fee percentage between 0 and 100, their
  sum is at most \<open>1 / 10 ^ 6\<close> in magnitude.
\<close>

theorem issueChunkPayout_three_transactions:
  assumes paid: "issueChunkPayout env nid nid' d (Some t) (Some r) w = (True, d', Some t', Some r')"
    and fresh: "filter (txFor (t_id t) (r_chunkIndex r)) (walletTransactions d) = []"
  shows "r_payoutIssued r'
    \<and> map (\<lambda>tx. (tx_type tx, tx_amount tx))
          (filter (txFor (t_id t') (r_chunkIndex r')) (walletTransactions d'))
        = [(ChunkDebit, - costPerChunk (resolveTaskBudget t))]
          @ (if w \<noteq> [] then [(ChunkCredit, workerShareOf env t)] else [])
          @ (if platformShareOf env t \<noteq> 0 then [(PlatformFee, platformShareOf env t)] else [])
    \<and> (w \<noteq> [] \<and> platformShareOf env t \<noteq> 0
         \<and> 0 \<le> costPerChunk (resolveTaskBudget t) \<and> costPerChunk (resolveTaskBudget t) \<le> 2 ^ 20
         \<and> 0 \<le> feePercentOf env t \<and> feePercentOf env t \<le> 100
        \<longrightarrow> map tx_type (filter (txFor (t_id t') (r_chunkIndex r')) (walletTransactions d'))
              = [ChunkDebit, ChunkCredit, PlatformFee]
            \<and> \<bar>sum_list (map tx_amount
                  (filter (txFor (t_id t') (r_chunkIndex r')) (walletTransactions d')))\<bar>
                \<le> 1 / 10 ^ 6)"
proof -
  let ?c = "costPerChunk (resolveTaskBudget t)"
  let ?W = "workerShareOf env t"
  let ?P = "platformShareOf env t"
  let ?new = "drop (length (walletTransactions d)) (walletTransactions d')"
  let ?all = "filter (txFor (t_id t') (r_chunkIndex r')) (walletTransactions d')"
  from issueChunkPayout_True[OF paid]
  have ids: "r_payoutIssued r'" "t_id t' = t_id t" "r_chunkIndex r' = r_chunkIndex r" by auto
  note new = issueChunkPayout_appended(1)[OF paid]
  have metas: "\<forall>tx \<in> set ?new. tx_meta tx = payoutMeta t r"
  proof
    fix tx assume "tx \<in> set ?new"
    then have "(tx_type tx, tx_amount tx, tx_meta tx)
                 \<in> set (map (\<lambda>tx. (tx_type tx, tx_amount tx, tx_meta tx)) ?new)"
      by simp
    then show "tx_meta tx = payoutMeta t r"
      unfolding new by (auto split: if_splits)
  qed
  have "filter (txFor (t_id t) (r_chunkIndex r)) ?new = ?new"
    using metas by (intro filter_True) (simp add: txFor_def payoutMeta_def)
  then have all: "?all = ?new"
    using filter_txFor_split[OF issueChunkPayout_appended(2)[OF paid] fresh] ids by simp
  have "map (\<lambda>tx. (tx_type tx, tx_amount tx)) ?new =
        map (\<lambda>(a, b, c). (a, b)) (map (\<lambda>tx. (tx_type tx, tx_amount tx, tx_meta tx)) ?new)"
    by (simp add: comp_def)
  then have txs: "map (\<lambda>tx. (tx_type tx, tx_amount tx)) ?all =
           [(ChunkDebit, - ?c)]
           @ (if w \<noteq> [] then [(ChunkCredit, ?W)] else [])
           @ (if ?P \<noteq> 0 then [(PlatformFee, ?P)] else [])"
    unfolding all new by simp
  have three: "map tx_type ?all = [ChunkDebit, ChunkCredit, PlatformFee]
            \<and> \<bar>sum_list (map tx_amount ?all)\<bar> \<le> 1 / 10 ^ 6"
    if h: "w \<noteq> []" "?P \<noteq> 0" "0 \<le> ?c" "?c \<le> 2 ^ 20"
          "0 \<le> feePercentOf env t" "feePercentOf env t \<le> 100"
  proof -
    have l: "map (\<lambda>tx. (tx_type tx, tx_amount tx)) ?all
               = [(ChunkDebit, - ?c), (ChunkCredit, ?W), (PlatformFee, ?P)]"
      using txs h(1,2) by simp
    have ty: "map tx_type ?all = map fst (map (\<lambda>tx. (tx_type tx, tx_amount tx)) ?all)"
      by (simp add: comp_def)
    have am: "map tx_amount ?all = map snd (map (\<lambda>tx. (tx_type tx, tx_amount tx)) ?all)"
      by (simp add: comp_def)
    have c20: "?c \<le> 1048576" using h(4) by simp
    have b: "\<bar>- ?c + ?W + ?P\<bar> \<le> 1 / 10 ^ 6"
      using shares_analysis(6)[OF h(3) c20 h(5,6)]
      by (simp add: workerShareOf_def platformShareOf_def)
    have "sum_list (map tx_amount ?all) = - ?c + ?W + ?P"
      unfolding am l by simp
    then show ?thesis using b unfolding ty l by simp
  qed
  show ?thesis using ids(1) txs three by blast
qed

text \<open>
  Witness for C1: cost 2, fee 10 percent, worker \<open>w1\<close>, an empty ledger.
\<close>

theorem issueChunkPayout_three_transactions_witness:
  "issueChunkPayout envA ''n1'' ''n2'' dbA (Some (taskA 2 10)) (Some resultA) ''w1''
       = (True, dbA_paid, Some taskA_paid, Some resultA_paid)
   \<and> filter (txFor (t_id (taskA 2 10)) (r_chunkIndex resultA)) (walletTransactions dbA) = []
   \<and> ''w1'' \<noteq> [] \<and> platformShareOf envA (taskA 2 10) \<noteq> 0
   \<and> 0 \<le> costPerChunk (resolveTaskBudget (taskA 2 10))
   \<and> costPerChunk (resolveTaskBudget (taskA 2 10)) \<le> 2 ^ 20
   \<and> 0 \<le> feePercentOf envA (taskA 2 10) \<and> feePercentOf envA (taskA 2 10) \<le> 100
   \<and> r_payoutIssued resultA_paid
   \<and> map (\<lambda>tx. (tx_type tx, tx_amount tx))
          (filter (txFor (t_id taskA_paid) (r_chunkIndex resultA_paid)) (walletTransactions dbA_paid))
        = [(ChunkDebit, - 2), (ChunkCredit, double_1_8), (PlatformFee, double_0_2)]
   \<and> \<bar>sum_list (map tx_amount
          (filter (txFor (t_id taskA_paid) (r_chunkIndex resultA_paid))
             (walletTransactions dbA_paid)))\<bar> \<le> 1 / 10 ^ 6"
proof -
  have w: "''w1'' \<noteq> []" by simp
  have f: "platformShareOf envA (taskA 2 10) \<noteq> 0"
    by (simp add: sharesA)
  have n: "filter (txFor (t_id (taskA 2 10)) (r_chunkIndex resultA)) (walletTransactions dbA) = []"
    by (simp add: dbA_def)
  have c: "0 \<le> costPerChunk (resolveTaskBudget (taskA 2 10))"
    "costPerChunk (resolveTaskBudget (taskA 2 10)) \<le> 2 ^ 20"
    "0 \<le> feePercentOf envA (taskA 2 10)" "feePercentOf envA (taskA 2 10) \<le> 100"
    by (simp_all add: taskA_budget)
  note res = issueChunkPayout_three_transactions[OF payA n]
  have i: "r_payoutIssued resultA_paid" using res by blast
  have m: "map (\<lambda>tx. (tx_type tx, tx_amount tx))
          (filter (txFor (t_id taskA_paid) (r_chunkIndex resultA_paid)) (walletTransactions dbA_paid))
        = [(ChunkDebit, - 2), (ChunkCredit, double_1_8), (PlatformFee, double_0_2)]"
    using res[THEN conjunct2, THEN conjunct1] f by (simp add: sharesA taskA_budget)
  have s: "\<bar>sum_list (map tx_amount
          (filter (txFor (t_id taskA_paid) (r_chunkIndex resultA_paid))
             (walletTransactions dbA_paid)))\<bar> \<le> 1 / 10 ^ 6"
    using res[THEN conjunct2, THEN conjunct2] w f c by blast
  show ?thesis
    apply (intro conjI)
    apply (rule payA n w f c i m s)+
    done
qed

subsection \<open>C3: how the shares are rounded\<close>

text \<open>
  Claim C3 as stated fails.  With cost \<open>25/32 = 0.78125\<close> and a fee of 1 percent the
  quotient is \<open>1/128 = 0.0078125\<close>, a tie at the sixth decimal; \<^verbatim>\<open>toFixed(6)\<close> takes
  the larger neighbour \<open>0.007813\<close>, round-half-even would take \<open>0.007812\<close>, and the two
  are different binary64 numbers.  With cost \<open>3/32 = 0.09375\<close> and a fee of 1 percent
  the exact share \<open>0.0009375\<close> is a tie again, which half-even rounds to \<open>0.000938\<close>;
  the binary64 quotient lies below the tie and the source stores \<open>0.000937\<close>, and a
  worker share of \<open>0.092813\<close>.
\<close>

theorem payout_half_even_counterexample:
  "costPerChunk (resolveTaskBudget (taskA (25 / 32) 1)) = 25 / 32
   \<and> feePercentOf envA (taskA (25 / 32) 1) = 1
   \<and> map tx_amount (walletTransactions (fst (snd
        (issueChunkPayout envA ''n1'' ''n2'' dbA (Some (taskA (25 / 32) 1)) (Some resultA) ''w1''))))
      = [- (25 / 32), fl (773437 / 1000000), fl (7813 / 1000000)]
   \<and> platformShareOf envA (taskA (25 / 32) 1) = fl (7813 / 1000000)
   \<and> round_half_even 6 ((25 / 32) * 1 / 100) = 7812 / 1000000
   \<and> platformShareOf envA (taskA (25 / 32) 1) \<noteq> fl (round_half_even 6 ((25 / 32) * 1 / 100))
   \<and> costPerChunk (resolveTaskBudget (taskA (3 / 32) 1)) = 3 / 32
   \<and> feePercentOf envA (taskA (3 / 32) 1) = 1
   \<and> platformShareOf envA (taskA (3 / 32) 1) = fl (937 / 1000000)
   \<and> workerShareOf envA (taskA (3 / 32) 1) = fl (92813 / 1000000)
   \<and> round_half_even 6 ((3 / 32) * 1 / 100) = 938 / 1000000
   \<and> platformShareOf envA (taskA (3 / 32) 1) \<noteq> fl (round_half_even 6 ((3 / 32) * 1 / 100))"
proof -
  have c: "costPerChunk (resolveTaskBudget (taskA (25 / 32) 1)) = 25 / 32"
    "feePercentOf envA (taskA (25 / 32) 1) = 1"
    "costPerChunk (resolveTaskBudget (taskA (3 / 32) 1)) = 3 / 32"
    "feePercentOf envA (taskA (3 / 32) 1) = 1"
    by (simp_all add: taskA_budget)
  have nz: "fl (7813 / 1000000) \<noteq> 0" by (simp add: fl_values)
  have a: "map tx_amount (walletTransactions (fst (snd
        (issueChunkPayout envA ''n1'' ''n2'' dbA (Some (taskA (25 / 32) 1)) (Some resultA) ''w1''))))
      = [- (25 / 32), fl (773437 / 1000000), fl (7813 / 1000000)]"
    by (simp add: payoutA_defs sharesB[unfolded envA_def] nz)
  have h1: "round_half_even 6 ((25 / 32) * 1 / 100) = 7812 / 1000000"
    by (simp add: round_half_even_def Let_def)
  have n1: "platformShareOf envA (taskA (25 / 32) 1) \<noteq> fl (round_half_even 6 ((25 / 32) * 1 / 100))"
    unfolding h1 sharesB by (simp add: fl_values)
  have h2: "round_half_even 6 ((3 / 32) * 1 / 100) = 938 / 1000000"
    by (simp add: round_half_even_def Let_def)
  have n2: "platformShareOf envA (taskA (3 / 32) 1) \<noteq> fl (round_half_even 6 ((3 / 32) * 1 / 100))"
    unfolding h2 sharesB by (simp add: fl_values)
  show ?thesis
    apply (intro conjI)
    apply (rule c a sharesB h1 n1 h2 n2)+
    done
qed

text \<open>
  Claim C3, amended.  For every payout that is applied, the amounts of the chunk-credit
  and of the platform-fee are the worker share and the platform share, and the platform
  ledger grows by the platform share (in binary64) when that is not zero.  For a cost
  \<open>c\<close> between 0 and \<open>2 ^ 20\<close> and a fee percentage \<open>p\<close> between 0 and 100: the
  binary64 quotient \<open>q = (c * p) / 100\<close> of the source lies within \<open>2 ^ - 31\<close> of
  \<open>c * p / 100\<close>; the platform share is the binary64 number nearest to \<open>n / 10 ^ 6\<close>,
  where \<open>n\<close> is the integer nearest to \<open>q * 10 ^ 6\<close>, the larger one at a tie; the
  binary64 difference \<open>s\<close> of \<open>c\<close> and the platform share lies within \<open>2 ^ - 30\<close> of the
  exact difference; and the worker share is the binary64 number nearest to \<open>m / 10 ^ 6\<close>
  for an integer \<open>m\<close> nearest to \<open>s * 10 ^ 6\<close>.  So the platform share is \<open>c * p / 100\<close>
  rounded to six decimals except next to a tie, where the rounding of \<open>q\<close> decides, and
  the worker share is \<open>c\<close> minus the platform share rounded to six decimals once more.
\<close>

theorem issueChunkPayout_shares:
  assumes paid: "issueChunkPayout env nid nid' d (Some t) (Some r) w = (True, d', t', r')"
  shows "map (\<lambda>tx. (tx_type tx, tx_amount tx))
             (drop (length (walletTransactions d)) (walletTransactions d')) =
           [(ChunkDebit, - costPerChunk (resolveTaskBudget t))]
           @ (if w \<noteq> [] then [(ChunkCredit, workerShareOf env t)] else [])
           @ (if platformShareOf env t \<noteq> 0 then [(PlatformFee, platformShareOf env t)] else [])
    \<and> platformLedger d' = (if platformShareOf env t \<noteq> 0
                             then fl (platformLedger d + platformShareOf env t)
                             else platformLedger d)
    \<and> (0 \<le> costPerChunk (resolveTaskBudget t) \<and> costPerChunk (resolveTaskBudget t) \<le> 2 ^ 20
         \<and> 0 \<le> feePercentOf env t \<and> feePercentOf env t \<le> 100
        \<longrightarrow> (\<exists>q s n m.
               q = fl (fl (costPerChunk (resolveTaskBudget t) * feePercentOf env t) / 100)
             \<and> \<bar>q - costPerChunk (resolveTaskBudget t) * feePercentOf env t / 100\<bar> \<le> 2 powi (- 31)
             \<and> of_int n - 1 / 2 \<le> q * 10 ^ 6 \<and> q * 10 ^ 6 < of_int n + 1 / 2
             \<and> platformShareOf env t = fl (of_int n / 10 ^ 6)
             \<and> s = fl (costPerChunk (resolveTaskBudget t) - platformShareOf env t)
             \<and> \<bar>s - (costPerChunk (resolveTaskBudget t) - platformShareOf env t)\<bar> \<le> 2 powi (- 30)
             \<and> \<bar>of_int m - s * 10 ^ 6\<bar> \<le> 1 / 2
             \<and> workerShareOf env t = fl (of_int m / 10 ^ 6)))"
proof -
  let ?c = "costPerChunk (resolveTaskBudget t)"
  let ?p = "feePercentOf env t"
  let ?new = "drop (length (walletTransactions d)) (walletTransactions d')"
  have "map (\<lambda>tx. (tx_type tx, tx_amount tx)) ?new =
        map (\<lambda>(a, b, c). (a, b)) (map (\<lambda>tx. (tx_type tx, tx_amount tx, tx_meta tx)) ?new)"
    by (simp add: comp_def)
  then have txs: "map (\<lambda>tx. (tx_type tx, tx_amount tx)) ?new =
           [(ChunkDebit, - ?c)]
           @ (if w \<noteq> [] then [(ChunkCredit, workerShareOf env t)] else [])
           @ (if platformShareOf env t \<noteq> 0 then [(PlatformFee, platformShareOf env t)] else [])"
    unfolding issueChunkPayout_appended(1)[OF paid] by simp
  have sh: "\<exists>q s n m.
               q = fl (fl (?c * ?p) / 100)
             \<and> \<bar>q - ?c * ?p / 100\<bar> \<le> 2 powi (- 31)
             \<and> of_int n - 1 / 2 \<le> q * 10 ^ 6 \<and> q * 10 ^ 6 < of_int n + 1 / 2
             \<and> platformShareOf env t = fl (of_int n / 10 ^ 6)
             \<and> s = fl (?c - platformShareOf env t)
             \<and> \<bar>s - (?c - platformShareOf env t)\<bar> \<le> 2 powi (- 30)
             \<and> \<bar>of_int m - s * 10 ^ 6\<bar> \<le> 1 / 2
             \<and> workerShareOf env t = fl (of_int m / 10 ^ 6)"
    if h: "0 \<le> ?c" "?c \<le> 2 ^ 20" "0 \<le> ?p" "?p \<le> 100"
  proof -
    define q where "q = fl (fl (?c * ?p) / 100)"
    define s where "s = fl (?c - platformShareOf env t)"
    define n where "n = \<lfloor>q * 10 ^ 6 + 1 / 2\<rfloor>"
    have c20: "?c \<le> 1048576" using h(2) by simp
    note sa = shares_analysis[OF h(1) c20 h(3,4), folded q_def,
                folded platformShareOf_def[of env t, folded q_def], folded s_def,
                folded workerShareOf_def[of env t, folded s_def]]
    from sa(5) obtain m where m: "workerShareOf env t = fl (of_int m / 10 ^ 6)"
      "\<bar>of_int m - s * 10 ^ 6\<bar> \<le> 1 / 2" by blast
    have n1: "of_int n - 1 / 2 \<le> q * 10 ^ 6" unfolding n_def by linarith
    have n2: "q * 10 ^ 6 < of_int n + 1 / 2" unfolding n_def by linarith
    have pn: "platformShareOf env t = fl (of_int n / 10 ^ 6)" using sa(3) by (simp add: n_def)
    show ?thesis
      apply (rule exI[of _ q])
      apply (rule exI[of _ s])
      apply (rule exI[of _ n])
      apply (rule exI[of _ m])
      apply (intro conjI)
              apply (rule q_def sa(2) n1 n2 pn s_def sa(4) m)+
      done
  qed
  show ?thesis
    using txs issueChunkPayout_appended(3)[OF paid] sh by blast
qed

text \<open>
  Witness for C3: cost 2 and fee 10 percent give the binary64 numbers nearest to 0.2
  and to 1.8.
\<close>

theorem issueChunkPayout_shares_witness:
  "issueChunkPayout envA ''n1'' ''n2'' dbA (Some (taskA 2 10)) (Some resultA) ''w1''
       = (True, dbA_paid, Some taskA_paid, Some resultA_paid)
   \<and> 0 \<le> costPerChunk (resolveTaskBudget (taskA 2 10))
   \<and> costPerChunk (resolveTaskBudget (taskA 2 10)) \<le> 2 ^ 20
   \<and> 0 \<le> feePercentOf envA (taskA 2 10) \<and> feePercentOf envA (taskA 2 10) \<le> 100
   \<and> map (\<lambda>tx. (tx_type tx, tx_amount tx))
         (drop (length (walletTransactions dbA)) (walletTransactions dbA_paid))
       = [(ChunkDebit, - 2), (ChunkCredit, double_1_8), (PlatformFee, double_0_2)]
   \<and> platformLedger dbA_paid = fl (platformLedger dbA + double_0_2)
   \<and> (\<exists>q s n m. q = fl (fl (2 * 10) / 100) \<and> \<bar>q - 2 * 10 / 100\<bar> \<le> 2 powi (- 31)
         \<and> of_int n - 1 / 2 \<le> q * 10 ^ 6 \<and> q * 10 ^ 6 < of_int n + 1 / 2
         \<and> double_0_2 = fl (of_int n / 10 ^ 6)
         \<and> s = fl (2 - double_0_2) \<and> \<bar>s - (2 - double_0_2)\<bar> \<le> 2 powi (- 30)
         \<and> \<bar>of_int m - s * 10 ^ 6\<bar> \<le> 1 / 2
         \<and> double_1_8 = fl (of_int m / 10 ^ 6))"
proof -
  have c: "0 \<le> costPerChunk (resolveTaskBudget (taskA 2 10))"
    "costPerChunk (resolveTaskBudget (taskA 2 10)) \<le> 2 ^ 20"
    "0 \<le> feePercentOf envA (taskA 2 10)" "feePercentOf envA (taskA 2 10) \<le> 100"
    by (simp_all add: taskA_budget)
  note res = issueChunkPayout_shares[OF payA]
  have m: "map (\<lambda>tx. (tx_type tx, tx_amount tx))
         (drop (length (walletTransactions dbA)) (walletTransactions dbA_paid))
       = [(ChunkDebit, - 2), (ChunkCredit, double_1_8), (PlatformFee, double_0_2)]"
    using res[THEN conjunct1] by (simp add: sharesA taskA_budget)
  have l: "platformLedger dbA_paid = fl (platformLedger dbA + double_0_2)"
    using res[THEN conjunct2, THEN conjunct1] by (simp add: sharesA)
  have e: "\<exists>q s n m. q = fl (fl (2 * 10) / 100) \<and> \<bar>q - 2 * 10 / 100\<bar> \<le> 2 powi (- 31)
         \<and> of_int n - 1 / 2 \<le> q * 10 ^ 6 \<and> q * 10 ^ 6 < of_int n + 1 / 2
         \<and> double_0_2 = fl (of_int n / 10 ^ 6)
         \<and> s = fl (2 - double_0_2) \<and> \<bar>s - (2 - double_0_2)\<bar> \<le> 2 powi (- 30)
         \<and> \<bar>of_int m - s * 10 ^ 6\<bar> \<le> 1 / 2
         \<and> double_1_8 = fl (of_int m / 10 ^ 6)"
    using res[THEN conjunct2, THEN conjunct2, rule_format, OF conjI[OF c(1) conjI[OF c(2) conjI[OF c(3) c(4)]]]]
    unfolding sharesA taskA_budget(2) taskA_budget(1)[of 2 10, simplified] .
  show ?thesis
    apply (intro conjI)
    apply (rule payA c m l e)+
    done
qed

section \<open>C9: limits of the wallet endpoints\<close>

text \<open>
  Claim C9.  A deposit and a withdrawal whose amount is not a finite number, or whose
  normalised amount is not positive, or whose normalised amount exceeds 1,000,000, are
  both answered with status 400, and the store (balances and transactions) is returned
  unchanged.
\<close>

theorem wallet_amount_rejected:
  assumes "case normalizeCurrencyAmount amount of
             None \<Rightarrow> True | Some normalized \<Rightarrow> normalized \<le> 0 \<or> normalized > 1000000"
  shows "(\<exists>msg. walletDeposit env d currentUser sessionId amount reason = (WalletError 400 msg, d))
       \<and> (\<exists>msg. walletWithdraw env d currentUser sessionId amount reason = (WalletError 400 msg, d))"
  using assms by (auto simp: walletDeposit_def walletWithdraw_def split: option.splits)

text \<open>Witness for C9: the amount 1,000,001 with the sandbox switched on.\<close>

theorem wallet_amount_rejected_witness:
  "normalizeCurrencyAmount (Some 1000001) = Some 1000001
   \<and> (1000001 :: real) > 1000000
   \<and> walletDeposit (envA\<lparr>SANDBOX_WALLET_ENABLED := True\<rparr>) dbA (Some 0) ''cust''
        (Some 1000001) None = (WalletError 400 ''Deposit amount exceeds limit'', dbA)
   \<and> walletWithdraw (envA\<lparr>SANDBOX_WALLET_ENABLED := True\<rparr>) dbA (Some 0) ''cust''
        (Some 1000001) None = (WalletError 400 ''Withdrawal amount exceeds limit'', dbA)"
proof -
  have n: "normalizeCurrencyAmount (Some 1000001) = Some 1000001"
    by (simp add: normalizeCurrencyAmount_def Math_round_def Number_toFixed_def toFixed_def
          toFixedPos_def)
  have h: "case normalizeCurrencyAmount (Some 1000001) of
             None \<Rightarrow> True | Some normalized \<Rightarrow> normalized \<le> 0 \<or> normalized > 1000000"
    by (simp add: n)
  from wallet_amount_rejected[OF h, of "envA\<lparr>SANDBOX_WALLET_ENABLED := True\<rparr>" dbA "Some 0" "''cust''" None]
  show ?thesis using n by (auto simp: walletDeposit_def walletWithdraw_def)
qed

section \<open>C7: normalisation of the bucket configuration\<close>

lemma halveBuckets_floor: "max 1 (Math_floor (mb / 2)) = halveBuckets mb"
  by (simp add: halveBuckets_def Math_floor_def)

lemma fitLoop_iterates:
  "\<exists>k. fitLoop mb bytes sz = ((halveBuckets ^^ k) mb, bytes * 2 ^ k)
       \<and> (\<forall>j<k. (halveBuckets ^^ j) mb > 1 \<and> sz > bytes * 2 ^ j)
       \<and> \<not> ((halveBuckets ^^ k) mb > 1 \<and> sz > bytes * 2 ^ k)"
proof (induction mb bytes sz rule: fitLoop.induct)
  case (1 mb bytes sz)
  show ?case
  proof (cases "mb > 1 \<and> sz > bytes")
    case False
    have "fitLoop mb bytes sz = (mb, bytes)"
      using False by (subst fitLoop.simps) auto
    then have "fitLoop mb bytes sz = ((halveBuckets ^^ 0) mb, bytes * 2 ^ 0)" by simp
    moreover have "\<not> ((halveBuckets ^^ 0) mb > 1 \<and> sz > bytes * 2 ^ 0)" using False by simp
    ultimately show ?thesis by (intro exI[of _ 0]) simp
  next
    case True
    from "1.IH"[OF True] obtain k where
      k: "fitLoop (max 1 (Math_floor (mb / 2))) (bytes * 2) sz
            = ((halveBuckets ^^ k) (max 1 (Math_floor (mb / 2))), bytes * 2 * 2 ^ k)"
      and before: "\<forall>j<k. (halveBuckets ^^ j) (max 1 (Math_floor (mb / 2))) > 1 \<and> sz > bytes * 2 * 2 ^ j"
      and exit: "\<not> ((halveBuckets ^^ k) (max 1 (Math_floor (mb / 2))) > 1 \<and> sz > bytes * 2 * 2 ^ k)"
      by blast
    have step: "(halveBuckets ^^ j) (max 1 (Math_floor (mb / 2))) = (halveBuckets ^^ Suc j) mb" for j
      by (simp add: halveBuckets_floor funpow_swap1)
    have p2: "bytes * 2 * 2 ^ j = bytes * 2 ^ Suc j" for j by simp
    have "fitLoop mb bytes sz = fitLoop (max 1 (Math_floor (mb / 2))) (bytes * 2) sz"
      using True by (subst fitLoop.simps) auto
    also have "\<dots> = ((halveBuckets ^^ Suc k) mb, bytes * 2 ^ Suc k)"
      using k unfolding step[of k] p2[of k] .
    finally have res: "fitLoop mb bytes sz = ((halveBuckets ^^ Suc k) mb, bytes * 2 ^ Suc k)" .
    have "\<forall>j<Suc k. (halveBuckets ^^ j) mb > 1 \<and> sz > bytes * 2 ^ j"
    proof (intro allI impI)
      fix j assume j: "j < Suc k"
      show "(halveBuckets ^^ j) mb > 1 \<and> sz > bytes * 2 ^ j"
      proof (cases j)
        case 0
        with True show ?thesis by simp
      next
        case (Suc i)
        with j have ik: "i < k" by simp
        from before ik
        have "(halveBuckets ^^ i) (max 1 (Math_floor (mb / 2))) > 1 \<and> sz > bytes * 2 * 2 ^ i"
          by blast
        then have "(halveBuckets ^^ Suc i) mb > 1 \<and> sz > bytes * 2 ^ Suc i"
          unfolding step[of i] p2[of i] .
        then show ?thesis unfolding Suc .
      qed
    qed
    moreover have "\<not> ((halveBuckets ^^ Suc k) mb > 1 \<and> sz > bytes * 2 ^ Suc k)"
      using exit unfolding step[of k] p2[of k] .
    ultimately show ?thesis using res by blast
  qed
qed

lemma halveBuckets_bounds: "1 \<le> mb \<Longrightarrow> 1 \<le> halveBuckets mb \<and> halveBuckets mb \<le> mb"
proof -
  assume a: "1 \<le> mb"
  have "of_int \<lfloor>mb / 2\<rfloor> \<le> mb / 2" by (rule of_int_floor_le)
  then have "of_int \<lfloor>mb / 2\<rfloor> \<le> mb" using a by linarith
  then show ?thesis using a by (simp add: halveBuckets_def)
qed

lemma halveBuckets_funpow_bounds:
  "1 \<le> mb \<Longrightarrow> 1 \<le> (halveBuckets ^^ k) mb \<and> (halveBuckets ^^ k) mb \<le> mb"
proof (induction k)
  case 0
  then show ?case by simp
next
  case (Suc k)
  then have "1 \<le> (halveBuckets ^^ k) mb" "(halveBuckets ^^ k) mb \<le> mb" by auto
  with halveBuckets_bounds[of "(halveBuckets ^^ k) mb"] show ?case by auto
qed

lemma fold_largest_ge_init:
  "a \<le> fold (\<lambda>item largest. if length item > largest then length item else largest) items a"
proof (induction items arbitrary: a)
  case Nil
  then show ?case by simp
next
  case (Cons x xs)
  have "(if a < length x then length x else a)
          \<le> fold (\<lambda>item largest. if length item > largest then length item else largest) xs
               (if a < length x then length x else a)"
    by (rule Cons.IH)
  then show ?case by (simp split: if_splits)
qed

lemma fold_largest_ge_item:
  "item \<in> set items \<Longrightarrow>
     length item \<le> fold (\<lambda>item largest. if length item > largest then length item else largest) items a"
proof (induction items arbitrary: a)
  case Nil
  then show ?case by simp
next
  case (Cons x xs)
  show ?case
  proof (cases "item = x")
    case True
    have "(if a < length x then length x else a)
            \<le> fold (\<lambda>item largest. if length item > largest then length item else largest) xs
                 (if a < length x then length x else a)"
      by (rule fold_largest_ge_init)
    with True show ?thesis by (simp split: if_splits)
  next
    case False
    with Cons.prems have "item \<in> set xs" by simp
    from Cons.IH[OF this] show ?thesis by simp
  qed
qed

lemma fold_largest_attained:
  "fold (\<lambda>item largest. if length item > largest then length item else largest) items a = a
   \<or> (\<exists>item \<in> set items.
         fold (\<lambda>item largest. if length item > largest then length item else largest) items a
           = length item)"
proof (induction items arbitrary: a)
  case Nil
  then show ?case by simp
next
  case (Cons x xs)
  from Cons.IH[of "if a < length x then length x else a"] show ?case
    by (auto split: if_splits)
qed

lemma largestItemBytes_ge: "item \<in> set items \<Longrightarrow> of_nat (length item) \<le> largestItemBytes items"
  using fold_largest_ge_item[of item items 0] by (simp add: largestItemBytes_def)

lemma largestItemBytes_attained:
  "largestItemBytes items = 0
   \<or> (\<exists>item \<in> set items. largestItemBytes items = of_nat (length item))"
  using fold_largest_attained[of items 0] by (auto simp: largestItemBytes_def)

lemma largestItemBytes_nonneg: "0 \<le> largestItemBytes items"
  by (simp add: largestItemBytes_def)

text \<open>The normalisation is the loop started from the repaired configuration.\<close>

lemma ensureBucketConfig_repaired:
  "t_bucketConfig (snd (ensureBucketConfig t items)) =
     \<lparr> maxBuckets = Some (fst (fitLoop (repairedMaxBuckets t) (repairedMaxBucketBytes t)
                                (largestItemBytes items))),
       maxBucketBytes =
         Some (if largestItemBytes items
                    > snd (fitLoop (repairedMaxBuckets t) (repairedMaxBucketBytes t)
                             (largestItemBytes items))
               then max (snd (fitLoop (repairedMaxBuckets t) (repairedMaxBucketBytes t)
                                (largestItemBytes items)))
                        (largestItemBytes items * 2)
               else snd (fitLoop (repairedMaxBuckets t) (repairedMaxBucketBytes t)
                           (largestItemBytes items))) \<rparr>"
  by (simp add: ensureBucketConfig_def repairedMaxBuckets_def repairedMaxBucketBytes_def Let_def
        split_beta)

lemma repairedMaxBuckets_cases:
  "maxBuckets (t_bucketConfig t) = Some m \<Longrightarrow> 1 \<le> m \<Longrightarrow> repairedMaxBuckets t = m"
  "maxBuckets (t_bucketConfig t) = Some m \<Longrightarrow> 0 < m \<Longrightarrow> m < 1 \<Longrightarrow> repairedMaxBuckets t = 1"
  "maxBuckets (t_bucketConfig t) = None \<or> (\<exists>m. maxBuckets (t_bucketConfig t) = Some m \<and> m \<le> 0)
     \<Longrightarrow> repairedMaxBuckets t =
           (case finiteOf (t_totalChunks t) of
              Some c \<Rightarrow> if c > 0 then max 1 (Math_floor c) else DEFAULT_MAX_BUCKETS
            | None \<Rightarrow> DEFAULT_MAX_BUCKETS)"
proof -
  show "repairedMaxBuckets t = m" if "maxBuckets (t_bucketConfig t) = Some m" "1 \<le> m"
  proof -
    have "(1::int) \<le> \<lfloor>m\<rfloor>" using that(2) by linarith
    then have f: "max 1 (Math_floor m) = Math_floor m" by (simp add: Math_floor_def)
    have "\<not> m \<le> 0" "0 < m" using that(2) by auto
    then show ?thesis by (simp add: repairedMaxBuckets_def that(1) f nullish_def)
  qed
  show "repairedMaxBuckets t = 1" if "maxBuckets (t_bucketConfig t) = Some m" "0 < m" "m < 1"
  proof -
    have "\<lfloor>m\<rfloor> = 0" using that(2,3) by linarith
    then have f: "Math_floor m = 0" by (simp add: Math_floor_def)
    have "\<not> m \<le> 0" using that(2) by auto
    then show ?thesis by (simp add: repairedMaxBuckets_def that(1,2) f nullish_def)
  qed
  show "repairedMaxBuckets t =
           (case finiteOf (t_totalChunks t) of
              Some c \<Rightarrow> if c > 0 then max 1 (Math_floor c) else DEFAULT_MAX_BUCKETS
            | None \<Rightarrow> DEFAULT_MAX_BUCKETS)"
    if "maxBuckets (t_bucketConfig t) = None \<or> (\<exists>m. maxBuckets (t_bucketConfig t) = Some m \<and> m \<le> 0)"
    using that
    by (auto simp: repairedMaxBuckets_def nullish_def Let_def split: option.splits)
qed

lemma repairedMaxBuckets_ge: "1 \<le> repairedMaxBuckets t"
proof (cases "maxBuckets (t_bucketConfig t)")
  case None
  then show ?thesis
    using repairedMaxBuckets_cases(3)[of t]
    by (auto simp: DEFAULT_MAX_BUCKETS_def split: option.splits)
next
  case (Some m)
  consider "m \<le> 0" | "0 < m" "m < 1" | "1 \<le> m" by linarith
  then show ?thesis
  proof cases
    case 1
    then show ?thesis
      using repairedMaxBuckets_cases(3)[of t] Some
      by (auto simp: DEFAULT_MAX_BUCKETS_def split: option.splits)
  next
    case 2
    then show ?thesis using repairedMaxBuckets_cases(2)[OF Some] by simp
  next
    case 3
    then show ?thesis using repairedMaxBuckets_cases(1)[OF Some] by simp
  qed
qed

lemma repairedMaxBucketBytes_cases:
  "maxBucketBytes (t_bucketConfig t) = Some b \<Longrightarrow> 0 < b \<Longrightarrow> repairedMaxBucketBytes t = b"
  "maxBucketBytes (t_bucketConfig t) = None
     \<or> (\<exists>b. maxBucketBytes (t_bucketConfig t) = Some b \<and> b \<le> 0)
     \<Longrightarrow> repairedMaxBucketBytes t =
           max 1024 (case t_maxBucketBytes t of
                       Some b \<Rightarrow> if b > 0 then b else DEFAULT_BUCKET_BYTES
                     | None \<Rightarrow> DEFAULT_BUCKET_BYTES)"
  by (auto simp: repairedMaxBucketBytes_def Let_def split: option.splits)

lemma repairedMaxBucketBytes_pos: "0 < repairedMaxBucketBytes t"
  by (auto simp: repairedMaxBucketBytes_def Let_def split: option.splits)

text \<open>
  Claim C7 as stated fails: normalisation can raise \<open>maxBuckets\<close>.  A stored
  \<open>maxBuckets\<close> of 0 is not positive, so it is replaced by the task's \<open>totalChunks\<close>,
  here 5, although every item fits.
\<close>

theorem ensureBucketConfig_raises_maxBuckets_counterexample:
  "maxBuckets (t_bucketConfig taskC7_zero) = Some 0
   \<and> largestItemBytes (t_dataItems taskC7_zero) = 1
   \<and> t_bucketConfig (snd (ensureBucketConfig taskC7_zero (t_dataItems taskC7_zero)))
       = \<lparr> maxBuckets = Some 5, maxBucketBytes = Some 1048576 \<rparr>
   \<and> \<not> (5::real) \<le> 0"
proof -
  have m: "maxBuckets (t_bucketConfig taskC7_zero) = Some 0" by (simp add: taskC7_zero_def)
  have L: "largestItemBytes (t_dataItems taskC7_zero) = 1"
    by (simp add: taskC7_zero_def taskA_def largestItemBytes_def)
  have n0: "repairedMaxBuckets taskC7_zero = 5"
    by (simp add: repairedMaxBuckets_def taskC7_zero_def taskA_def nullish_def Math_floor_def)
  have b0: "repairedMaxBucketBytes taskC7_zero = 1048576"
    by (simp add: repairedMaxBucketBytes_def taskC7_zero_def DEFAULT_BUCKET_BYTES_def)
  have f: "fitLoop 5 1048576 1 = (5, 1048576)" by (subst fitLoop.simps) simp
  have c: "t_bucketConfig (snd (ensureBucketConfig taskC7_zero (t_dataItems taskC7_zero)))
       = \<lparr> maxBuckets = Some 5, maxBucketBytes = Some 1048576 \<rparr>"
    unfolding ensureBucketConfig_repaired n0 b0 L f by simp
  show ?thesis using m L c by simp
qed

text \<open>
  Claim C7, amended.  \<^verbatim>\<open>ensureBucketConfig\<close> first repairs the stored configuration.
  A \<open>maxBuckets\<close> of at least 1 is kept; one between 0 and 1 becomes 1; one that is
  absent, not finite or not positive becomes the floor of the task's \<open>totalChunks\<close> (at
  least 1) when that is a positive number, and 10 otherwise.  A positive
  \<open>maxBucketBytes\<close> is kept; otherwise it becomes the task's own \<open>maxBucketBytes\<close> when
  that is positive, else \<open>1024 * 1024\<close>, and in both cases at least 1024.  From the
  repaired values \<open>n\<close> and \<open>b\<close>, with \<open>L\<close> the largest serialised length of the
  items, it halves \<open>maxBuckets\<close> (floor, at least 1) and doubles \<open>maxBucketBytes\<close> some
  \<open>k\<close> times: before each of the \<open>k\<close> steps \<open>maxBuckets > 1\<close> and
  \<open>L > maxBucketBytes\<close> hold, after the last they do not both hold; then, if \<open>L\<close> still
  exceeds \<open>maxBucketBytes\<close>, it sets \<open>maxBucketBytes\<close> to \<open>2 * L\<close>.  So \<open>maxBuckets\<close>
  ends at most \<open>n\<close>, \<open>maxBucketBytes\<close> ends at least \<open>b\<close>, and every item fits.
\<close>

theorem ensureBucketConfig_normalises:
  "\<exists>k. (\<forall>j<k. (halveBuckets ^^ j) (repairedMaxBuckets t) > 1
                 \<and> largestItemBytes items > repairedMaxBucketBytes t * 2 ^ j)
       \<and> \<not> ((halveBuckets ^^ k) (repairedMaxBuckets t) > 1
              \<and> largestItemBytes items > repairedMaxBucketBytes t * 2 ^ k)
       \<and> t_bucketConfig (snd (ensureBucketConfig t items)) =
            \<lparr> maxBuckets = Some ((halveBuckets ^^ k) (repairedMaxBuckets t)),
              maxBucketBytes = Some (if largestItemBytes items > repairedMaxBucketBytes t * 2 ^ k
                                     then 2 * largestItemBytes items
                                     else repairedMaxBucketBytes t * 2 ^ k) \<rparr>
       \<and> (halveBuckets ^^ k) (repairedMaxBuckets t) \<le> repairedMaxBuckets t
       \<and> repairedMaxBucketBytes t
            \<le> (if largestItemBytes items > repairedMaxBucketBytes t * 2 ^ k
                then 2 * largestItemBytes items else repairedMaxBucketBytes t * 2 ^ k)
       \<and> (\<forall>item \<in> set items.
             of_nat (length item) \<le> (if largestItemBytes items > repairedMaxBucketBytes t * 2 ^ k
                                       then 2 * largestItemBytes items
                                       else repairedMaxBucketBytes t * 2 ^ k))
       \<and> largestItemBytes items \<le> (if largestItemBytes items > repairedMaxBucketBytes t * 2 ^ k
                                      then 2 * largestItemBytes items
                                      else repairedMaxBucketBytes t * 2 ^ k)
       \<and> 1 \<le> repairedMaxBuckets t
       \<and> (\<forall>m. maxBuckets (t_bucketConfig t) = Some m \<and> 1 \<le> m \<longrightarrow> repairedMaxBuckets t = m)
       \<and> (\<forall>m. maxBuckets (t_bucketConfig t) = Some m \<and> 0 < m \<and> m < 1
              \<longrightarrow> repairedMaxBuckets t = 1)
       \<and> (maxBuckets (t_bucketConfig t) = None
            \<or> (\<exists>m. maxBuckets (t_bucketConfig t) = Some m \<and> m \<le> 0)
           \<longrightarrow> repairedMaxBuckets t =
                 (case finiteOf (t_totalChunks t) of
                    Some c \<Rightarrow> if c > 0 then max 1 (Math_floor c) else DEFAULT_MAX_BUCKETS
                  | None \<Rightarrow> DEFAULT_MAX_BUCKETS))
       \<and> (\<forall>b. maxBucketBytes (t_bucketConfig t) = Some b \<and> 0 < b
              \<longrightarrow> repairedMaxBucketBytes t = b)
       \<and> (maxBucketBytes (t_bucketConfig t) = None
            \<or> (\<exists>b. maxBucketBytes (t_bucketConfig t) = Some b \<and> b \<le> 0)
           \<longrightarrow> repairedMaxBucketBytes t =
                 max 1024 (case t_maxBucketBytes t of
                             Some b \<Rightarrow> if b > 0 then b else DEFAULT_BUCKET_BYTES
                           | None \<Rightarrow> DEFAULT_BUCKET_BYTES))"
proof -
  let ?L = "largestItemBytes items"
  let ?n = "repairedMaxBuckets t"
  let ?b = "repairedMaxBucketBytes t"
  obtain k where fit: "fitLoop ?n ?b ?L = ((halveBuckets ^^ k) ?n, ?b * 2 ^ k)"
    and before: "\<forall>j<k. (halveBuckets ^^ j) ?n > 1 \<and> ?L > ?b * 2 ^ j"
    and exit: "\<not> ((halveBuckets ^^ k) ?n > 1 \<and> ?L > ?b * 2 ^ k)"
    using fitLoop_iterates[of ?n ?b ?L] by blast
  let ?bytes = "if ?L > ?b * 2 ^ k then 2 * ?L else ?b * 2 ^ k"
  have L0: "0 \<le> ?L" by (rule largestItemBytes_nonneg)
  have bpos: "0 < ?b" by (rule repairedMaxBucketBytes_pos)
  have n1: "1 \<le> ?n" by (rule repairedMaxBuckets_ge)
  have pow: "?b \<le> ?b * 2 ^ k" using bpos by simp
  have max2: "?L > ?b * 2 ^ k \<Longrightarrow> max (?b * 2 ^ k) (?L * 2) = 2 * ?L" using L0 by simp
  have cfg: "t_bucketConfig (snd (ensureBucketConfig t items)) =
                \<lparr> maxBuckets = Some ((halveBuckets ^^ k) ?n), maxBucketBytes = Some ?bytes \<rparr>"
    unfolding ensureBucketConfig_repaired fit using max2 by simp
  have le: "(halveBuckets ^^ k) ?n \<le> ?n" using halveBuckets_funpow_bounds[OF n1] by blast
  have b_le: "?b \<le> ?bytes" using pow L0 by auto
  have L_le: "?L \<le> ?bytes" using L0 by auto
  have items_le: "\<forall>item \<in> set items. of_nat (length item) \<le> ?bytes"
    using largestItemBytes_ge[of _ items] L_le by force
  have r1: "\<forall>m. maxBuckets (t_bucketConfig t) = Some m \<and> 1 \<le> m \<longrightarrow> ?n = m"
    using repairedMaxBuckets_cases(1)[of t] by blast
  have r2: "\<forall>m. maxBuckets (t_bucketConfig t) = Some m \<and> 0 < m \<and> m < 1 \<longrightarrow> ?n = 1"
    using repairedMaxBuckets_cases(2)[of t] by blast
  have r3: "maxBuckets (t_bucketConfig t) = None
            \<or> (\<exists>m. maxBuckets (t_bucketConfig t) = Some m \<and> m \<le> 0)
           \<longrightarrow> ?n = (case finiteOf (t_totalChunks t) of
                    Some c \<Rightarrow> if c > 0 then max 1 (Math_floor c) else DEFAULT_MAX_BUCKETS
                  | None \<Rightarrow> DEFAULT_MAX_BUCKETS)"
    using repairedMaxBuckets_cases(3)[of t] by blast
  have r4: "\<forall>b. maxBucketBytes (t_bucketConfig t) = Some b \<and> 0 < b \<longrightarrow> ?b = b"
    using repairedMaxBucketBytes_cases(1)[of t] by blast
  have r5: "maxBucketBytes (t_bucketConfig t) = None
            \<or> (\<exists>b. maxBucketBytes (t_bucketConfig t) = Some b \<and> b \<le> 0)
           \<longrightarrow> ?b = max 1024 (case t_maxBucketBytes t of
                             Some b \<Rightarrow> if b > 0 then b else DEFAULT_BUCKET_BYTES
                           | None \<Rightarrow> DEFAULT_BUCKET_BYTES)"
    using repairedMaxBucketBytes_cases(2)[of t] by blast
  show ?thesis
    apply (rule exI[of _ k])
    apply (intro conjI)
    apply (rule before exit cfg le b_le items_le L_le n1 r1 r2 r3 r4 r5)+
    done
qed

lemma fitLoop_example: "fitLoop 8 1 5 = (1, 8)"
proof -
  have "fitLoop 8 1 5 = fitLoop 4 2 5" by (subst fitLoop.simps) (simp add: Math_floor_def)
  also have "\<dots> = fitLoop 2 4 5" by (subst fitLoop.simps) (simp add: Math_floor_def)
  also have "\<dots> = fitLoop 1 8 5" by (subst fitLoop.simps) (simp add: Math_floor_def)
  also have "\<dots> = (1, 8)" by (subst fitLoop.simps) simp
  finally show ?thesis .
qed

text \<open>
  Witness for C7: eight buckets of one byte and a largest item of five bytes end as one
  bucket of eight bytes, after three steps; and a task stored without a byte limit
  starts from \<open>1024 * 1024\<close> bytes.
\<close>

theorem ensureBucketConfig_normalises_witness:
  "maxBuckets (t_bucketConfig taskC7) = Some 8 \<and> (1::real) \<le> 8
   \<and> maxBucketBytes (t_bucketConfig taskC7) = Some 1 \<and> (0::real) < 1
   \<and> repairedMaxBuckets taskC7 = 8 \<and> repairedMaxBucketBytes taskC7 = 1
   \<and> largestItemBytes [''12345'', ''1''] = 5
   \<and> t_bucketConfig (snd (ensureBucketConfig taskC7 [''12345'', ''1'']))
        = \<lparr> maxBuckets = Some 1, maxBucketBytes = Some 8 \<rparr>
   \<and> (\<exists>k. (\<forall>j<k. (halveBuckets ^^ j) 8 > 1 \<and> largestItemBytes [''12345'', ''1''] > 1 * 2 ^ j)
          \<and> t_bucketConfig (snd (ensureBucketConfig taskC7 [''12345'', ''1'']))
               = \<lparr> maxBuckets = Some ((halveBuckets ^^ k) 8),
                   maxBucketBytes = Some (if largestItemBytes [''12345'', ''1''] > 1 * 2 ^ k
                                          then 2 * largestItemBytes [''12345'', ''1'']
                                          else 1 * 2 ^ k) \<rparr>)
   \<and> (maxBucketBytes (t_bucketConfig taskC7_zero) = None
        \<or> (\<exists>b. maxBucketBytes (t_bucketConfig taskC7_zero) = Some b \<and> b \<le> 0))
   \<and> repairedMaxBucketBytes taskC7_zero = 1048576"
proof -
  have m: "maxBuckets (t_bucketConfig taskC7) = Some 8" by (simp add: taskC7_def)
  have b: "maxBucketBytes (t_bucketConfig taskC7) = Some 1" by (simp add: taskC7_def)
  have L: "largestItemBytes [''12345'', ''1''] = 5" by (simp add: largestItemBytes_def)
  have one: "(1::real) \<le> 8" "(0::real) < 1" by simp_all
  note res = ensureBucketConfig_normalises[of taskC7 "[''12345'', ''1'']"]
  from res obtain k where
    k: "\<forall>j<k. (halveBuckets ^^ j) (repairedMaxBuckets taskC7) > 1
                 \<and> largestItemBytes [''12345'', ''1''] > repairedMaxBucketBytes taskC7 * 2 ^ j"
       "t_bucketConfig (snd (ensureBucketConfig taskC7 [''12345'', ''1''])) =
            \<lparr> maxBuckets = Some ((halveBuckets ^^ k) (repairedMaxBuckets taskC7)),
              maxBucketBytes = Some (if largestItemBytes [''12345'', ''1'']
                                          > repairedMaxBucketBytes taskC7 * 2 ^ k
                                     then 2 * largestItemBytes [''12345'', ''1'']
                                     else repairedMaxBucketBytes taskC7 * 2 ^ k) \<rparr>"
    and r1: "\<forall>m. maxBuckets (t_bucketConfig taskC7) = Some m \<and> 1 \<le> m
               \<longrightarrow> repairedMaxBuckets taskC7 = m"
    and r4: "\<forall>b. maxBucketBytes (t_bucketConfig taskC7) = Some b \<and> 0 < b
               \<longrightarrow> repairedMaxBucketBytes taskC7 = b"
    by (elim exE conjE)
  have n8: "repairedMaxBuckets taskC7 = 8" using r1 m by simp
  have b1: "repairedMaxBucketBytes taskC7 = 1" using r4 b by simp
  have ex: "\<exists>k. (\<forall>j<k. (halveBuckets ^^ j) 8 > 1 \<and> largestItemBytes [''12345'', ''1''] > 1 * 2 ^ j)
          \<and> t_bucketConfig (snd (ensureBucketConfig taskC7 [''12345'', ''1'']))
               = \<lparr> maxBuckets = Some ((halveBuckets ^^ k) 8),
                   maxBucketBytes = Some (if largestItemBytes [''12345'', ''1''] > 1 * 2 ^ k
                                          then 2 * largestItemBytes [''12345'', ''1'']
                                          else 1 * 2 ^ k) \<rparr>"
    using k unfolding n8 b1 by blast
  have c: "t_bucketConfig (snd (ensureBucketConfig taskC7 [''12345'', ''1'']))
        = \<lparr> maxBuckets = Some 1, maxBucketBytes = Some 8 \<rparr>"
    unfolding ensureBucketConfig_repaired n8 b1 L fitLoop_example by simp
  have z: "maxBucketBytes (t_bucketConfig taskC7_zero) = None
        \<or> (\<exists>b. maxBucketBytes (t_bucketConfig taskC7_zero) = Some b \<and> b \<le> 0)"
    by (simp add: taskC7_zero_def)
  from ensureBucketConfig_normalises[of taskC7_zero "[]"]
  have "maxBucketBytes (t_bucketConfig taskC7_zero) = None
            \<or> (\<exists>b. maxBucketBytes (t_bucketConfig taskC7_zero) = Some b \<and> b \<le> 0)
           \<longrightarrow> repairedMaxBucketBytes taskC7_zero =
                 max 1024 (case t_maxBucketBytes taskC7_zero of
                             Some b \<Rightarrow> if b > 0 then b else DEFAULT_BUCKET_BYTES
                           | None \<Rightarrow> DEFAULT_BUCKET_BYTES)"
    by (elim exE conjE)
  then have bz: "repairedMaxBucketBytes taskC7_zero = 1048576"
    using z by (simp add: taskC7_zero_def DEFAULT_BUCKET_BYTES_def)
  show ?thesis
    apply (intro conjI)
    apply (rule m one b n8 b1 L c ex z bz)+
    done
qed

section \<open>The terminal update of a bucket\<close>

lemma ensureWorkerUser_frame:
  "tasks (fst (ensureWorkerUser nid nid' d w)) = tasks d"
  "chunkResults (fst (ensureWorkerUser nid nid' d w)) = chunkResults d"
  "chunkAssignments (fst (ensureWorkerUser nid nid' d w)) = chunkAssignments d"
  by (simp_all add: ensureWorkerUser_def createUser_def Let_def split: option.splits)

lemma adjustUserBalance_frame:
  "tasks (fst (adjustUserBalance d u delta ty m)) = tasks d"
  "chunkResults (fst (adjustUserBalance d u delta ty m)) = chunkResults d"
  "chunkAssignments (fst (adjustUserBalance d u delta ty m)) = chunkAssignments d"
  by (simp_all add: adjustUserBalance_def pushWalletTransaction_def Let_def split: option.splits)

lemma recordPlatformEarning_frame:
  "tasks (recordPlatformEarning d a m) = tasks d"
  "chunkResults (recordPlatformEarning d a m) = chunkResults d"
  "chunkAssignments (recordPlatformEarning d a m) = chunkAssignments d"
  by (simp_all add: recordPlatformEarning_def pushWalletTransaction_def Let_def)

lemma payoutStore_frame:
  "tasks (payoutStore env nid nid' d t r w c) = tasks d"
  "chunkResults (payoutStore env nid nid' d t r w c) = chunkResults d"
  "chunkAssignments (payoutStore env nid nid' d t r w c) = chunkAssignments d"
  by (simp_all add: payoutStore_def Let_def ensureWorkerUser_frame adjustUserBalance_frame
        recordPlatformEarning_frame)

lemma issueChunkPayout_unfold:
  "issueChunkPayout env nid nid' d (Some t) (Some r) w =
     (case payoutGuards env d t r of
        None \<Rightarrow> (False, d, Some t, Some r)
      | Some c \<Rightarrow>
          (True, payoutStore env nid nid' d t r w c,
           Some (t\<lparr> t_chunksPaid := Num (fl (truthyOr (t_chunksPaid t) 0 + 1)),
                    t_budgetSpent := Num (fl (truthyOr (t_budgetSpent t) 0
                                              + costPerChunk (resolveTaskBudget t))) \<rparr>),
           Some (r\<lparr> r_payoutIssued := True,
                    r_workerId := (if w \<noteq> [] then w else r_workerId r) \<rparr>)))"
proof (cases "payoutGuards env d t r")
  case None
  then show ?thesis
    by (simp add: payoutGuards_def issueChunkPayout_def Let_def split: if_splits)
next
  case (Some c)
  then have g: "\<not> r_payoutIssued r" "r_status r = ''completed''"
    "\<not> (\<not> DISABLE_BUDGET_CHECKS env
         \<and> chunksPaid (resolveTaskBudget t) \<ge> maxBillableChunks (resolveTaskBudget t))"
    "findUserBySessionId d (if t_creatorId t \<noteq> [] then t_creatorId t else t_creatorSessionId t)
       = Some c"
    by (simp_all add: payoutGuards_def split: if_splits)
  show ?thesis
    unfolding Some option.case
    by (simp add: issueChunkPayout_def g Let_def split_beta payoutStore_def del: not_None_eq)
qed

lemma issueChunkPayout_frame:
  "tasks (fst (snd (issueChunkPayout env nid nid' d (Some t) (Some r) w))) = tasks d"
  "chunkResults (fst (snd (issueChunkPayout env nid nid' d (Some t) (Some r) w))) = chunkResults d"
  "chunkAssignments (fst (snd (issueChunkPayout env nid nid' d (Some t) (Some r) w)))
     = chunkAssignments d"
  by (simp_all add: issueChunkPayout_unfold payoutStore_frame split: option.splits)

lemma issueChunkPayout_result:
  "snd (snd (snd (issueChunkPayout env nid nid' d (Some t) (Some r) w))) =
     Some (case payoutGuards env d t r of
             None \<Rightarrow> r
           | Some c \<Rightarrow> r\<lparr> r_payoutIssued := True,
                           r_workerId := (if w \<noteq> [] then w else r_workerId r) \<rparr>)"
  by (simp add: issueChunkPayout_unfold split: option.splits)

lemma issueChunkPayout_result_fields:
  assumes "snd (snd (snd (issueChunkPayout env nid nid' d (Some t) (Some r) w))) = Some r'"
  shows "r_taskId r' = r_taskId r" "r_chunkIndex r' = r_chunkIndex r" "r_status r' = r_status r"
    "r_itemsCount r' = r_itemsCount r" "r_processedItems r' = r_processedItems r"
    "r_itemResults r' = r_itemResults r" "r_rangeStart r' = r_rangeStart r"
    "r_rangeEnd r' = r_rangeEnd r"
  using assms unfolding issueChunkPayout_result by (auto split: option.splits)

lemma updateExisting_fields:
  "r_taskId (updateExisting old req payload rc w) = r_taskId old"
  "r_chunkIndex (updateExisting old req payload rc w) = r_chunkIndex old"
  "r_status (updateExisting old req payload rc w) = rc_status req"
  "r_itemResults (updateExisting old req payload rc w) = s_items payload"
  "r_itemsCount (updateExisting old req payload rc w)
     = (case rc of Some c \<Rightarrow> Some c | None \<Rightarrow> r_itemsCount old)"
  "r_processedItems (updateExisting old req payload rc w)
     = (case rc of Some c \<Rightarrow> Some c | None \<Rightarrow> Some (of_nat (length (s_items payload))))"
  "r_payoutIssued (updateExisting old req payload rc w) = r_payoutIssued old"
  by (simp_all add: updateExisting_def)

lemma recordChunk_existing:
  fixes env nid nid' d req ci
  defines "rs \<equiv> dedupResults (rc_taskId req) ci
              (normalizeRange (rc_rangeStart req) (rc_rangeEnd req) (rc_itemsCount req) (Some ci))
              (chunkResults d)"
  defines "d' \<equiv> snd (recordChunk env nid nid' d req)"
  defines "rc \<equiv> resolveItemsCount (rc_itemsCount req) (rc_rangeStart req) (rc_rangeEnd req)
                       (s_items (sanitizeItemResults (rc_itemResults req)))"
  assumes "rc_chunkIndex req = Some ci" "rc_taskId req \<noteq> []" "rc_status req \<noteq> []"
    and "findIndex (\<lambda>t. t_id t = rc_taskId req) (tasks d) = Some ti"
    and "findIndex (\<lambda>r. r_taskId r = rc_taskId req \<and> r_chunkIndex r = Some ci) rs = Some ei"
  shows "\<exists>paid. fst (recordChunk env nid nid' d req) = RcOk paid"
    and "chunkAssignments d'
           = releaseAssignments (rc_taskId req) ci (rc_rangeStart req) (rc_rangeEnd req)
               (chunkAssignments d)"
    and "rs[ei := chunkResults d' ! ei] = chunkResults d'"
    and "r_taskId (chunkResults d' ! ei) = rc_taskId req"
    and "r_chunkIndex (chunkResults d' ! ei) = Some ci"
    and "r_status (chunkResults d' ! ei) = rc_status req"
    and "r_itemResults (chunkResults d' ! ei) = s_items (sanitizeItemResults (rc_itemResults req))"
    and "r_itemsCount (chunkResults d' ! ei)
           = (case rc of Some c \<Rightarrow> Some c | None \<Rightarrow> r_itemsCount (rs ! ei))"
    and "r_processedItems (chunkResults d' ! ei)
           = (case rc of Some c \<Rightarrow> Some c
              | None \<Rightarrow> Some (of_nat (length (s_items (sanitizeItemResults (rc_itemResults req))))))"
    and "r_payoutIssued (rs ! ei) \<or> rc_status req \<noteq> ''completed''
           \<Longrightarrow> users d' = users d \<and> walletTransactions d' = walletTransactions d
               \<and> platformLedger d' = platformLedger d"
proof -
  define payload where "payload = sanitizeItemResults (rc_itemResults req)"
  have rc: "rc = resolveItemsCount (rc_itemsCount req) (rc_rangeStart req) (rc_rangeEnd req)
                          (s_items payload)"
    by (simp add: rc_def payload_def)
  define w where "w = resolveWorkerId req
      (find (\<lambda>entry. a_taskId entry = rc_taskId req \<and> a_chunkIndex entry = Some ci)
            (chunkAssignments d)) (rs ! ei)"
  define target where "target = updateExisting (rs ! ei) req payload rc w"
  define t where "t = (if t_status (tasks d ! ti) = ''queued''
                       then (tasks d ! ti)\<lparr>t_status := ''processing''\<rparr> else tasks d ! ti)"
  define d2 where "d2 = d\<lparr> tasks := (tasks d)[ti := t],
       chunkAssignments := releaseAssignments (rc_taskId req) ci (rc_rangeStart req)
                             (rc_rangeEnd req) (chunkAssignments d),
       chunkResults := rs[ei := target] \<rparr>"
  define out where "out = issueChunkPayout env nid nid' d2 (Some t) (Some target) w"
  define r' where "r' = (case snd (snd (snd out)) of Some r \<Rightarrow> r | None \<Rightarrow> target)"
  have ei: "findIndex (\<lambda>r. r_taskId r = rc_taskId req \<and> r_chunkIndex r = Some ci) rs = Some ei"
    by (rule assms(8))
  have eq0: "recordChunk env nid nid' d req = settleTerminal env nid nid' d2 ti t ei target w"
    unfolding recordChunk_def assms(4) option.case
    using assms(5,6)
    by (simp add: assms(7) ei[unfolded rs_def] Let_def
          d2_def t_def target_def w_def rc payload_def rs_def)
  have eq: "recordChunk env nid nid' d req =
      (RcOk (fst out),
       (fst (snd out))\<lparr> tasks := (tasks (fst (snd out)))
                                   [ti := computeProgress
                                            (case fst (snd (snd out)) of Some x \<Rightarrow> x | None \<Rightarrow> t)
                                            ((chunkResults (fst (snd out)))[ei := r'])],
                         chunkResults := (chunkResults (fst (snd out)))[ei := r'] \<rparr>)"
    unfolding eq0 by (simp add: settleTerminal_def Let_def split_beta out_def r'_def)
  have keys: "r_taskId (rs ! ei) = rc_taskId req" "r_chunkIndex (rs ! ei) = Some ci"
    using findIndex_Some[OF ei] by auto
  have res: "snd (snd (snd out)) =
     Some (case payoutGuards env d2 t target of
             None \<Rightarrow> target
           | Some c \<Rightarrow> target\<lparr> r_payoutIssued := True,
                                r_workerId := (if w \<noteq> [] then w else r_workerId target) \<rparr>)"
    unfolding out_def by (rule issueChunkPayout_result)
  have r'_fields: "r_taskId r' = r_taskId target" "r_chunkIndex r' = r_chunkIndex target"
    "r_status r' = r_status target" "r_itemResults r' = r_itemResults target"
    "r_itemsCount r' = r_itemsCount target" "r_processedItems r' = r_processedItems target"
    unfolding r'_def res by (simp_all split: option.splits)
  have frame: "chunkAssignments (fst (snd out)) = chunkAssignments d2"
    "chunkResults (fst (snd out)) = chunkResults d2"
    unfolding out_def by (simp_all add: issueChunkPayout_frame)
  have noop: "users (snd (recordChunk env nid nid' d req)) = users d
        \<and> walletTransactions (snd (recordChunk env nid nid' d req)) = walletTransactions d
        \<and> platformLedger (snd (recordChunk env nid nid' d req)) = platformLedger d"
    if "r_payoutIssued (rs ! ei) \<or> rc_status req \<noteq> ''completed''"
  proof -
    have "r_payoutIssued target \<or> r_status target \<noteq> ''completed''"
      using that by (simp add: target_def updateExisting_fields)
    then have "out = (False, d2, Some t, Some target)"
      unfolding out_def by (rule issueChunkPayout_noop)
    then show ?thesis by (simp add: eq d2_def)
  qed
  have len: "ei < length rs" using findIndex_Some[OF ei] by blast
  have res': "chunkResults d' = rs[ei := r']"
    by (simp add: d'_def eq frame d2_def)
  then have nth: "chunkResults d' ! ei = r'" using len by simp
  show "\<exists>paid. fst (recordChunk env nid nid' d req) = RcOk paid" by (simp add: eq)
  show "chunkAssignments d'
           = releaseAssignments (rc_taskId req) ci (rc_rangeStart req) (rc_rangeEnd req)
               (chunkAssignments d)"
    by (simp add: d'_def eq frame d2_def)
  show "rs[ei := chunkResults d' ! ei] = chunkResults d'" unfolding nth by (rule res'[symmetric])
  show "r_taskId (chunkResults d' ! ei) = rc_taskId req"
    unfolding nth using r'_fields(1) keys(1) by (simp add: target_def updateExisting_fields)
  show "r_chunkIndex (chunkResults d' ! ei) = Some ci"
    unfolding nth using r'_fields(2) keys(2) by (simp add: target_def updateExisting_fields)
  show "r_status (chunkResults d' ! ei) = rc_status req"
    unfolding nth using r'_fields(3) by (simp add: target_def updateExisting_fields)
  show "r_itemResults (chunkResults d' ! ei) = s_items (sanitizeItemResults (rc_itemResults req))"
    unfolding nth using r'_fields(4) by (simp add: target_def updateExisting_fields payload_def)
  show "r_itemsCount (chunkResults d' ! ei)
           = (case rc of Some c \<Rightarrow> Some c | None \<Rightarrow> r_itemsCount (rs ! ei))"
    unfolding nth using r'_fields(5) by (simp add: target_def updateExisting_fields)
  show "r_processedItems (chunkResults d' ! ei)
           = (case rc of Some c \<Rightarrow> Some c
              | None \<Rightarrow> Some (of_nat (length (s_items (sanitizeItemResults (rc_itemResults req))))))"
    unfolding nth using r'_fields(6) by (simp add: target_def updateExisting_fields payload_def)
  show "users d' = users d \<and> walletTransactions d' = walletTransactions d
               \<and> platformLedger d' = platformLedger d"
    if "r_payoutIssued (rs ! ei) \<or> rc_status req \<noteq> ''completed''"
    using noop[OF that] by (simp add: d'_def)
qed

lemma recordChunk_threw:
  assumes "rc_chunkIndex req = Some ci" "rc_taskId req \<noteq> []" "rc_status req \<noteq> []"
    and "findIndex (\<lambda>t. t_id t = rc_taskId req) (tasks d) = Some ti"
    and "findIndex (\<lambda>r. r_taskId r = rc_taskId req \<and> r_chunkIndex r = Some ci)
           (dedupResults (rc_taskId req) ci
              (normalizeRange (rc_rangeStart req) (rc_rangeEnd req) (rc_itemsCount req) (Some ci))
              (chunkResults d)) = None"
  shows "fst (recordChunk env nid nid' d req)
           = RcThrew ''ReferenceError: itemResultsTotal is not defined''"
    and "chunkAssignments (snd (recordChunk env nid nid' d req))
           = releaseAssignments (rc_taskId req) ci (rc_rangeStart req) (rc_rangeEnd req)
               (chunkAssignments d)"
  unfolding recordChunk_def assms(1) option.case
  using assms(2,3) by (simp_all add: assms(4,5) Let_def)

lemma recordChunk_assignments:
  assumes "rc_chunkIndex req = Some ci" "rc_taskId req \<noteq> []" "rc_status req \<noteq> []"
    and "findIndex (\<lambda>t. t_id t = rc_taskId req) (tasks d) = Some ti"
  shows "chunkAssignments (snd (recordChunk env nid nid' d req))
           = releaseAssignments (rc_taskId req) ci (rc_rangeStart req) (rc_rangeEnd req)
               (chunkAssignments d)"
proof (cases "findIndex (\<lambda>r. r_taskId r = rc_taskId req \<and> r_chunkIndex r = Some ci)
           (dedupResults (rc_taskId req) ci
              (normalizeRange (rc_rangeStart req) (rc_rangeEnd req) (rc_itemsCount req) (Some ci))
              (chunkResults d))")
  case None
  from recordChunk_threw(2)[OF assms None] show ?thesis .
next
  case (Some ei)
  from recordChunk_existing(2)[OF assms Some, of env nid nid'] show ?thesis .
qed

lemma releaseAssignments_alt:
  "releaseAssignments tid ci rs re xs =
     filter (\<lambda>e. \<not> (a_taskId e = tid \<and> (a_chunkIndex e = Some ci \<or> leaseRangeEquals e rs re))) xs"
proof -
  have "(case (rs, re) of
           (Some s, Some en) \<Rightarrow>
              (case assignmentRange e of
                 Some entryRange \<Rightarrow> rg_start entryRange = s \<and> rg_end entryRange = en
               | None \<Rightarrow> False)
         | _ \<Rightarrow> False) = leaseRangeEquals e rs re" for e
    by (cases rs; cases re; cases "assignmentRange e")
       (auto simp: leaseRangeEquals_def)
  then show ?thesis by (simp add: releaseAssignments_def)
qed

lemma dbB_task: "findIndex (\<lambda>t. t_id t = ''t1'') (tasks dbB) = Some 0"
  by (simp add: dbB_def taskA_def)

lemma dbB_dedup:
  "dedupResults ''t1'' 0 rng (chunkResults dbB) = [resultB0]"
  by (simp add: dedupResults_def dbB_def resultB0_def resultA_def)

lemma dbB_existing:
  "findIndex (\<lambda>r. r_taskId r = ''t1'' \<and> r_chunkIndex r = Some 0) [resultB0] = Some 0"
  by (simp add: resultB0_def resultA_def)

subsection \<open>C8: the leases a terminal update releases\<close>

text \<open>
  Claim C8 as stated fails.  The lease of bucket 1 covers \<open>[2, 4)\<close>; the terminal
  result of bucket 0 reports \<open>[0, 3)\<close>, which overlaps it; the lease is still in the
  collection after the call.
\<close>

theorem overlapping_lease_kept_counterexample:
  "a_taskId leaseB1 = ''t1'' \<and> a_chunkIndex leaseB1 \<noteq> Some 0
   \<and> leaseB1 \<in> set (chunkAssignments dbB)
   \<and> leaseOverlaps leaseB1 (rc_rangeStart terminalB) (rc_rangeEnd terminalB)
   \<and> fst (recordChunk envA ''n1'' ''n2'' dbB terminalB) = RcOk True
   \<and> leaseB1 \<in> set (chunkAssignments (snd (recordChunk envA ''n1'' ''n2'' dbB terminalB)))"
proof -
  have v: "rc_chunkIndex terminalB = Some 0" "rc_taskId terminalB \<noteq> []" "rc_status terminalB \<noteq> []"
    by (simp_all add: terminalB_def)
  have t: "findIndex (\<lambda>t. t_id t = rc_taskId terminalB) (tasks dbB) = Some 0"
    using dbB_task by (simp add: terminalB_def)
  have a: "chunkAssignments (snd (recordChunk envA ''n1'' ''n2'' dbB terminalB)) = [leaseB1]"
    unfolding recordChunk_assignments[OF v t]
    by (simp add: releaseAssignments_def terminalB_def dbB_def leaseB0_def leaseB1_def
          assignmentRange_def normalizeRange_def)
  have o: "leaseOverlaps leaseB1 (rc_rangeStart terminalB) (rc_rangeEnd terminalB)"
    by (simp add: leaseOverlaps_def terminalB_def leaseB1_def leaseB0_def assignmentRange_def
          normalizeRange_def overlap_def)
  have r: "fst (recordChunk envA ''n1'' ''n2'' dbB terminalB) = RcOk True"
    by (simp add: recordChunk_def terminalB_def Let_def dedupResults_def
          settleTerminal_def issueChunkPayout_unfold payoutGuards_def updateExisting_def
          resolveWorkerId_def resultB0_def resultA_def envA_def findUserBySessionId_def
          dbB_def taskA_def customerA_def)
  show ?thesis using a o r by (simp add: leaseB1_def leaseB0_def dbB_def)
qed

text \<open>
  Claim C8, amended.  When a terminal bucket result is recorded for a task that exists,
  the leases left in the collection are those that were there, in their order, except
  the leases of that task whose chunk index is the reported one or whose normalised
  range is exactly the reported \<open>(rangeStart, rangeEnd)\<close>.  A lease of the task whose
  range only overlaps the reported range stays.
\<close>

theorem recordChunk_releases_equal_ranges:
  assumes "rc_chunkIndex req = Some ci" and "rc_taskId req \<noteq> []" and "rc_status req \<noteq> []"
    and "findIndex (\<lambda>t. t_id t = rc_taskId req) (tasks d) = Some ti"
  shows "chunkAssignments (snd (recordChunk env nid nid' d req)) =
           filter (\<lambda>e. \<not> (a_taskId e = rc_taskId req
                           \<and> (a_chunkIndex e = Some ci
                               \<or> leaseRangeEquals e (rc_rangeStart req) (rc_rangeEnd req))))
                  (chunkAssignments d)"
  using recordChunk_assignments[OF assms] by (simp add: releaseAssignments_alt)

text \<open>
  Witness for C8: the report \<open>[0, 3)\<close> for bucket 0 removes the lease of bucket 0 only;
  the report \<open>[2, 4)\<close> for bucket 0 removes the lease of bucket 1 as well.
\<close>

theorem recordChunk_releases_equal_ranges_witness:
  "rc_chunkIndex terminalB = Some 0 \<and> rc_taskId terminalB \<noteq> [] \<and> rc_status terminalB \<noteq> []
   \<and> findIndex (\<lambda>t. t_id t = rc_taskId terminalB) (tasks dbB) = Some 0
   \<and> chunkAssignments dbB = [leaseB0, leaseB1]
   \<and> chunkAssignments (snd (recordChunk envA ''n1'' ''n2'' dbB terminalB)) = [leaseB1]
   \<and> chunkAssignments (snd (recordChunk envA ''n1'' ''n2'' dbB
         (terminalB\<lparr>rc_rangeStart := Some 2, rc_rangeEnd := Some 4\<rparr>))) = []"
proof -
  have v: "rc_chunkIndex terminalB = Some 0" "rc_taskId terminalB \<noteq> []" "rc_status terminalB \<noteq> []"
    by (simp_all add: terminalB_def)
  have t: "findIndex (\<lambda>t. t_id t = rc_taskId terminalB) (tasks dbB) = Some 0"
    using dbB_task by (simp add: terminalB_def)
  have v': "rc_chunkIndex (terminalB\<lparr>rc_rangeStart := Some 2, rc_rangeEnd := Some 4\<rparr>) = Some 0"
    "rc_taskId (terminalB\<lparr>rc_rangeStart := Some 2, rc_rangeEnd := Some 4\<rparr>) \<noteq> []"
    "rc_status (terminalB\<lparr>rc_rangeStart := Some 2, rc_rangeEnd := Some 4\<rparr>) \<noteq> []"
    by (simp_all add: terminalB_def)
  have t': "findIndex (\<lambda>t. t_id t = rc_taskId (terminalB\<lparr>rc_rangeStart := Some 2, rc_rangeEnd := Some 4\<rparr>))
              (tasks dbB) = Some 0"
    using dbB_task by (simp add: terminalB_def)
  have a: "chunkAssignments (snd (recordChunk envA ''n1'' ''n2'' dbB terminalB)) = [leaseB1]"
    unfolding recordChunk_releases_equal_ranges[OF v t]
    by (simp add: leaseRangeEquals_def terminalB_def dbB_def leaseB0_def leaseB1_def
          assignmentRange_def normalizeRange_def)
  have b: "chunkAssignments (snd (recordChunk envA ''n1'' ''n2'' dbB
         (terminalB\<lparr>rc_rangeStart := Some 2, rc_rangeEnd := Some 4\<rparr>))) = []"
    unfolding recordChunk_releases_equal_ranges[OF v' t']
    by (simp add: leaseRangeEquals_def terminalB_def dbB_def leaseB0_def leaseB1_def
          assignmentRange_def normalizeRange_def)
  show ?thesis using v t a b by (simp add: dbB_def)
qed

subsection \<open>C5: what a terminal update stores\<close>

lemma dbB_stored: "storedResult dbB ''t1'' 0 = Some resultB0"
  by (simp add: storedResult_def dbB_def resultB0_def resultA_def)

lemma singleton_map: "[xs ! 0] = xs \<Longrightarrow> map f xs = [f (xs ! 0)]"
  by (cases xs) auto

lemma dbB_results_after:
  assumes "rc_chunkIndex req = Some 0" "rc_taskId req = ''t1''" "rc_status req \<noteq> []"
  shows "[chunkResults (snd (recordChunk envA nid nid' dbB req)) ! 0]
           = chunkResults (snd (recordChunk envA nid nid' dbB req))"
    and "r_status (chunkResults (snd (recordChunk envA nid nid' dbB req)) ! 0) = rc_status req"
    and "r_itemsCount (chunkResults (snd (recordChunk envA nid nid' dbB req)) ! 0)
           = (case resolveItemsCount (rc_itemsCount req) (rc_rangeStart req) (rc_rangeEnd req)
                     (s_items (sanitizeItemResults (rc_itemResults req))) of
                Some c \<Rightarrow> Some c | None \<Rightarrow> Some 2)"
    and "r_processedItems (chunkResults (snd (recordChunk envA nid nid' dbB req)) ! 0)
           = (case resolveItemsCount (rc_itemsCount req) (rc_rangeStart req) (rc_rangeEnd req)
                     (s_items (sanitizeItemResults (rc_itemResults req))) of
                Some c \<Rightarrow> Some c
              | None \<Rightarrow> Some (of_nat (length (s_items (sanitizeItemResults (rc_itemResults req))))))"
proof -
  have v: "rc_chunkIndex req = Some 0" "rc_taskId req \<noteq> []" "rc_status req \<noteq> []"
    using assms by simp_all
  have t: "findIndex (\<lambda>t. t_id t = rc_taskId req) (tasks dbB) = Some 0"
    using dbB_task assms(2) by simp
  have rs: "dedupResults (rc_taskId req) 0
              (normalizeRange (rc_rangeStart req) (rc_rangeEnd req) (rc_itemsCount req) (Some 0))
              (chunkResults dbB) = [resultB0]"
    using dbB_dedup assms(2) by simp
  have e: "findIndex (\<lambda>r. r_taskId r = rc_taskId req \<and> r_chunkIndex r = Some 0)
             (dedupResults (rc_taskId req) 0
                (normalizeRange (rc_rangeStart req) (rc_rangeEnd req) (rc_itemsCount req) (Some 0))
                (chunkResults dbB)) = Some 0"
    unfolding rs using dbB_existing assms(2) by simp
  note ex = recordChunk_existing[OF v t e, of envA nid nid']
  show "[chunkResults (snd (recordChunk envA nid nid' dbB req)) ! 0]
           = chunkResults (snd (recordChunk envA nid nid' dbB req))"
    using ex(3) unfolding rs by simp
  show "r_status (chunkResults (snd (recordChunk envA nid nid' dbB req)) ! 0) = rc_status req"
    by (rule ex(6))
  show "r_itemsCount (chunkResults (snd (recordChunk envA nid nid' dbB req)) ! 0)
           = (case resolveItemsCount (rc_itemsCount req) (rc_rangeStart req) (rc_rangeEnd req)
                     (s_items (sanitizeItemResults (rc_itemResults req))) of
                Some c \<Rightarrow> Some c | None \<Rightarrow> Some 2)"
    using ex(8) unfolding rs by (simp add: resultB0_def resultA_def split: option.splits)
  show "r_processedItems (chunkResults (snd (recordChunk envA nid nid' dbB req)) ! 0)
           = (case resolveItemsCount (rc_itemsCount req) (rc_rangeStart req) (rc_rangeEnd req)
                     (s_items (sanitizeItemResults (rc_itemResults req))) of
                Some c \<Rightarrow> Some c
              | None \<Rightarrow> Some (of_nat (length (s_items (sanitizeItemResults (rc_itemResults req))))))"
    by (rule ex(9))
qed

text \<open>
  Claim C5 as stated fails.  A terminal update that says \<open>completed\<close> and carries a
  failed item is stored as \<open>completed\<close>, where the claim's rule gives \<open>failed\<close>; and a
  terminal update without counts, range or items leaves \<open>itemsCount = 2\<close> and sets
  \<open>processedItems = 0\<close>.
\<close>

theorem stored_status_not_derived_counterexample:
  "rc_itemResults terminalFailedItem
       = Some [RawObject (JNum 0) (JNum 0) (JStr ''failed''),
               RawObject (JNum 1) (JNum 1) (JStr ''completed'')]
   \<and> derivedStatus [RawObject (JNum 0) (JNum 0) (JStr ''failed''),
                     RawObject (JNum 1) (JNum 1) (JStr ''completed'')] = ''failed''
   \<and> map r_status (chunkResults (snd (recordChunk envA ''n1'' ''n2'' dbB terminalFailedItem)))
       = [''completed'']
   \<and> map r_itemsCount (chunkResults (snd (recordChunk envA ''n1'' ''n2'' dbB terminalBare)))
       = [Some 2]
   \<and> map r_processedItems (chunkResults (snd (recordChunk envA ''n1'' ''n2'' dbB terminalBare)))
       = [Some 0]"
proof -
  have f: "rc_chunkIndex terminalFailedItem = Some 0" "rc_taskId terminalFailedItem = ''t1''"
    "rc_status terminalFailedItem \<noteq> []" "rc_status terminalFailedItem = ''completed''"
    by (simp_all add: terminalFailedItem_def terminalB_def)
  have b: "rc_chunkIndex terminalBare = Some 0" "rc_taskId terminalBare = ''t1''"
    "rc_status terminalBare \<noteq> []"
    by (simp_all add: terminalBare_def terminalB_def)
  have n: "resolveItemsCount (rc_itemsCount terminalBare) (rc_rangeStart terminalBare)
             (rc_rangeEnd terminalBare) (s_items (sanitizeItemResults (rc_itemResults terminalBare)))
           = None"
    "s_items (sanitizeItemResults (rc_itemResults terminalBare)) = []"
    "resolveItemsCount (rc_itemsCount terminalBare) (rc_rangeStart terminalBare)
             (rc_rangeEnd terminalBare) [] = None"
    by (simp_all add: terminalBare_def terminalB_def resolveItemsCount_def sanitizeItemResults_def)
  have s: "map r_status (chunkResults (snd (recordChunk envA ''n1'' ''n2'' dbB terminalFailedItem)))
       = [''completed'']"
    unfolding singleton_map[OF dbB_results_after(1)[OF f(1-3), of "''n1''" "''n2''"]]
          dbB_results_after(2)[OF f(1-3), of "''n1''" "''n2''"] f(4) by simp
  have c: "map r_itemsCount (chunkResults (snd (recordChunk envA ''n1'' ''n2'' dbB terminalBare)))
       = [Some 2]"
    unfolding singleton_map[OF dbB_results_after(1)[OF b, of "''n1''" "''n2''"]]
          dbB_results_after(3)[OF b, of "''n1''" "''n2''"] n by simp
  have p: "map r_processedItems (chunkResults (snd (recordChunk envA ''n1'' ''n2'' dbB terminalBare)))
       = [Some 0]"
    unfolding singleton_map[OF dbB_results_after(1)[OF b, of "''n1''" "''n2''"]]
          dbB_results_after(4)[OF b, of "''n1''" "''n2''"] n by simp
  have d: "derivedStatus [RawObject (JNum 0) (JNum 0) (JStr ''failed''),
                     RawObject (JNum 1) (JNum 1) (JStr ''completed'')] = ''failed''"
    by (simp add: derivedStatus_def coerceStatus_def)
  show ?thesis using s c p d by (simp add: terminalFailedItem_def terminalB_def)
qed

text \<open>
  Claim C5, amended.  When a terminal bucket result is recorded for a task that exists
  and the bucket already has a stored result, the call answers \<open>ok\<close> and the stored
  result has: the status of the request, as submitted; the sanitised item list; and,
  when a count is resolved (the request's \<open>itemsCount\<close>, else \<open>rangeEnd - rangeStart\<close>,
  else the number of sanitised items when there are any), that count as both
  \<open>itemsCount\<close> and \<open>processedItems\<close>.  When no count is resolved, \<open>itemsCount\<close> keeps
  its value and \<open>processedItems\<close> becomes the number of sanitised items.
\<close>

theorem recordChunk_stored_result:
  assumes "rc_chunkIndex req = Some ci" and "rc_taskId req \<noteq> []" and "rc_status req \<noteq> []"
    and "findIndex (\<lambda>t. t_id t = rc_taskId req) (tasks d) = Some ti"
    and "storedResult d (rc_taskId req) ci = Some old"
  shows "\<exists>paid r'.
           fst (recordChunk env nid nid' d req) = RcOk paid
           \<and> storedResult (snd (recordChunk env nid nid' d req)) (rc_taskId req) ci = Some r'
           \<and> r_status r' = rc_status req
           \<and> r_itemResults r' = s_items (sanitizeItemResults (rc_itemResults req))
           \<and> (case resolveItemsCount (rc_itemsCount req) (rc_rangeStart req) (rc_rangeEnd req)
                      (s_items (sanitizeItemResults (rc_itemResults req))) of
                 Some c \<Rightarrow> r_itemsCount r' = Some c \<and> r_processedItems r' = Some c
               | None \<Rightarrow> r_itemsCount r' = r_itemsCount old
                         \<and> r_processedItems r'
                             = Some (of_nat (length (s_items (sanitizeItemResults (rc_itemResults req))))))"
proof -
  let ?P = "\<lambda>r. r_taskId r = rc_taskId req \<and> r_chunkIndex r = Some ci"
  let ?rs = "dedupResults (rc_taskId req) ci
              (normalizeRange (rc_rangeStart req) (rc_rangeEnd req) (rc_itemsCount req) (Some ci))
              (chunkResults d)"
  have "find ?P ?rs = find ?P (chunkResults d)"
    unfolding dedupResults_def by (rule find_filter_keep) simp
  then have "find ?P ?rs = Some old" using assms(5) by (simp add: storedResult_def)
  from findIndex_find_Some[OF this]
  obtain ei where ei: "findIndex ?P ?rs = Some ei" and old: "?rs ! ei = old"
    by (elim exE conjE)
  note ex = recordChunk_existing[OF assms(1-4) ei, of env nid nid']
  obtain paid where paid: "fst (recordChunk env nid nid' d req) = RcOk paid"
    using ex(1) by blast
  let ?d' = "snd (recordChunk env nid nid' d req)"
  let ?r' = "chunkResults ?d' ! ei"
  have "find ?P (chunkResults ?d') = find ?P (?rs[ei := ?r'])"
    by (rule arg_cong[OF ex(3)[symmetric]])
  also have "\<dots> = Some ?r'"
    using ei ex(4,5) by (intro find_update_first) auto
  finally have st: "storedResult ?d' (rc_taskId req) ci = Some ?r'"
    by (simp add: storedResult_def)
  have counts: "case resolveItemsCount (rc_itemsCount req) (rc_rangeStart req) (rc_rangeEnd req)
                      (s_items (sanitizeItemResults (rc_itemResults req))) of
                 Some c \<Rightarrow> r_itemsCount ?r' = Some c \<and> r_processedItems ?r' = Some c
               | None \<Rightarrow> r_itemsCount ?r' = r_itemsCount old
                         \<and> r_processedItems ?r'
                             = Some (of_nat (length (s_items (sanitizeItemResults (rc_itemResults req)))))"
    using ex(8,9) old by (simp split: option.splits)
  show ?thesis
    apply (rule exI[of _ paid])
    apply (rule exI[of _ ?r'])
    apply (intro conjI)
        apply (rule paid)
       apply (rule st)
      apply (rule ex(6))
     apply (rule ex(7))
    apply (rule counts)
    done
qed

text \<open>Witness for C5: the update with a failed item, on the store of the example.\<close>

theorem recordChunk_stored_result_witness:
  "rc_chunkIndex terminalFailedItem = Some 0 \<and> rc_taskId terminalFailedItem \<noteq> []
   \<and> rc_status terminalFailedItem \<noteq> []
   \<and> findIndex (\<lambda>t. t_id t = rc_taskId terminalFailedItem) (tasks dbB) = Some 0
   \<and> storedResult dbB (rc_taskId terminalFailedItem) 0 = Some resultB0
   \<and> (\<exists>paid r'.
         fst (recordChunk envA ''n1'' ''n2'' dbB terminalFailedItem) = RcOk paid
         \<and> storedResult (snd (recordChunk envA ''n1'' ''n2'' dbB terminalFailedItem)) ''t1'' 0 = Some r'
         \<and> r_status r' = ''completed''
         \<and> map i_status (r_itemResults r') = [''failed'', ''completed'']
         \<and> r_itemsCount r' = Some 2 \<and> r_processedItems r' = Some 2)"
proof -
  have v: "rc_chunkIndex terminalFailedItem = Some 0" "rc_taskId terminalFailedItem \<noteq> []"
    "rc_status terminalFailedItem \<noteq> []"
    by (simp_all add: terminalFailedItem_def terminalB_def)
  have t: "findIndex (\<lambda>t. t_id t = rc_taskId terminalFailedItem) (tasks dbB) = Some 0"
    using dbB_task by (simp add: terminalFailedItem_def terminalB_def)
  have s: "storedResult dbB (rc_taskId terminalFailedItem) 0 = Some resultB0"
    using dbB_stored by (simp add: terminalFailedItem_def terminalB_def)
  have i: "s_items (sanitizeItemResults (rc_itemResults terminalFailedItem))
         = [\<lparr> i_globalIndex = Some 0, i_localIndex = Some 0, i_status = ''failed'' \<rparr>,
            \<lparr> i_globalIndex = Some 1, i_localIndex = Some 1, i_status = ''completed'' \<rparr>]"
    by (simp add: terminalFailedItem_def terminalB_def sanitizeItemResults_def sanitizeItem_def
          MAX_ITEM_RESULTS_STORED_def upt_rec[of 0] upt_rec[of 1])
  have c: "resolveItemsCount (rc_itemsCount terminalFailedItem) (rc_rangeStart terminalFailedItem)
             (rc_rangeEnd terminalFailedItem)
             (s_items (sanitizeItemResults (rc_itemResults terminalFailedItem))) = Some 2"
    by (simp add: terminalFailedItem_def terminalB_def resolveItemsCount_def)
  have id: "rc_taskId terminalFailedItem = ''t1''" "rc_status terminalFailedItem = ''completed''"
    by (simp_all add: terminalFailedItem_def terminalB_def)
  from recordChunk_stored_result[OF v t s, of envA "''n1''" "''n2''"]
  obtain paid r' where
    r: "fst (recordChunk envA ''n1'' ''n2'' dbB terminalFailedItem) = RcOk paid"
       "storedResult (snd (recordChunk envA ''n1'' ''n2'' dbB terminalFailedItem))
          (rc_taskId terminalFailedItem) 0 = Some r'"
       "r_status r' = rc_status terminalFailedItem"
       "r_itemResults r' = s_items (sanitizeItemResults (rc_itemResults terminalFailedItem))"
       "r_itemsCount r' = Some 2" "r_processedItems r' = Some 2"
    unfolding c option.case by (elim exE conjE)
  have ex: "\<exists>paid r'.
         fst (recordChunk envA ''n1'' ''n2'' dbB terminalFailedItem) = RcOk paid
         \<and> storedResult (snd (recordChunk envA ''n1'' ''n2'' dbB terminalFailedItem)) ''t1'' 0 = Some r'
         \<and> r_status r' = ''completed''
         \<and> map i_status (r_itemResults r') = [''failed'', ''completed'']
         \<and> r_itemsCount r' = Some 2 \<and> r_processedItems r' = Some 2"
    apply (rule exI[of _ paid])
    apply (rule exI[of _ r'])
    using r unfolding id i by simp
  show ?thesis
    apply (intro conjI)
    apply (rule v t s ex)+
    done
qed

subsection \<open>Progress counters across progress and terminal calls\<close>

lemma progressResult_fields:
  "r_taskId (progressResult req tot p r) = r_taskId r"
  "r_chunkIndex (progressResult req tot p r) = r_chunkIndex r"
  "r_processedItems (progressResult req tot p r)
     = (if p > orZero (r_processedItems r) then Some p else r_processedItems r)"
  by (simp_all add: progressResult_def progressScalars_def Let_def)

lemma floorNonNeg_nonneg: "0 \<le> floorNonNeg x"
  by (simp add: floorNonNeg_def)

text \<open>The results a progress call leaves, when it is accepted.\<close>

lemma recordProgress_results:
  assumes "rp_chunkIndex req = Some ci" "rp_itemsProcessed req = Some ip" "rp_taskId req \<noteq> []"
    and "findIndex (\<lambda>t. t_id t = rp_taskId req) (tasks d) = Some ti"
  defines "tot \<equiv> map_option floorNonNeg (rp_totalItems req)"
  defines "p \<equiv> (case tot of Some x \<Rightarrow> min (floorNonNeg ip) x | None \<Rightarrow> floorNonNeg ip)"
  shows "chunkResults (snd (recordProgress now d req)) =
          (case findIndex (\<lambda>r. r_taskId r = rp_taskId req \<and> r_chunkIndex r = Some ci)
                  (chunkResults d) of
             Some i \<Rightarrow> (chunkResults d)[i := progressResult req tot p (chunkResults d ! i)]
           | None \<Rightarrow> chunkResults d @ [progressResult req tot p (newProgressEntry req ci tot p)])"
    and "0 \<le> p"
proof -
  show "0 \<le> p"
    unfolding p_def tot_def by (cases "rp_totalItems req") (simp_all add: floorNonNeg_nonneg)
  show "chunkResults (snd (recordProgress now d req)) =
          (case findIndex (\<lambda>r. r_taskId r = rp_taskId req \<and> r_chunkIndex r = Some ci)
                  (chunkResults d) of
             Some i \<Rightarrow> (chunkResults d)[i := progressResult req tot p (chunkResults d ! i)]
           | None \<Rightarrow> chunkResults d @ [progressResult req tot p (newProgressEntry req ci tot p)])"
    unfolding recordProgress_def assms(1,2) prod.case option.case
    using assms(3)
    by (simp add: assms(4) Let_def split_beta tot_def p_def split: option.splits)
qed

lemma recordProgress_rejected:
  assumes "rp_chunkIndex req = None \<or> rp_itemsProcessed req = None \<or> rp_taskId req = []
           \<or> findIndex (\<lambda>t. t_id t = rp_taskId req) (tasks d) = None"
  shows "snd (recordProgress now d req) = d"
  using assms by (auto simp: recordProgress_def split: option.splits)

lemma storedResult_findIndex:
  "storedResult d tid ci =
     map_option (nth (chunkResults d))
       (findIndex (\<lambda>r. r_taskId r = tid \<and> r_chunkIndex r = Some ci) (chunkResults d))"
  by (simp add: storedResult_def find_findIndex)

lemma recordProgress_processed_mono:
  "processedOf d tid ci \<le> processedOf (snd (recordProgress now d req)) tid ci"
proof (cases "rp_chunkIndex req = None \<or> rp_itemsProcessed req = None \<or> rp_taskId req = []
           \<or> findIndex (\<lambda>t. t_id t = rp_taskId req) (tasks d) = None")
  case True
  then show ?thesis by (simp add: recordProgress_rejected)
next
  case False
  then obtain c ip ti where v: "rp_chunkIndex req = Some c" "rp_itemsProcessed req = Some ip"
    "rp_taskId req \<noteq> []" "findIndex (\<lambda>t. t_id t = rp_taskId req) (tasks d) = Some ti"
    by auto
  define tot where "tot = map_option floorNonNeg (rp_totalItems req)"
  define p where "p = (case tot of Some x \<Rightarrow> min (floorNonNeg ip) x | None \<Rightarrow> floorNonNeg ip)"
  let ?Q = "\<lambda>r. r_taskId r = rp_taskId req \<and> r_chunkIndex r = Some c"
  let ?P = "\<lambda>r. r_taskId r = tid \<and> r_chunkIndex r = Some ci"
  let ?xs = "chunkResults d"
  let ?d' = "snd (recordProgress now d req)"
  note res = recordProgress_results(1)[OF v, where now = now, folded tot_def, folded p_def]
  have p0: "0 \<le> p"
    using recordProgress_results(2)[OF v, folded tot_def, folded p_def] .
  show ?thesis
  proof (cases "findIndex ?Q ?xs")
    case (Some i)
    let ?e = "progressResult req tot p (?xs ! i)"
    have i: "i < length ?xs" using findIndex_Some[OF Some] by blast
    have xs': "chunkResults ?d' = ?xs[i := ?e]" using res Some by simp
    have same: "?P ?e = ?P (?xs ! i)" by (simp add: progressResult_fields)
    have fi: "findIndex ?P (?xs[i := ?e]) = findIndex ?P ?xs"
      using i same by (rule findIndex_update)
    show ?thesis
    proof (cases "findIndex ?P ?xs")
      case None
      then show ?thesis
        by (simp add: processedOf_def storedResult_findIndex xs' fi)
    next
      case (Some j)
      have "orZero (r_processedItems (?xs ! i)) \<le> orZero (r_processedItems ?e)"
        by (simp add: progressResult_fields orZero_def)
      then show ?thesis
        using i by (cases "j = i")
                   (simp_all add: processedOf_def storedResult_findIndex xs' fi Some)
    qed
  next
    case None
    let ?e = "progressResult req tot p (newProgressEntry req c tot p)"
    have xs': "chunkResults ?d' = ?xs @ [?e]" using res None by simp
    have pe: "orZero (r_processedItems ?e) = p"
      by (simp add: progressResult_fields newProgressEntry_def orZero_def)
    show ?thesis
    proof (cases "findIndex ?P ?xs")
      case None
      then show ?thesis
        using p0 pe
        by (simp add: processedOf_def storedResult_findIndex xs' findIndex_append nth_append)
    next
      case (Some j)
      have "j < length ?xs" using findIndex_Some[OF Some] by blast
      then show ?thesis
        by (simp add: processedOf_def storedResult_findIndex xs' findIndex_append Some nth_append)
    qed
  qed
qed

lemma runProgress_mono: "processedOf d tid ci \<le> processedOf (runProgress d steps) tid ci"
proof (induction steps arbitrary: d)
  case Nil
  then show ?case by (simp add: runProgress_def)
next
  case (Cons s steps)
  obtain now req where s: "s = (now, req)" by (cases s)
  have "processedOf d tid ci \<le> processedOf (snd (recordProgress now d req)) tid ci"
    by (rule recordProgress_processed_mono)
  also have "\<dots> \<le> processedOf (runProgress (snd (recordProgress now d req)) steps) tid ci"
    by (rule Cons.IH)
  finally show ?case by (simp add: runProgress_def s)
qed

lemma computeProgress_id: "t_id (computeProgress t rs) = t_id t"
  by (simp add: computeProgress_def Let_def)

lemma recordProgress_task_found:
  assumes "findIndex (\<lambda>t. t_id t = tid) (tasks d) = Some ti"
  shows "findIndex (\<lambda>t. t_id t = tid) (tasks (snd (recordProgress now d req))) = Some ti"
proof (cases "rp_chunkIndex req = None \<or> rp_itemsProcessed req = None \<or> rp_taskId req = []
           \<or> findIndex (\<lambda>t. t_id t = rp_taskId req) (tasks d) = None")
  case True
  then show ?thesis using assms by (simp add: recordProgress_rejected)
next
  case False
  then obtain c ip tj where v: "rp_chunkIndex req = Some c" "rp_itemsProcessed req = Some ip"
    "rp_taskId req \<noteq> []" "findIndex (\<lambda>t. t_id t = rp_taskId req) (tasks d) = Some tj"
    by auto
  have tj: "tj < length (tasks d)" using findIndex_Some[OF v(4)] by blast
  have "\<exists>rs. tasks (snd (recordProgress now d req))
               = (tasks d)[tj := computeProgress (tasks d ! tj) rs]"
    unfolding recordProgress_def v(1,2) prod.case option.case
    using v(3) by (simp add: v(4) Let_def split_beta) (rule exI, rule refl)
  then obtain rs where "tasks (snd (recordProgress now d req))
               = (tasks d)[tj := computeProgress (tasks d ! tj) rs]" ..
  then show ?thesis
    using assms tj by (simp add: findIndex_update computeProgress_id)
qed

lemma recordChunk_processedOf:
  assumes "rc_chunkIndex req = Some ci" "rc_taskId req \<noteq> []" "rc_status req \<noteq> []"
    and "findIndex (\<lambda>t. t_id t = rc_taskId req) (tasks d) = Some ti"
    and "storedResult d (rc_taskId req) ci = Some old"
  shows "processedOf (snd (recordChunk env nid nid' d req)) (rc_taskId req) ci =
           (case resolveItemsCount (rc_itemsCount req) (rc_rangeStart req) (rc_rangeEnd req)
                   (s_items (sanitizeItemResults (rc_itemResults req))) of
              Some n \<Rightarrow> n
            | None \<Rightarrow> of_nat (length (s_items (sanitizeItemResults (rc_itemResults req)))))"
proof -
  let ?P = "\<lambda>r. r_taskId r = rc_taskId req \<and> r_chunkIndex r = Some ci"
  let ?rs = "dedupResults (rc_taskId req) ci
              (normalizeRange (rc_rangeStart req) (rc_rangeEnd req) (rc_itemsCount req) (Some ci))
              (chunkResults d)"
  have "find ?P ?rs = find ?P (chunkResults d)"
    unfolding dedupResults_def by (rule find_filter_keep) simp
  then have "find ?P ?rs = Some old" using assms(5) by (simp add: storedResult_def)
  from findIndex_find_Some[OF this]
  obtain ei where ei: "findIndex ?P ?rs = Some ei" by (elim exE conjE)
  note ex = recordChunk_existing[OF assms(1-4) ei, of env nid nid']
  let ?d' = "snd (recordChunk env nid nid' d req)"
  let ?r' = "chunkResults ?d' ! ei"
  have "find ?P (chunkResults ?d') = find ?P (?rs[ei := ?r'])"
    by (rule arg_cong[OF ex(3)[symmetric]])
  also have "\<dots> = Some ?r'"
    using ei ex(4,5) by (intro find_update_first) auto
  finally have st: "storedResult ?d' (rc_taskId req) ci = Some ?r'"
    by (simp add: storedResult_def)
  show ?thesis
    unfolding processedOf_def st option.case ex(9)
    by (simp add: orZero_def split: option.splits)
qed

text \<open>Claim C6, amended. Across every sequence of record-progress calls the stored
  \<open>processedItems\<close> of a bucket never decreases. The terminal record-chunk call that follows,
  for a bucket that has a stored result, does not take a maximum: it sets \<open>processedItems\<close> to
  the resolved items count of the request (its \<open>itemsCount\<close>, else
  \<open>rangeEnd - rangeStart\<close>, else the number of sanitised items when there are any), and to the
  number of sanitised items when no count is resolved.\<close>

theorem processedItems_monotone_under_progress:
  "processedOf d tid ci \<le> processedOf (runProgress d steps) tid ci
   \<and> (rc_chunkIndex req = Some c \<and> rc_taskId req \<noteq> [] \<and> rc_status req \<noteq> []
        \<and> findIndex (\<lambda>t. t_id t = rc_taskId req) (tasks (runProgress d steps)) = Some ti
        \<and> storedResult (runProgress d steps) (rc_taskId req) c = Some old
      \<longrightarrow> processedOf (snd (recordChunk env nid nid' (runProgress d steps) req)) (rc_taskId req) c
            = (case resolveItemsCount (rc_itemsCount req) (rc_rangeStart req) (rc_rangeEnd req)
                      (s_items (sanitizeItemResults (rc_itemResults req))) of
                 Some n \<Rightarrow> n
               | None \<Rightarrow> of_nat (length (s_items (sanitizeItemResults (rc_itemResults req))))))"
  using runProgress_mono[of d tid ci steps] recordChunk_processedOf[of req c "runProgress d steps" ti old]
  by blast

lemma dbC_task: "findIndex (\<lambda>t. t_id t = ''t1'') (tasks dbC) = Some 0"
  by (simp add: dbC_def dbB_def taskA_def)

lemma dbC_progress:
  "findIndex (\<lambda>t. t_id t = ''t1'') (tasks (runProgress dbC [(5000, progressB)])) = Some 0"
  "\<exists>e. storedResult (runProgress dbC [(5000, progressB)]) ''t1'' 0 = Some e"
  "processedOf (runProgress dbC [(5000, progressB)]) ''t1'' 0 = 2"
proof -
  have v: "rp_chunkIndex progressB = Some 0" "rp_itemsProcessed progressB = Some 2"
    "rp_taskId progressB \<noteq> []"
    "findIndex (\<lambda>t. t_id t = rp_taskId progressB) (tasks dbC) = Some 0"
    using dbC_task by (simp_all add: progressB_def)
  have run: "runProgress dbC [(5000, progressB)] = snd (recordProgress 5000 dbC progressB)"
    by (simp add: runProgress_def)
  show "findIndex (\<lambda>t. t_id t = ''t1'') (tasks (runProgress dbC [(5000, progressB)])) = Some 0"
    unfolding run using dbC_task by (rule recordProgress_task_found)
  have p: "(case map_option floorNonNeg (rp_totalItems progressB) of
              Some x \<Rightarrow> min (floorNonNeg 2) x | None \<Rightarrow> floorNonNeg 2) = 2"
    by (simp add: progressB_def floorNonNeg_def Math_floor_def)
  have rs: "chunkResults (snd (recordProgress 5000 dbC progressB)) =
      [progressResult progressB (map_option floorNonNeg (rp_totalItems progressB)) 2
         (newProgressEntry progressB 0 (map_option floorNonNeg (rp_totalItems progressB)) 2)]"
    unfolding recordProgress_results(1)[OF v] p by (simp add: dbC_def)
  have st: "storedResult (runProgress dbC [(5000, progressB)]) ''t1'' 0 =
      Some (progressResult progressB (map_option floorNonNeg (rp_totalItems progressB)) 2
         (newProgressEntry progressB 0 (map_option floorNonNeg (rp_totalItems progressB)) 2))"
    unfolding run storedResult_def rs
    by (simp add: progressResult_fields newProgressEntry_def progressB_def)
  then show "\<exists>e. storedResult (runProgress dbC [(5000, progressB)]) ''t1'' 0 = Some e" by blast
  show "processedOf (runProgress dbC [(5000, progressB)]) ''t1'' 0 = 2"
    unfolding processedOf_def st
    by (simp add: progressResult_fields newProgressEntry_def orZero_def)
qed

text \<open>Claim C6 as stated fails. A progress call reports two items for bucket 0; the terminal
  call for that bucket then carries no count, no range and no items, and the stored
  \<open>processedItems\<close> drops from 2 to 0.\<close>

theorem terminal_update_lowers_processedItems_counterexample:
  "processedOf (runProgress dbC [(5000, progressB)]) ''t1'' 0 = 2
   \<and> processedOf (snd (recordChunk envA ''n1'' ''n2'' (runProgress dbC [(5000, progressB)])
                         terminalBare)) ''t1'' 0 = 0
   \<and> \<not> processedOf (runProgress dbC [(5000, progressB)]) ''t1'' 0
        \<le> processedOf (snd (recordChunk envA ''n1'' ''n2'' (runProgress dbC [(5000, progressB)])
                               terminalBare)) ''t1'' 0"
proof -
  obtain e where e: "storedResult (runProgress dbC [(5000, progressB)]) ''t1'' 0 = Some e"
    using dbC_progress(2) by blast
  have b: "rc_chunkIndex terminalBare = Some 0" "rc_taskId terminalBare \<noteq> []"
    "rc_status terminalBare \<noteq> []" "rc_taskId terminalBare = ''t1''"
    by (simp_all add: terminalBare_def terminalB_def)
  have n: "resolveItemsCount (rc_itemsCount terminalBare) (rc_rangeStart terminalBare)
             (rc_rangeEnd terminalBare) (s_items (sanitizeItemResults (rc_itemResults terminalBare)))
           = None"
    "s_items (sanitizeItemResults (rc_itemResults terminalBare)) = []"
    by (simp_all add: terminalBare_def terminalB_def resolveItemsCount_def sanitizeItemResults_def)
  have "processedOf (snd (recordChunk envA ''n1'' ''n2'' (runProgress dbC [(5000, progressB)])
                         terminalBare)) (rc_taskId terminalBare) 0 = 0"
    using recordChunk_processedOf[OF b(1-3) dbC_progress(1)[folded b(4)] e[folded b(4)],
            of envA "''n1''" "''n2''"] n
    by simp
  then show ?thesis using dbC_progress(3) by (simp add: b(4))
qed

text \<open>Witness for C6: after the same progress call, a terminal call carrying the count 3 leaves
  \<open>processedItems\<close> at 3.\<close>

theorem processedItems_monotone_under_progress_witness:
  "rc_chunkIndex terminalB = Some 0 \<and> rc_taskId terminalB \<noteq> [] \<and> rc_status terminalB \<noteq> []
   \<and> findIndex (\<lambda>t. t_id t = rc_taskId terminalB) (tasks (runProgress dbC [(5000, progressB)]))
       = Some 0
   \<and> (\<exists>old. storedResult (runProgress dbC [(5000, progressB)]) (rc_taskId terminalB) 0 = Some old)
   \<and> processedOf dbC ''t1'' 0 = 0
   \<and> processedOf (runProgress dbC [(5000, progressB)]) ''t1'' 0 = 2
   \<and> processedOf (snd (recordChunk envA ''n1'' ''n2'' (runProgress dbC [(5000, progressB)])
                         terminalB)) (rc_taskId terminalB) 0 = 3"
proof -
  obtain e where e: "storedResult (runProgress dbC [(5000, progressB)]) ''t1'' 0 = Some e"
    using dbC_progress(2) by blast
  have b: "rc_chunkIndex terminalB = Some 0" "rc_taskId terminalB \<noteq> []"
    "rc_status terminalB \<noteq> []" "rc_taskId terminalB = ''t1''"
    by (simp_all add: terminalB_def)
  have t: "findIndex (\<lambda>t. t_id t = rc_taskId terminalB) (tasks (runProgress dbC [(5000, progressB)]))
       = Some 0"
    using dbC_progress(1) by (simp add: b(4))
  have s: "storedResult (runProgress dbC [(5000, progressB)]) (rc_taskId terminalB) 0 = Some e"
    using e by (simp add: b(4))
  have n: "resolveItemsCount (rc_itemsCount terminalB) (rc_rangeStart terminalB)
             (rc_rangeEnd terminalB) (s_items (sanitizeItemResults (rc_itemResults terminalB)))
           = Some 3"
    by (simp add: terminalB_def resolveItemsCount_def)
  have z: "processedOf dbC ''t1'' 0 = 0"
    by (simp add: processedOf_def storedResult_def dbC_def)
  from processedItems_monotone_under_progress[of dbC "''t1''" 0 "[(5000, progressB)]" terminalB 0 0 e
         envA "''n1''" "''n2''"]
  have "processedOf (snd (recordChunk envA ''n1'' ''n2'' (runProgress dbC [(5000, progressB)])
                         terminalB)) (rc_taskId terminalB) 0 = 3"
    using b(1-3) t s unfolding n by simp
  then show ?thesis using b(1-3) t s z dbC_progress(3) by blast
qed

subsection \<open>Resuming a lease in \<^verbatim>\<open>next-chunk\<close>\<close>

lemma resumeScan_kept:
  "fst (resumeScan rs tid wid xs) = filter (\<lambda>e. \<not> settledLease rs tid wid e) xs"
  by (induction xs)
     (auto simp: settledLease_def Let_def split_beta split: option.splits)

lemma resumeScan_none:
  "snd (resumeScan rs tid wid xs) = None \<longleftrightarrow> (\<forall>e\<in>set xs. \<not> resumable rs tid wid e)"
  by (induction xs)
     (auto simp: resumable_def Let_def split_beta split: option.splits)

lemma resumeScan_some:
  "snd (resumeScan rs tid wid xs) = Some j \<Longrightarrow>
     j < length (fst (resumeScan rs tid wid xs))
     \<and> resumable rs tid wid (fst (resumeScan rs tid wid xs) ! j)
     \<and> (\<forall>e\<in>set xs. resumable rs tid wid e
           \<longrightarrow> assignedTime (fst (resumeScan rs tid wid xs) ! j) \<le> assignedTime e)"
proof (induction xs arbitrary: j)
  case Nil
  then show ?case by simp
next
  case (Cons x xs)
  let ?r = "resumeScan rs tid wid xs"
  show ?case
  proof (cases "a_taskId x = tid \<and> a_workerId x = wid")
    case False
    then have nr: "\<not> resumable rs tid wid x" by (auto simp: resumable_def)
    from False Cons.prems obtain k where k: "snd ?r = Some k" "j = Suc k"
      by (auto simp: Let_def split_beta split: if_splits)
    have f: "fst (resumeScan rs tid wid (x # xs)) = x # fst ?r"
      using False by (auto simp: Let_def split_beta)
    from Cons.IH[OF k(1)] show ?thesis
      unfolding f k(2) using nr by simp
  next
    case pair: True
    show ?thesis
    proof (cases "relatedResultFinished rs tid x")
      case True
      then have nr: "\<not> resumable rs tid wid x" by (simp add: resumable_def)
      have f: "resumeScan rs tid wid (x # xs) = ?r"
        using pair True by (simp add: Let_def split_beta)
      from Cons.prems[unfolded f] have "snd ?r = Some j" .
      from Cons.IH[OF this] show ?thesis
        unfolding f using nr by simp
    next
      case False
      then have rx: "resumable rs tid wid x" using pair by (simp add: resumable_def)
      have f: "fst (resumeScan rs tid wid (x # xs)) = x # fst ?r"
        using pair False by (simp add: Let_def split_beta split: option.splits)
      show ?thesis
      proof (cases "snd ?r")
        case None
        then have none: "\<forall>e\<in>set xs. \<not> resumable rs tid wid e"
          by (simp add: resumeScan_none)
        have "snd (resumeScan rs tid wid (x # xs)) = Some 0"
          using pair False None by (simp add: Let_def split_beta)
        with Cons.prems have j: "j = 0" by simp
        show ?thesis unfolding f j using rx none by simp
      next
        case (Some k)
        note ih = Cons.IH[OF Some]
        show ?thesis
        proof (cases "assignedTime x < assignedTime (fst ?r ! k)")
          case True
          have "snd (resumeScan rs tid wid (x # xs)) = Some 0"
            using pair False Some True by (simp add: Let_def split_beta)
          with Cons.prems have j: "j = 0" by simp
          show ?thesis unfolding f j using rx ih True by fastforce
        next
          case notless: False
          have "snd (resumeScan rs tid wid (x # xs)) = Some (Suc k)"
            using pair False Some notless by (simp add: Let_def split_beta)
          with Cons.prems have j: "j = Suc k" by simp
          show ?thesis unfolding f j using rx ih notless by fastforce
        qed
      qed
    qed
  qed
qed

lemma resumeGrant_fields:
  "g_resume (resumeGrant e items t)"
  "a_chunkIndex e = Some c \<Longrightarrow> g_chunkIndex (resumeGrant e items t) = c"
  "a_rangeStart e = Some s \<Longrightarrow> a_rangeEnd e = Some f \<Longrightarrow> 0 \<le> s \<Longrightarrow> s < f
     \<Longrightarrow> f \<le> of_nat (length items)
     \<Longrightarrow> g_rangeStart (resumeGrant e items t) = Some s
         \<and> g_rangeEnd (resumeGrant e items t) = Some f"
  by (simp_all add: resumeGrant_def Let_def assignmentRange_def normalizeRange_def)

lemma nextChunk_resume:
  assumes "taskId \<noteq> []" "workerId \<noteq> []"
    and "findIndex (\<lambda>t. t_id t = taskId) (tasks d) = Some ti"
    and "\<not> t_revoked (tasks d ! ti)"
    and "workerId \<in> set (t_assignedWorkers (tasks d ! ti))"
    and "t_dataItems (tasks d ! ti) \<noteq> []"
    and "snd (resumeScan (chunkResults d) taskId workerId
               (sweepExpiredAssignments now (chunkAssignments d) taskId)) = Some ei"
  defines "kept \<equiv> fst (resumeScan (chunkResults d) taskId workerId
               (sweepExpiredAssignments now (chunkAssignments d) taskId))"
  shows "\<exists>t'. fst (nextChunk env now d taskId workerId)
           = NextChunkOk (resumeGrant (kept ! ei) (t_dataItems (tasks d ! ti)) t')"
    and "chunkAssignments (snd (nextChunk env now d taskId workerId))
           = kept[ei := (kept ! ei)\<lparr> a_expiresAt := Some (now + BUCKET_TIMEOUT_MS),
                                   a_workerId := (if a_workerId (kept ! ei) = [] then workerId
                                                  else a_workerId (kept ! ei)) \<rparr>]"
proof -
  have id: "t_id (tasks d ! ti) = taskId" using findIndex_Some[OF assms(3)] by simp
  obtain k where sc: "resumeScan (chunkResults d) taskId workerId
               (sweepExpiredAssignments now (chunkAssignments d) taskId) = (k, Some ei)"
    using assms(7) by (cases "resumeScan (chunkResults d) taskId workerId
               (sweepExpiredAssignments now (chunkAssignments d) taskId)") simp
  have kk: "kept = k" by (simp add: kept_def sc)
  obtain m t1 where eb: "ensureBucketConfig
       ((tasks d ! ti)\<lparr>t_totalItems := Some (of_nat (length (t_dataItems (tasks d ! ti))))\<rparr>)
       (t_dataItems (tasks d ! ti)) = (m, t1)"
    by (cases "ensureBucketConfig
       ((tasks d ! ti)\<lparr>t_totalItems := Some (of_nat (length (t_dataItems (tasks d ! ti))))\<rparr>)
       (t_dataItems (tasks d ! ti))") simp
  have eq: "nextChunk env now d taskId workerId =
      (NextChunkOk (resumeGrant (k ! ei) (t_dataItems (tasks d ! ti)) t1),
       d\<lparr> tasks := (tasks d)[ti := t1],
          chunkAssignments := k[ei := (k ! ei)\<lparr> a_expiresAt := Some (now + BUCKET_TIMEOUT_MS),
                                   a_workerId := (if a_workerId (k ! ei) = [] then workerId
                                                  else a_workerId (k ! ei)) \<rparr>] \<rparr>)"
    unfolding nextChunk_def
    using assms(1,2,4,5,6)
    by (simp add: assms(3) id sc eb Let_def)
  show "\<exists>t'. fst (nextChunk env now d taskId workerId)
           = NextChunkOk (resumeGrant (kept ! ei) (t_dataItems (tasks d ! ti)) t')"
    unfolding eq kk by (rule exI[of _ t1]) simp
  show "chunkAssignments (snd (nextChunk env now d taskId workerId))
           = kept[ei := (kept ! ei)\<lparr> a_expiresAt := Some (now + BUCKET_TIMEOUT_MS),
                                   a_workerId := (if a_workerId (kept ! ei) = [] then workerId
                                                  else a_workerId (kept ! ei)) \<rparr>]"
    unfolding eq kk by simp
qed

text \<open>Claim C4, amended. When \<^verbatim>\<open>next-chunk\<close> is called for an assigned worker of a task
  with data items and, after the sweep of expired leases, the pair has a lease whose bucket has
  no terminal result, the call answers with such a lease of minimal \<open>assignedAt\<close>, with
  \<open>resume = true\<close>, the lease's bucket index and, when the lease's range lies within the items,
  that range; its expiry is renewed. Of the other leases only those of the pair whose bucket has
  a terminal result are removed from the collection: every other lease, of the pair or not,
  stays.\<close>

theorem nextChunk_resumes_oldest_lease:
  assumes "taskId \<noteq> []" "workerId \<noteq> []"
    and "findIndex (\<lambda>t. t_id t = taskId) (tasks d) = Some ti"
    and "\<not> t_revoked (tasks d ! ti)"
    and "workerId \<in> set (t_assignedWorkers (tasks d ! ti))"
    and "t_dataItems (tasks d ! ti) \<noteq> []"
    and "list_ex (resumable (chunkResults d) taskId workerId)
           (sweepExpiredAssignments now (chunkAssignments d) taskId)"
  defines "swept \<equiv> sweepExpiredAssignments now (chunkAssignments d) taskId"
  defines "kept \<equiv> filter (\<lambda>e. \<not> settledLease (chunkResults d) taskId workerId e) swept"
  shows "\<exists>ei g. ei < length kept
           \<and> resumable (chunkResults d) taskId workerId (kept ! ei)
           \<and> (\<forall>e\<in>set swept. resumable (chunkResults d) taskId workerId e
                 \<longrightarrow> assignedTime (kept ! ei) \<le> assignedTime e)
           \<and> fst (nextChunk env now d taskId workerId) = NextChunkOk g
           \<and> g_resume g
           \<and> (\<forall>c. a_chunkIndex (kept ! ei) = Some c \<longrightarrow> g_chunkIndex g = c)
           \<and> (\<forall>s f. a_rangeStart (kept ! ei) = Some s \<and> a_rangeEnd (kept ! ei) = Some f
                       \<and> 0 \<le> s \<and> s < f \<and> f \<le> of_nat (length (t_dataItems (tasks d ! ti)))
                 \<longrightarrow> g_rangeStart g = Some s \<and> g_rangeEnd g = Some f)
           \<and> chunkAssignments (snd (nextChunk env now d taskId workerId))
               = kept[ei := (kept ! ei)\<lparr>a_expiresAt := Some (now + BUCKET_TIMEOUT_MS)\<rparr>]"
proof -
  let ?scan = "resumeScan (chunkResults d) taskId workerId swept"
  have k: "fst ?scan = kept" by (simp add: kept_def resumeScan_kept)
  have "snd ?scan \<noteq> None"
    using assms(7) by (simp add: resumeScan_none swept_def list_ex_iff)
  then obtain ei where ei: "snd ?scan = Some ei" by blast
  note sc = resumeScan_some[OF ei, unfolded k]
  have w: "a_workerId (kept ! ei) \<noteq> []"
    using sc assms(2) by (simp add: resumable_def)
  from nextChunk_resume(1)[OF assms(1-6) ei[unfolded swept_def], of env, folded swept_def, unfolded k]
  obtain t' where g: "fst (nextChunk env now d taskId workerId)
      = NextChunkOk (resumeGrant (kept ! ei) (t_dataItems (tasks d ! ti)) t')" ..
  have a: "chunkAssignments (snd (nextChunk env now d taskId workerId))
               = kept[ei := (kept ! ei)\<lparr>a_expiresAt := Some (now + BUCKET_TIMEOUT_MS)\<rparr>]"
    using nextChunk_resume(2)[OF assms(1-6) ei[unfolded swept_def], of env, folded swept_def,
            unfolded k] w
    by simp
  let ?g = "resumeGrant (kept ! ei) (t_dataItems (tasks d ! ti)) t'"
  have c: "\<forall>c. a_chunkIndex (kept ! ei) = Some c \<longrightarrow> g_chunkIndex ?g = c"
    by (simp add: resumeGrant_fields(2))
  have r: "\<forall>s f. a_rangeStart (kept ! ei) = Some s \<and> a_rangeEnd (kept ! ei) = Some f
                       \<and> 0 \<le> s \<and> s < f \<and> f \<le> of_nat (length (t_dataItems (tasks d ! ti)))
                 \<longrightarrow> g_rangeStart ?g = Some s \<and> g_rangeEnd ?g = Some f"
    using resumeGrant_fields(3)[of "kept ! ei" _ _ "t_dataItems (tasks d ! ti)" t'] by blast
  show ?thesis
    apply (rule exI[of _ ei])
    apply (rule exI[of _ ?g])
    apply (intro conjI)
           apply (rule sc[THEN conjunct1])
          apply (rule sc[THEN conjunct2, THEN conjunct1])
         apply (rule sc[THEN conjunct2, THEN conjunct2])
        apply (rule g)
       apply (rule resumeGrant_fields(1))
      apply (rule c)
     apply (rule r)
    apply (rule a)
    done
qed

lemma dbB_sweep: "sweepExpiredAssignments 5000 (chunkAssignments dbB) ''t1'' = [leaseB0, leaseB1]"
  by (simp add: sweepExpiredAssignments_def dbB_def leaseB0_def leaseB1_def)

lemma dbB_unfinished:
  "\<not> relatedResultFinished (chunkResults dbB) ''t1'' leaseB0"
  "\<not> relatedResultFinished (chunkResults dbB) ''t1'' leaseB1"
  by (simp_all add: relatedResultFinished_def dbB_def resultB0_def resultA_def leaseB0_def
        leaseB1_def finishedStatus_def)

lemma dbB_leases:
  "a_taskId leaseB0 = ''t1''" "a_workerId leaseB0 = ''w1''"
  "a_taskId leaseB1 = ''t1''" "a_workerId leaseB1 = ''w1''"
  "assignedTime leaseB0 = 1000" "assignedTime leaseB1 = 2000"
  by (simp_all add: leaseB0_def leaseB1_def assignedTime_def)

lemma dbB_scan:
  "resumeScan (chunkResults dbB) ''t1'' ''w1'' [leaseB0, leaseB1] = ([leaseB0, leaseB1], Some 0)"
  by (simp add: dbB_unfinished dbB_leases Let_def)

lemma dbB_request:
  "findIndex (\<lambda>t. t_id t = ''t1'') (tasks dbB) = Some 0"
  "\<not> t_revoked (tasks dbB ! 0)"
  "''w1'' \<in> set (t_assignedWorkers (tasks dbB ! 0))"
  "t_dataItems (tasks dbB ! 0) \<noteq> []"
  "length (t_dataItems (tasks dbB ! 0)) = 4"
  by (simp_all add: dbB_def taskA_def)

text \<open>Claim C4 as stated fails. The pair holds the unexpired leases of buckets 0 and 1, neither
  with a terminal result; the call resumes bucket 0 and leaves the lease of bucket 1 in the
  collection, so the pair still owns two leases.\<close>

theorem second_lease_kept_counterexample:
  "map_option g_resume (grantOf (fst (nextChunk envA 5000 dbB ''t1'' ''w1''))) = Some True
   \<and> map_option g_chunkIndex (grantOf (fst (nextChunk envA 5000 dbB ''t1'' ''w1''))) = Some 0
   \<and> pairLeases ''t1'' ''w1'' (chunkAssignments (snd (nextChunk envA 5000 dbB ''t1'' ''w1'')))
       = [leaseB0\<lparr>a_expiresAt := Some 1205000\<rparr>, leaseB1]
   \<and> \<not> length (pairLeases ''t1'' ''w1''
                  (chunkAssignments (snd (nextChunk envA 5000 dbB ''t1'' ''w1'')))) \<le> 1"
proof -
  have ei: "snd (resumeScan (chunkResults dbB) ''t1'' ''w1''
               (sweepExpiredAssignments 5000 (chunkAssignments dbB) ''t1'')) = Some 0"
    by (simp only: dbB_sweep dbB_scan snd_conv)
  have k: "fst (resumeScan (chunkResults dbB) ''t1'' ''w1''
               (sweepExpiredAssignments 5000 (chunkAssignments dbB) ''t1'')) = [leaseB0, leaseB1]"
    by (simp only: dbB_sweep dbB_scan fst_conv)
  have ids: "''t1'' \<noteq> []" "''w1'' \<noteq> []" by simp_all
  from nextChunk_resume(1)[OF ids dbB_request(1-4) ei, of envA, unfolded k]
  obtain t' where g: "fst (nextChunk envA 5000 dbB ''t1'' ''w1'')
      = NextChunkOk (resumeGrant leaseB0 (t_dataItems (tasks dbB ! 0)) t')"
    by auto
  have a: "chunkAssignments (snd (nextChunk envA 5000 dbB ''t1'' ''w1''))
             = [leaseB0\<lparr>a_expiresAt := Some 1205000\<rparr>, leaseB1]"
    using nextChunk_resume(2)[OF ids dbB_request(1-4) ei, of envA, unfolded k]
    by (simp add: dbB_leases BUCKET_TIMEOUT_MS_def)
  have c: "g_chunkIndex (resumeGrant leaseB0 (t_dataItems (tasks dbB ! 0)) t') = 0"
    by (rule resumeGrant_fields(2)) (simp add: leaseB0_def)
  show ?thesis
    unfolding a g
    by (simp add: grantOf_def resumeGrant_fields(1) c pairLeases_def dbB_leases)
qed

text \<open>Witness for C4: on the same store the call resumes bucket 0 with its range \<open>[0, 2)\<close> and
  renews its expiry.\<close>

theorem nextChunk_resumes_oldest_lease_witness:
  "''t1'' \<noteq> [] \<and> ''w1'' \<noteq> []
   \<and> findIndex (\<lambda>t. t_id t = ''t1'') (tasks dbB) = Some 0
   \<and> \<not> t_revoked (tasks dbB ! 0)
   \<and> ''w1'' \<in> set (t_assignedWorkers (tasks dbB ! 0))
   \<and> t_dataItems (tasks dbB ! 0) \<noteq> []
   \<and> list_ex (resumable (chunkResults dbB) ''t1'' ''w1'')
        (sweepExpiredAssignments 5000 (chunkAssignments dbB) ''t1'')
   \<and> (\<exists>g. fst (nextChunk envA 5000 dbB ''t1'' ''w1'') = NextChunkOk g
          \<and> g_resume g \<and> g_chunkIndex g = 0
          \<and> g_rangeStart g = Some 0 \<and> g_rangeEnd g = Some 2)
   \<and> chunkAssignments (snd (nextChunk envA 5000 dbB ''t1'' ''w1''))
       = [leaseB0\<lparr>a_expiresAt := Some 1205000\<rparr>, leaseB1]"
proof -
  have ids: "''t1'' \<noteq> []" "''w1'' \<noteq> []" by simp_all
  have r0: "resumable (chunkResults dbB) ''t1'' ''w1'' leaseB0"
    and r1: "resumable (chunkResults dbB) ''t1'' ''w1'' leaseB1"
    by (simp_all add: resumable_def dbB_leases dbB_unfinished)
  have h: "list_ex (resumable (chunkResults dbB) ''t1'' ''w1'')
        (sweepExpiredAssignments 5000 (chunkAssignments dbB) ''t1'')"
    by (simp add: dbB_sweep r0)
  have kept: "filter (\<lambda>e. \<not> settledLease (chunkResults dbB) ''t1'' ''w1'' e)
                [leaseB0, leaseB1] = [leaseB0, leaseB1]"
    by (simp add: settledLease_def dbB_unfinished)
  from nextChunk_resumes_oldest_lease[OF ids dbB_request(1-4) h, of envA, unfolded dbB_sweep kept]
  obtain ei g where
    ei: "ei < length [leaseB0, leaseB1]"
    and mn: "\<forall>e\<in>set [leaseB0, leaseB1]. resumable (chunkResults dbB) ''t1'' ''w1'' e
                 \<longrightarrow> assignedTime ([leaseB0, leaseB1] ! ei) \<le> assignedTime e"
    and g: "fst (nextChunk envA 5000 dbB ''t1'' ''w1'') = NextChunkOk g" "g_resume g"
    and c: "\<forall>c. a_chunkIndex ([leaseB0, leaseB1] ! ei) = Some c \<longrightarrow> g_chunkIndex g = c"
    and r: "\<forall>s f. a_rangeStart ([leaseB0, leaseB1] ! ei) = Some s
                   \<and> a_rangeEnd ([leaseB0, leaseB1] ! ei) = Some f
                   \<and> 0 \<le> s \<and> s < f \<and> f \<le> of_nat (length (t_dataItems (tasks dbB ! 0)))
                 \<longrightarrow> g_rangeStart g = Some s \<and> g_rangeEnd g = Some f"
    and a: "chunkAssignments (snd (nextChunk envA 5000 dbB ''t1'' ''w1''))
               = [leaseB0, leaseB1][ei := ([leaseB0, leaseB1] ! ei)
                    \<lparr>a_expiresAt := Some (5000 + BUCKET_TIMEOUT_MS)\<rparr>]"
    by (elim exE conjE)
  have "ei = 0 \<or> ei = 1" using ei by auto
  moreover have "ei \<noteq> 1"
  proof
    assume "ei = 1"
    with mn r0 have "assignedTime leaseB1 \<le> assignedTime leaseB0" by simp
    then show False by (simp add: dbB_leases)
  qed
  ultimately have z: "ei = 0" by blast
  have ci: "g_chunkIndex g = 0" using c unfolding z by (simp add: leaseB0_def)
  have rg: "g_rangeStart g = Some 0 \<and> g_rangeEnd g = Some 2"
    using r[unfolded z, rule_format, of 0 2] by (simp add: leaseB0_def dbB_request(5))
  have as: "chunkAssignments (snd (nextChunk envA 5000 dbB ''t1'' ''w1''))
       = [leaseB0\<lparr>a_expiresAt := Some 1205000\<rparr>, leaseB1]"
    using a unfolding z by (simp add: BUCKET_TIMEOUT_MS_def)
  have ex: "\<exists>g. fst (nextChunk envA 5000 dbB ''t1'' ''w1'') = NextChunkOk g
          \<and> g_resume g \<and> g_chunkIndex g = 0
          \<and> g_rangeStart g = Some 0 \<and> g_rangeEnd g = Some 2"
    using g ci rg by blast
  show ?thesis
    apply (intro conjI)
    apply (rule ids dbB_request h ex as)+
    done
qed

section \<open>C2: payouts and retried terminal updates\<close>

















subsection \<open>C2: the settler is idempotent and selective\<close>




section \<open>C10: the status of a stored item\<close>

lemma sanitizeItemResults_length:
  "length (s_items (sanitizeItemResults (Some xs))) = min (length xs) MAX_ITEM_RESULTS_STORED"
  by (simp add: sanitizeItemResults_def Let_def)

lemma sanitizeItemResults_nth:
  assumes "i < length (s_items (sanitizeItemResults (Some xs)))"
  shows "i < length xs \<and> i < MAX_ITEM_RESULTS_STORED
         \<and> s_items (sanitizeItemResults (Some xs)) ! i = sanitizeItem (xs ! i) i"
  using assms by (auto simp: sanitizeItemResults_def Let_def split: if_splits)

lemma sanitizeItem_status: "i_status (sanitizeItem item idx) = coerceStatus (rawStatus item)"
  by (simp add: sanitizeItem_def coerceStatus_def)

lemma sanitizeSingleItem_status:
  assumes "sanitizeSingleItem raw fb = Some it"
    and "fb_status fb = (if truthy (rawStatus raw) then rawStatus raw else JStr ''completed'')"
  shows "i_status it = coerceStatus (rawStatus raw)"
proof (cases raw)
  case (RawObject g l s)
  with assms show ?thesis
    by (auto simp: sanitizeSingleItem_def sanitizeItemResults_def sanitizeItem_def coerceStatus_def
          MAX_ITEM_RESULTS_STORED_def Let_def split: if_splits)
next
  case (RawPrimitive v)
  with assms show ?thesis by (simp add: sanitizeSingleItem_def)
qed

lemma batchItem_status:
  "batchItem req processed n raw idx = Some it \<Longrightarrow> i_status it = coerceStatus (rawStatus raw)"
  unfolding batchItem_def Let_def by (erule sanitizeSingleItem_status) simp

lemma batchItem_object:
  "batchItem req processed n raw idx \<noteq> None \<longleftrightarrow> (\<exists>g l s. raw = RawObject g l s)"
  by (cases raw)
     (simp_all add: batchItem_def sanitizeSingleItem_def sanitizeItemResults_def
        MAX_ITEM_RESULTS_STORED_def Let_def)

text \<open>One step of the loop over the batch, in terms of the item it stores.\<close>

lemma mergeItem_batchItem:
  "mergeItem req processed n stored (raw, idx) =
     (case batchItem req processed n raw idx of
        None \<Rightarrow> stored
      | Some sanitized \<Rightarrow>
          (case i_localIndex sanitized of
             Some localIdx \<Rightarrow>
               filter (\<lambda>existing. case i_localIndex existing of
                                    Some l \<Rightarrow> l \<noteq> localIdx | None \<Rightarrow> True) stored
               @ [sanitized]
           | None \<Rightarrow> stored @ [sanitized]))"
  unfolding mergeItem_def batchItem_def by (simp only: Let_def prod.case)

lemma mergeItem_sound:
  "it \<in> set (mergeItem req processed n stored (raw, idx))
     \<Longrightarrow> it \<in> set stored \<or> batchItem req processed n raw idx = Some it"
  unfolding mergeItem_batchItem by (auto split: option.splits)

lemma mergeItem_length:
  "length (mergeItem req processed n stored q) \<le> Suc (length stored)"
proof -
  obtain raw idx where q: "q = (raw, idx)" by (cases q)
  have "length (filter P stored) \<le> length stored" for P :: "itemResult \<Rightarrow> bool"
    by (rule length_filter_le)
  then show ?thesis
    unfolding q mergeItem_batchItem
    by (auto split: option.splits intro: le_SucI)
qed

lemma mergeItem_last:
  "batchItem req processed n raw idx = Some it
     \<Longrightarrow> it \<in> set (mergeItem req processed n stored (raw, idx))"
  unfolding mergeItem_batchItem by (auto split: option.splits)

lemma mergeItem_keeps:
  assumes "it \<in> set stored"
    and "\<And>it'. batchItem req processed n raw idx = Some it' \<Longrightarrow> i_localIndex it' \<noteq> i_localIndex it"
  shows "it \<in> set (mergeItem req processed n stored (raw, idx))"
proof (cases "batchItem req processed n raw idx")
  case None
  then show ?thesis using assms(1) by (simp add: mergeItem_batchItem)
next
  case (Some it')
  from assms(2)[OF Some] assms(1) show ?thesis
    unfolding mergeItem_batchItem Some
    by (cases "i_localIndex it'"; cases "i_localIndex it") auto
qed

lemma foldl_mergeItem_sound:
  "it \<in> set (foldl (mergeItem req processed n) stored ps)
     \<Longrightarrow> it \<in> set stored
         \<or> (\<exists>k < length ps. batchItem req processed n (fst (ps ! k)) (snd (ps ! k)) = Some it)"
proof (induction ps arbitrary: it rule: rev_induct)
  case Nil
  then show ?case by simp
next
  case (snoc q ps)
  obtain raw idx where q: "q = (raw, idx)" by (cases q)
  from snoc.prems
  have "it \<in> set (mergeItem req processed n (foldl (mergeItem req processed n) stored ps) (raw, idx))"
    by (simp add: q)
  from mergeItem_sound[OF this]
  show ?case
  proof
    assume "it \<in> set (foldl (mergeItem req processed n) stored ps)"
    from snoc.IH[OF this] show ?thesis
    proof
      assume "it \<in> set stored"
      then show ?thesis by simp
    next
      assume "\<exists>k < length ps. batchItem req processed n (fst (ps ! k)) (snd (ps ! k)) = Some it"
      then obtain k where k: "k < length ps"
        "batchItem req processed n (fst (ps ! k)) (snd (ps ! k)) = Some it" by blast
      have "k < length (ps @ [q])
            \<and> batchItem req processed n (fst ((ps @ [q]) ! k)) (snd ((ps @ [q]) ! k)) = Some it"
        using k by (simp add: nth_append)
      then show ?thesis by blast
    qed
  next
    assume "batchItem req processed n raw idx = Some it"
    then have "length ps < length (ps @ [q])
            \<and> batchItem req processed n (fst ((ps @ [q]) ! length ps))
                 (snd ((ps @ [q]) ! length ps)) = Some it"
      by (simp add: q)
    then show ?thesis by blast
  qed
qed

lemma foldl_mergeItem_complete:
  assumes "k < length ps"
    and "batchItem req processed n (fst (ps ! k)) (snd (ps ! k)) = Some it"
    and "\<And>j it'. k < j \<Longrightarrow> j < length ps
            \<Longrightarrow> batchItem req processed n (fst (ps ! j)) (snd (ps ! j)) = Some it'
            \<Longrightarrow> i_localIndex it' \<noteq> i_localIndex it"
  shows "it \<in> set (foldl (mergeItem req processed n) stored ps)"
  using assms
proof (induction ps rule: rev_induct)
  case Nil
  then show ?case by simp
next
  case (snoc q ps)
  obtain raw idx where q: "q = (raw, idx)" by (cases q)
  show ?case
  proof (cases "k = length ps")
    case True
    with snoc.prems(2) have "batchItem req processed n raw idx = Some it" by (simp add: q)
    from mergeItem_last[OF this] show ?thesis by (simp add: q)
  next
    case False
    with snoc.prems(1) have k: "k < length ps" by simp
    have b: "batchItem req processed n (fst (ps ! k)) (snd (ps ! k)) = Some it"
      using snoc.prems(2) k by (simp add: nth_append)
    have later: "i_localIndex it' \<noteq> i_localIndex it"
      if "k < j" "j < length ps"
        "batchItem req processed n (fst (ps ! j)) (snd (ps ! j)) = Some it'" for j it'
      using snoc.prems(3)[of j it'] that by (simp add: nth_append)
    have inner: "it \<in> set (foldl (mergeItem req processed n) stored ps)"
      using k b later by (rule snoc.IH)
    have lastq: "i_localIndex it' \<noteq> i_localIndex it"
      if "batchItem req processed n raw idx = Some it'" for it'
      using snoc.prems(3)[of "length ps" it'] k that by (simp add: q)
    from mergeItem_keeps[OF inner lastq] show ?thesis by (simp add: q)
  qed
qed

lemma foldl_mergeItem_length:
  "length (foldl (mergeItem req processed n) stored ps) \<le> length stored + length ps"
proof (induction ps rule: rev_induct)
  case Nil
  then show ?case by simp
next
  case (snoc q ps)
  have "length (foldl (mergeItem req processed n) stored (ps @ [q]))
          \<le> Suc (length (foldl (mergeItem req processed n) stored ps))"
    by (simp add: mergeItem_length)
  moreover have "length (ps @ [q]) = Suc (length ps)" by simp
  ultimately show ?case using snoc.IH by linarith
qed

lemma zip_upt_nth:
  "k < length b \<Longrightarrow> fst (zip b [0 ..< length b] ! k) = b ! k \<and> snd (zip b [0 ..< length b] ! k) = k"
  by simp

text \<open>What a progress batch leaves in the list of stored items.\<close>

lemma mergeBatch_sound:
  assumes "it \<in> set (mergeBatch req processed stored)"
  shows "it \<in> set stored
         \<or> (\<exists>k < length (rawBatchOf req).
               batchItem req processed (length (rawBatchOf req)) (rawBatchOf req ! k) k = Some it)"
proof -
  let ?b = "rawBatchOf req"
  let ?ps = "zip ?b [0 ..< length ?b]"
  let ?m = "foldl (mergeItem req processed (length ?b)) stored ?ps"
  from assms have "it \<in> set stored \<or> it \<in> set ?m"
    by (auto simp: mergeBatch_def Let_def dest: in_set_dropD split: if_splits)
  then show ?thesis
  proof
    assume "it \<in> set ?m"
    from foldl_mergeItem_sound[OF this]
    show ?thesis
    proof
      assume "\<exists>k < length ?ps.
                batchItem req processed (length ?b) (fst (?ps ! k)) (snd (?ps ! k)) = Some it"
      then obtain k where k: "k < length ?b"
        "batchItem req processed (length ?b) (fst (?ps ! k)) (snd (?ps ! k)) = Some it"
        by auto
      from k(2) have "batchItem req processed (length ?b) (?b ! k) k = Some it"
        using zip_upt_nth[OF k(1)] by simp
      with k(1) show ?thesis by blast
    qed simp
  qed simp
qed

lemma mergeBatch_complete:
  assumes k: "k < length (rawBatchOf req)"
    and b: "batchItem req processed (length (rawBatchOf req)) (rawBatchOf req ! k) k = Some it"
    and later: "\<And>j it'. k < j \<Longrightarrow> j < length (rawBatchOf req)
            \<Longrightarrow> batchItem req processed (length (rawBatchOf req)) (rawBatchOf req ! j) j = Some it'
            \<Longrightarrow> i_localIndex it' \<noteq> i_localIndex it"
    and room: "length stored + length (rawBatchOf req) \<le> MAX_ITEM_RESULTS_STORED"
  shows "it \<in> set (mergeBatch req processed stored)"
proof -
  let ?b = "rawBatchOf req"
  let ?ps = "zip ?b [0 ..< length ?b]"
  let ?m = "foldl (mergeItem req processed (length ?b)) stored ?ps"
  have k': "k < length ?ps" using k by simp
  have b': "batchItem req processed (length ?b) (fst (?ps ! k)) (snd (?ps ! k)) = Some it"
    using b zip_upt_nth[OF k] by simp
  have later': "i_localIndex it' \<noteq> i_localIndex it"
    if "k < j" "j < length ?ps"
      "batchItem req processed (length ?b) (fst (?ps ! j)) (snd (?ps ! j)) = Some it'" for j it'
  proof -
    from that(2) have j: "j < length ?b" by simp
    from that(3) have "batchItem req processed (length ?b) (?b ! j) j = Some it'"
      using zip_upt_nth[OF j] by simp
    from later[OF that(1) j this] show ?thesis .
  qed
  have m: "it \<in> set ?m" using k' b' later' by (rule foldl_mergeItem_complete)
  have "length ?m \<le> length stored + length ?ps" by (rule foldl_mergeItem_length)
  with room have len: "length ?m \<le> MAX_ITEM_RESULTS_STORED" by simp
  have pos: "0 < length ?b" using k by (cases ?b) simp_all
  have "mergeBatch req processed stored = sort_key sortKey ?m"
    using pos len by (simp add: mergeBatch_def Let_def)
  with m show ?thesis by simp
qed

lemma progressResult_items:
  "r_itemResults (progressResult req tot p r) = mergeBatch req p (r_itemResults r)"
  by (simp add: progressResult_def progressScalars_def Let_def)

text \<open>The stored result of the bucket after a progress call.\<close>

lemma recordProgress_stored_items:
  assumes v: "rp_chunkIndex req = Some ci" "rp_itemsProcessed req = Some ip" "rp_taskId req \<noteq> []"
    "findIndex (\<lambda>t. t_id t = rp_taskId req) (tasks d) = Some ti"
  defines "p \<equiv> (case map_option floorNonNeg (rp_totalItems req) of
                   Some x \<Rightarrow> min (floorNonNeg ip) x | None \<Rightarrow> floorNonNeg ip)"
  shows "\<exists>r'. storedResult (snd (recordProgress now d req)) (rp_taskId req) ci = Some r'
            \<and> r_itemResults r'
                = mergeBatch req p (case storedResult d (rp_taskId req) ci of
                                      Some r \<Rightarrow> r_itemResults r | None \<Rightarrow> [])"
proof -
  define tot where "tot = map_option floorNonNeg (rp_totalItems req)"
  have p: "p = (case tot of Some x \<Rightarrow> min (floorNonNeg ip) x | None \<Rightarrow> floorNonNeg ip)"
    by (simp add: p_def tot_def)
  let ?P = "\<lambda>r. r_taskId r = rp_taskId req \<and> r_chunkIndex r = Some ci"
  let ?xs = "chunkResults d"
  let ?d' = "snd (recordProgress now d req)"
  note res = recordProgress_results(1)[OF v, where now = now, folded tot_def, folded p]
  show ?thesis
  proof (cases "findIndex ?P ?xs")
    case (Some i)
    let ?e = "progressResult req tot p (?xs ! i)"
    have xs': "chunkResults ?d' = ?xs[i := ?e]" using res Some by simp
    have Pe: "?P ?e" using findIndex_Some[OF Some] by (simp add: progressResult_fields)
    have st': "storedResult ?d' (rp_taskId req) ci = Some ?e"
      unfolding storedResult_def xs' using Some Pe by (rule find_update_first)
    have st: "storedResult d (rp_taskId req) ci = Some (?xs ! i)"
      by (simp add: storedResult_findIndex Some)
    show ?thesis
      by (rule exI[of _ ?e]) (simp add: st' st progressResult_items)
  next
    case None
    let ?e = "progressResult req tot p (newProgressEntry req ci tot p)"
    have xs': "chunkResults ?d' = ?xs @ [?e]" using res None by simp
    have Pe: "?P ?e" by (simp add: progressResult_fields newProgressEntry_def)
    have st': "storedResult ?d' (rp_taskId req) ci = Some ?e"
      using Pe by (simp add: storedResult_findIndex xs' findIndex_append None)
    have st: "storedResult d (rp_taskId req) ci = None"
      by (simp add: storedResult_findIndex None)
    show ?thesis
      by (rule exI[of _ ?e]) (simp add: st' st progressResult_items newProgressEntry_def)
  qed
qed

text \<open>The stored result of the bucket after a terminal update.\<close>

lemma recordChunk_stored_items:
  assumes v: "rc_chunkIndex req = Some ci" "rc_taskId req \<noteq> []" "rc_status req \<noteq> []"
    and T: "findIndex (\<lambda>t. t_id t = rc_taskId req) (tasks d) = Some ti"
    and S: "storedResult d (rc_taskId req) ci = Some old"
  shows "\<exists>r'. storedResult (snd (recordChunk env nid nid' d req)) (rc_taskId req) ci = Some r'
            \<and> r_itemResults r' = s_items (sanitizeItemResults (rc_itemResults req))"
proof -
  let ?P = "\<lambda>r. r_taskId r = rc_taskId req \<and> r_chunkIndex r = Some ci"
  let ?rs = "dedupResults (rc_taskId req) ci
              (normalizeRange (rc_rangeStart req) (rc_rangeEnd req) (rc_itemsCount req) (Some ci))
              (chunkResults d)"
  let ?d' = "snd (recordChunk env nid nid' d req)"
  have "find ?P ?rs = find ?P (chunkResults d)"
    unfolding dedupResults_def by (rule find_filter_keep) simp
  then have "find ?P ?rs = Some old" using S by (simp add: storedResult_def)
  from findIndex_find_Some[OF this]
  obtain ei where ei: "findIndex ?P ?rs = Some ei" by (elim exE conjE)
  note ex = recordChunk_existing[OF v T ei, where env = env and nid = nid and nid' = nid']
  let ?r' = "chunkResults ?d' ! ei"
  have "find ?P (chunkResults ?d') = find ?P (?rs[ei := ?r'])"
    by (rule arg_cong[OF ex(3)[symmetric]])
  also have "\<dots> = Some ?r'"
    using ei ex(4,5) by (intro find_update_first) auto
  finally have st: "storedResult ?d' (rc_taskId req) ci = Some ?r'"
    by (simp add: storedResult_def)
  show ?thesis
    apply (rule exI[of _ ?r'])
    apply (intro conjI)
     apply (rule st)
    apply (rule ex(7))
    done
qed

text \<open>
  Claim C10.  Every item stored by a terminal bucket result has the status
  \<open>coerceStatus\<close> of the status submitted for it: \<^verbatim>\<open>sanitizeItemResults\<close> keeps the
  first 200 submitted items, in order, each with the coerced status of the item at its
  own index, and the terminal update of a bucket whose result is stored stores exactly
  that list.  A progress call that is accepted stores for its bucket the list
  \<^verbatim>\<open>mergeBatch\<close> makes of the items stored before (none when the bucket had no result)
  and the batch.  Every item of that list was stored before or is the sanitised form
  (\<^verbatim>\<open>sanitizeSingleItem\<close>, with the fallbacks of the call) of the item at some index
  \<open>k\<close> of the batch; the sanitised form of the item at index \<open>k\<close> has the coerced
  status of that very item, and exists exactly when the item is an object; and it is
  in the stored list whenever no later item of the batch has the same local index and
  the items stored before and the batch together do not exceed 200.  \<open>coerceStatus\<close>
  keeps exactly the strings \<open>failed\<close> and \<open>skipped\<close>; every other value, a missing one
  included, becomes \<open>completed\<close>.
\<close>

theorem item_status_coerced:
  "length (s_items (sanitizeItemResults (Some xs))) = min (length xs) MAX_ITEM_RESULTS_STORED
   \<and> (\<forall>i < length (s_items (sanitizeItemResults (Some xs))).
       i_status (s_items (sanitizeItemResults (Some xs)) ! i) = coerceStatus (rawStatus (xs ! i)))
   \<and> (rc_chunkIndex req = Some ci \<and> rc_taskId req \<noteq> [] \<and> rc_status req \<noteq> []
        \<and> findIndex (\<lambda>t. t_id t = rc_taskId req) (tasks d) = Some ti
        \<and> storedResult d (rc_taskId req) ci = Some old
      \<longrightarrow> (\<exists>r'. storedResult (snd (recordChunk env nid nid' d req)) (rc_taskId req) ci = Some r'
               \<and> r_itemResults r' = s_items (sanitizeItemResults (rc_itemResults req))))
   \<and> (rp_chunkIndex preq = Some pci \<and> rp_itemsProcessed preq = Some ip \<and> rp_taskId preq \<noteq> []
        \<and> findIndex (\<lambda>t. t_id t = rp_taskId preq) (tasks pd) = Some pti
      \<longrightarrow> (\<exists>r'. storedResult (snd (recordProgress now pd preq)) (rp_taskId preq) pci = Some r'
               \<and> r_itemResults r'
                   = mergeBatch preq
                       (case map_option floorNonNeg (rp_totalItems preq) of
                          Some x \<Rightarrow> min (floorNonNeg ip) x | None \<Rightarrow> floorNonNeg ip)
                       (case storedResult pd (rp_taskId preq) pci of
                          Some r \<Rightarrow> r_itemResults r | None \<Rightarrow> [])))
   \<and> (\<forall>it \<in> set (mergeBatch preq p stored).
         it \<in> set stored
         \<or> (\<exists>k < length (rawBatchOf preq).
               batchItem preq p (length (rawBatchOf preq)) (rawBatchOf preq ! k) k = Some it))
   \<and> (\<forall>k < length (rawBatchOf preq). \<forall>it.
         batchItem preq p (length (rawBatchOf preq)) (rawBatchOf preq ! k) k = Some it
         \<longrightarrow> i_status it = coerceStatus (rawStatus (rawBatchOf preq ! k)))
   \<and> (\<forall>k < length (rawBatchOf preq).
         (batchItem preq p (length (rawBatchOf preq)) (rawBatchOf preq ! k) k \<noteq> None)
           = (\<exists>g l s. rawBatchOf preq ! k = RawObject g l s))
   \<and> (\<forall>k < length (rawBatchOf preq). \<forall>it.
         batchItem preq p (length (rawBatchOf preq)) (rawBatchOf preq ! k) k = Some it
         \<and> (\<forall>j. k < j \<and> j < length (rawBatchOf preq) \<longrightarrow>
               (\<forall>it'. batchItem preq p (length (rawBatchOf preq)) (rawBatchOf preq ! j) j = Some it'
                      \<longrightarrow> i_localIndex it' \<noteq> i_localIndex it))
         \<and> length stored + length (rawBatchOf preq) \<le> MAX_ITEM_RESULTS_STORED
         \<longrightarrow> it \<in> set (mergeBatch preq p stored))
   \<and> (\<forall>v. v \<noteq> JStr ''failed'' \<and> v \<noteq> JStr ''skipped'' \<longrightarrow> coerceStatus v = ''completed'')
   \<and> coerceStatus (JStr ''failed'') = ''failed'' \<and> coerceStatus (JStr ''skipped'') = ''skipped''"
proof -
  let ?b = "rawBatchOf preq"
  have c1: "length (s_items (sanitizeItemResults (Some xs)))
              = min (length xs) MAX_ITEM_RESULTS_STORED"
    by (rule sanitizeItemResults_length)
  have c2: "\<forall>i < length (s_items (sanitizeItemResults (Some xs))).
       i_status (s_items (sanitizeItemResults (Some xs)) ! i) = coerceStatus (rawStatus (xs ! i))"
  proof (intro allI impI)
    fix i assume "i < length (s_items (sanitizeItemResults (Some xs)))"
    then show "i_status (s_items (sanitizeItemResults (Some xs)) ! i)
                 = coerceStatus (rawStatus (xs ! i))"
      using sanitizeItemResults_nth[of i xs] by (simp add: sanitizeItem_status)
  qed
  have c3: "rc_chunkIndex req = Some ci \<and> rc_taskId req \<noteq> [] \<and> rc_status req \<noteq> []
        \<and> findIndex (\<lambda>t. t_id t = rc_taskId req) (tasks d) = Some ti
        \<and> storedResult d (rc_taskId req) ci = Some old
      \<longrightarrow> (\<exists>r'. storedResult (snd (recordChunk env nid nid' d req)) (rc_taskId req) ci = Some r'
               \<and> r_itemResults r' = s_items (sanitizeItemResults (rc_itemResults req)))"
  proof
    assume h: "rc_chunkIndex req = Some ci \<and> rc_taskId req \<noteq> [] \<and> rc_status req \<noteq> []
        \<and> findIndex (\<lambda>t. t_id t = rc_taskId req) (tasks d) = Some ti
        \<and> storedResult d (rc_taskId req) ci = Some old"
    then have v: "rc_chunkIndex req = Some ci" "rc_taskId req \<noteq> []" "rc_status req \<noteq> []"
      and T: "findIndex (\<lambda>t. t_id t = rc_taskId req) (tasks d) = Some ti"
      and S: "storedResult d (rc_taskId req) ci = Some old"
      by simp_all
    show "\<exists>r'. storedResult (snd (recordChunk env nid nid' d req)) (rc_taskId req) ci = Some r'
               \<and> r_itemResults r' = s_items (sanitizeItemResults (rc_itemResults req))"
      using v T S by (rule recordChunk_stored_items)
  qed
  have c4: "rp_chunkIndex preq = Some pci \<and> rp_itemsProcessed preq = Some ip \<and> rp_taskId preq \<noteq> []
        \<and> findIndex (\<lambda>t. t_id t = rp_taskId preq) (tasks pd) = Some pti
      \<longrightarrow> (\<exists>r'. storedResult (snd (recordProgress now pd preq)) (rp_taskId preq) pci = Some r'
               \<and> r_itemResults r'
                   = mergeBatch preq
                       (case map_option floorNonNeg (rp_totalItems preq) of
                          Some x \<Rightarrow> min (floorNonNeg ip) x | None \<Rightarrow> floorNonNeg ip)
                       (case storedResult pd (rp_taskId preq) pci of
                          Some r \<Rightarrow> r_itemResults r | None \<Rightarrow> []))"
  proof
    assume h: "rp_chunkIndex preq = Some pci \<and> rp_itemsProcessed preq = Some ip
        \<and> rp_taskId preq \<noteq> []
        \<and> findIndex (\<lambda>t. t_id t = rp_taskId preq) (tasks pd) = Some pti"
    then have v: "rp_chunkIndex preq = Some pci" "rp_itemsProcessed preq = Some ip"
      "rp_taskId preq \<noteq> []" "findIndex (\<lambda>t. t_id t = rp_taskId preq) (tasks pd) = Some pti"
      by simp_all
    show "\<exists>r'. storedResult (snd (recordProgress now pd preq)) (rp_taskId preq) pci = Some r'
               \<and> r_itemResults r'
                   = mergeBatch preq
                       (case map_option floorNonNeg (rp_totalItems preq) of
                          Some x \<Rightarrow> min (floorNonNeg ip) x | None \<Rightarrow> floorNonNeg ip)
                       (case storedResult pd (rp_taskId preq) pci of
                          Some r \<Rightarrow> r_itemResults r | None \<Rightarrow> [])"
      using v by (rule recordProgress_stored_items)
  qed
  have c5: "\<forall>it \<in> set (mergeBatch preq p stored).
         it \<in> set stored
         \<or> (\<exists>k < length ?b. batchItem preq p (length ?b) (?b ! k) k = Some it)"
    by (intro ballI) (rule mergeBatch_sound)
  have c6: "\<forall>k < length ?b. \<forall>it.
         batchItem preq p (length ?b) (?b ! k) k = Some it
         \<longrightarrow> i_status it = coerceStatus (rawStatus (?b ! k))"
    by (intro allI impI) (rule batchItem_status)
  have c7: "\<forall>k < length ?b.
         (batchItem preq p (length ?b) (?b ! k) k \<noteq> None) = (\<exists>g l s. ?b ! k = RawObject g l s)"
    by (intro allI impI) (rule batchItem_object)
  have c8: "\<forall>k < length ?b. \<forall>it.
         batchItem preq p (length ?b) (?b ! k) k = Some it
         \<and> (\<forall>j. k < j \<and> j < length ?b \<longrightarrow>
               (\<forall>it'. batchItem preq p (length ?b) (?b ! j) j = Some it'
                      \<longrightarrow> i_localIndex it' \<noteq> i_localIndex it))
         \<and> length stored + length ?b \<le> MAX_ITEM_RESULTS_STORED
         \<longrightarrow> it \<in> set (mergeBatch preq p stored)"
  proof (intro allI impI)
    fix k it
    assume k: "k < length ?b"
      and h: "batchItem preq p (length ?b) (?b ! k) k = Some it
         \<and> (\<forall>j. k < j \<and> j < length ?b \<longrightarrow>
               (\<forall>it'. batchItem preq p (length ?b) (?b ! j) j = Some it'
                      \<longrightarrow> i_localIndex it' \<noteq> i_localIndex it))
         \<and> length stored + length ?b \<le> MAX_ITEM_RESULTS_STORED"
    from h have b: "batchItem preq p (length ?b) (?b ! k) k = Some it"
      and room: "length stored + length ?b \<le> MAX_ITEM_RESULTS_STORED"
      by simp_all
    have later: "i_localIndex it' \<noteq> i_localIndex it"
      if "k < j" "j < length ?b" "batchItem preq p (length ?b) (?b ! j) j = Some it'" for j it'
      using h that by blast
    from k b later room show "it \<in> set (mergeBatch preq p stored)"
      by (rule mergeBatch_complete)
  qed
  have c9: "\<forall>v. v \<noteq> JStr ''failed'' \<and> v \<noteq> JStr ''skipped'' \<longrightarrow> coerceStatus v = ''completed''"
    by (simp add: coerceStatus_def)
  have c10: "coerceStatus (JStr ''failed'') = ''failed''"
    and c11: "coerceStatus (JStr ''skipped'') = ''skipped''"
    by (simp_all add: coerceStatus_def)
  show ?thesis
    apply (intro conjI)
    apply (rule c1 c2 c3 c4 c5 c6 c7 c8 c9 c10 c11)+
    done
qed

text \<open>
  Witness for C10: a terminal update with the statuses \<open>FAILED\<close>, none (a \<^verbatim>\<open>null\<close>
  item), \<open>failed\<close> and none; and a progress batch of two items, the first with the
  status \<open>failed\<close> and the local index 0, the second with no status and no index,
  stored for a bucket without a result, and merged into a list that has an item with
  the local index 0 and an item with the local index 5.
\<close>

theorem item_status_coerced_witness:
  "map i_status (s_items (sanitizeItemResults (Some itemsC10)))
       = [''completed'', ''completed'', ''failed'', ''completed'']
   \<and> (1::nat) < length (s_items (sanitizeItemResults (Some itemsC10)))
   \<and> i_status (s_items (sanitizeItemResults (Some itemsC10)) ! 1)
       = coerceStatus (rawStatus (itemsC10 ! 1))
   \<and> rc_chunkIndex (terminalB\<lparr>rc_itemResults := Some itemsC10\<rparr>) = Some 0
   \<and> rc_taskId (terminalB\<lparr>rc_itemResults := Some itemsC10\<rparr>) = ''t1''
   \<and> rc_status (terminalB\<lparr>rc_itemResults := Some itemsC10\<rparr>) = ''completed''
   \<and> findIndex (\<lambda>t. t_id t = ''t1'') (tasks dbB) = Some 0
   \<and> storedResult dbB ''t1'' 0 = Some resultB0
   \<and> (\<exists>r'. storedResult (snd (recordChunk envA ''n1'' ''n2'' dbB
                                  (terminalB\<lparr>rc_itemResults := Some itemsC10\<rparr>))) ''t1'' 0 = Some r'
          \<and> map i_status (r_itemResults r')
              = [''completed'', ''completed'', ''failed'', ''completed''])
   \<and> rp_chunkIndex progressTwo = Some 0 \<and> rp_itemsProcessed progressTwo = Some 2
   \<and> rp_taskId progressTwo = ''t1''
   \<and> findIndex (\<lambda>t. t_id t = ''t1'') (tasks dbC) = Some 0
   \<and> (\<exists>r'. storedResult (snd (recordProgress 5000 dbC progressTwo)) ''t1'' 0 = Some r'
          \<and> r_itemResults r'
              = [\<lparr> i_globalIndex = Some 0, i_localIndex = Some 0, i_status = ''failed'' \<rparr>,
                 \<lparr> i_globalIndex = Some 1, i_localIndex = Some 1, i_status = ''completed'' \<rparr>])
   \<and> rawBatchOf progressTwo = [RawObject JUndefined (JNum 0) (JStr ''failed''),
                                RawObject JUndefined JUndefined JUndefined]
   \<and> batchItem progressTwo 2 2 (RawObject JUndefined (JNum 0) (JStr ''failed'')) 0
       = Some \<lparr> i_globalIndex = Some 0, i_localIndex = Some 0, i_status = ''failed'' \<rparr>
   \<and> batchItem progressTwo 2 2 (RawObject JUndefined JUndefined JUndefined) 1
       = Some \<lparr> i_globalIndex = Some 1, i_localIndex = Some 1, i_status = ''completed'' \<rparr>
   \<and> mergeBatch progressTwo 2
         [\<lparr> i_globalIndex = None, i_localIndex = Some 0, i_status = ''completed'' \<rparr>,
          \<lparr> i_globalIndex = None, i_localIndex = Some 5, i_status = ''skipped'' \<rparr>]
       = [\<lparr> i_globalIndex = Some 0, i_localIndex = Some 0, i_status = ''failed'' \<rparr>,
          \<lparr> i_globalIndex = Some 1, i_localIndex = Some 1, i_status = ''completed'' \<rparr>,
          \<lparr> i_globalIndex = None, i_localIndex = Some 5, i_status = ''skipped'' \<rparr>]
   \<and> \<lparr> i_globalIndex = Some 0, i_localIndex = Some 0, i_status = ''failed'' \<rparr>
       \<in> set (mergeBatch progressTwo 2
                [\<lparr> i_globalIndex = None, i_localIndex = Some 0, i_status = ''completed'' \<rparr>,
                 \<lparr> i_globalIndex = None, i_localIndex = Some 5, i_status = ''skipped'' \<rparr>])
   \<and> \<lparr> i_globalIndex = Some 1, i_localIndex = Some 1, i_status = ''completed'' \<rparr>
       \<in> set (mergeBatch progressTwo 2
                [\<lparr> i_globalIndex = None, i_localIndex = Some 0, i_status = ''completed'' \<rparr>,
                 \<lparr> i_globalIndex = None, i_localIndex = Some 5, i_status = ''skipped'' \<rparr>])
   \<and> i_status \<lparr> i_globalIndex = Some 0, i_localIndex = Some 0, i_status = ''failed'' \<rparr>
       = coerceStatus (JStr ''failed'')
   \<and> i_status \<lparr> i_globalIndex = Some 1, i_localIndex = Some 1, i_status = ''completed'' \<rparr>
       = coerceStatus JUndefined
   \<and> JNum 1 \<noteq> JStr ''failed'' \<and> JNum 1 \<noteq> JStr ''skipped'' \<and> coerceStatus (JNum 1) = ''completed''"
proof -
  define T where "T = terminalB\<lparr>rc_itemResults := Some itemsC10\<rparr>"
  define item0 where
    "item0 = \<lparr> i_globalIndex = Some 0, i_localIndex = Some 0, i_status = ''failed'' \<rparr>"
  define item1 where
    "item1 = \<lparr> i_globalIndex = Some 1, i_localIndex = Some 1, i_status = ''completed'' \<rparr>"
  define old0 where
    "old0 = \<lparr> i_globalIndex = None, i_localIndex = Some 0, i_status = ''completed'' \<rparr>"
  define old5 where
    "old5 = \<lparr> i_globalIndex = None, i_localIndex = Some 5, i_status = ''skipped'' \<rparr>"
  define raw0 where "raw0 = RawObject JUndefined (JNum 0) (JStr ''failed'')"
  define raw1 where "raw1 = RawObject JUndefined JUndefined JUndefined"
  note th = item_status_coerced[where xs = itemsC10 and req = T and ci = 0 and d = dbB
      and ti = 0 and old = resultB0 and env = envA and nid = "''n1''" and nid' = "''n2''"
      and preq = progressTwo and pci = 0 and ip = 2 and pd = dbC and pti = 0 and now = 5000
      and p = 2 and stored = "[old0, old5]"]
  note t2 = th[THEN conjunct2, THEN conjunct1, rule_format]
  note t3 = th[THEN conjunct2, THEN conjunct2, THEN conjunct1, rule_format]
  note t4 = th[THEN conjunct2, THEN conjunct2, THEN conjunct2, THEN conjunct1, rule_format]
  note t6 = th[THEN conjunct2, THEN conjunct2, THEN conjunct2, THEN conjunct2, THEN conjunct2,
               THEN conjunct1, rule_format]
  note t8 = th[THEN conjunct2, THEN conjunct2, THEN conjunct2, THEN conjunct2, THEN conjunct2,
               THEN conjunct2, THEN conjunct2, THEN conjunct1, rule_format]
  note t9 = th[THEN conjunct2, THEN conjunct2, THEN conjunct2, THEN conjunct2, THEN conjunct2,
               THEN conjunct2, THEN conjunct2, THEN conjunct2, THEN conjunct1, rule_format]
  \<comment> \<open>the terminal update\<close>
  have s: "s_items (sanitizeItemResults (Some itemsC10)) =
       [\<lparr> i_globalIndex = None, i_localIndex = Some 0, i_status = ''completed'' \<rparr>,
        \<lparr> i_globalIndex = None, i_localIndex = Some 1, i_status = ''completed'' \<rparr>,
        \<lparr> i_globalIndex = Some 7, i_localIndex = Some 2, i_status = ''failed'' \<rparr>,
        \<lparr> i_globalIndex = None, i_localIndex = Some 3, i_status = ''completed'' \<rparr>]"
    by (simp add: sanitizeItemResults_def itemsC10_def MAX_ITEM_RESULTS_STORED_def sanitizeItem_def
          upt_rec[of 0] upt_rec[of 1] upt_rec[of 2] upt_rec[of 3])
  have w1: "map i_status (s_items (sanitizeItemResults (Some itemsC10)))
       = [''completed'', ''completed'', ''failed'', ''completed'']"
    by (simp add: s)
  have w2: "(1::nat) < length (s_items (sanitizeItemResults (Some itemsC10)))" by (simp add: s)
  have w3: "i_status (s_items (sanitizeItemResults (Some itemsC10)) ! 1)
       = coerceStatus (rawStatus (itemsC10 ! 1))"
    by (rule t2[OF w2])
  have v: "rc_chunkIndex T = Some 0" "rc_taskId T = ''t1''" "rc_status T = ''completed''"
    by (simp_all add: T_def terminalB_def)
  have hT: "rc_chunkIndex T = Some 0 \<and> rc_taskId T \<noteq> [] \<and> rc_status T \<noteq> []
        \<and> findIndex (\<lambda>t. t_id t = rc_taskId T) (tasks dbB) = Some 0
        \<and> storedResult dbB (rc_taskId T) 0 = Some resultB0"
    using dbB_task dbB_stored by (simp add: v)
  have iT: "rc_itemResults T = Some itemsC10" by (simp add: T_def)
  from t3[OF hT] obtain r' where
    r': "storedResult (snd (recordChunk envA ''n1'' ''n2'' dbB T)) (rc_taskId T) 0 = Some r'"
      "r_itemResults r' = s_items (sanitizeItemResults (rc_itemResults T))"
    by blast
  have w4: "\<exists>r'. storedResult (snd (recordChunk envA ''n1'' ''n2'' dbB T)) ''t1'' 0 = Some r'
          \<and> map i_status (r_itemResults r')
              = [''completed'', ''completed'', ''failed'', ''completed'']"
    by (rule exI[of _ r']) (use r' in \<open>simp add: v iT s\<close>)
  \<comment> \<open>the progress call\<close>
  have pv: "rp_chunkIndex progressTwo = Some 0" "rp_itemsProcessed progressTwo = Some 2"
    "rp_taskId progressTwo = ''t1''"
    by (simp_all add: progressTwo_def progressB_def)
  have hP: "rp_chunkIndex progressTwo = Some 0 \<and> rp_itemsProcessed progressTwo = Some 2
        \<and> rp_taskId progressTwo \<noteq> []
        \<and> findIndex (\<lambda>t. t_id t = rp_taskId progressTwo) (tasks dbC) = Some 0"
    using dbC_task by (simp add: pv)
  have rb: "rawBatchOf progressTwo = [raw0, raw1]"
    by (simp add: rawBatchOf_def progressTwo_def progressB_def raw0_def raw1_def)
  have b0g: "batchItem progressTwo 2 n raw0 0 = Some item0" for n
    by (simp add: batchItem_def progressTwo_def progressB_def raw0_def item0_def
          sanitizeSingleItem_def sanitizeItemResults_def sanitizeItem_def
          MAX_ITEM_RESULTS_STORED_def floorNonNeg_def Math_floor_def numOrNull_def Let_def)
  have b1g: "batchItem progressTwo 2 n raw1 (Suc 0) = Some item1" for n
    by (simp add: batchItem_def progressTwo_def progressB_def raw1_def item1_def
          sanitizeSingleItem_def sanitizeItemResults_def sanitizeItem_def
          MAX_ITEM_RESULTS_STORED_def floorNonNeg_def Math_floor_def numOrNull_def Let_def)
  have b0: "batchItem progressTwo 2 2 raw0 0 = Some item0" by (rule b0g)
  have b1: "batchItem progressTwo 2 2 raw1 1 = Some item1" using b1g[of 2] by simp
  have m0: "mergeItem progressTwo 2 n xs (raw0, 0)
              = filter (\<lambda>existing. case i_localIndex existing of
                                     Some l \<Rightarrow> l \<noteq> 0 | None \<Rightarrow> True) xs @ [item0]" for xs n
    by (simp add: mergeItem_batchItem b0g) (simp add: item0_def)
  have m1: "mergeItem progressTwo 2 n xs (raw1, Suc 0)
              = filter (\<lambda>existing. case i_localIndex existing of
                                     Some l \<Rightarrow> l \<noteq> 1 | None \<Rightarrow> True) xs @ [item1]" for xs n
    by (simp add: mergeItem_batchItem b1g) (simp add: item1_def)
  have mbE: "mergeBatch progressTwo 2 [] = [item0, item1]"
    by (simp add: mergeBatch_def rb Let_def upt_rec[of 0] upt_rec[of 1] m0 m1
          MAX_ITEM_RESULTS_STORED_def)
       (simp add: item0_def item1_def sortKey_def)
  have mbS: "mergeBatch progressTwo 2 [old0, old5] = [item0, item1, old5]"
    by (simp add: mergeBatch_def rb Let_def upt_rec[of 0] upt_rec[of 1] m0 m1
          MAX_ITEM_RESULTS_STORED_def)
       (simp add: item0_def item1_def old0_def old5_def sortKey_def)
  have pC: "(case map_option floorNonNeg (rp_totalItems progressTwo) of
               Some x \<Rightarrow> min (floorNonNeg 2) x | None \<Rightarrow> floorNonNeg 2) = 2"
    by (simp add: progressTwo_def progressB_def floorNonNeg_def Math_floor_def)
  have sC: "storedResult dbC (rp_taskId progressTwo) 0 = None"
    by (simp add: storedResult_def dbC_def)
  from t4[OF hP] obtain r2 where
    r2: "storedResult (snd (recordProgress 5000 dbC progressTwo)) (rp_taskId progressTwo) 0
           = Some r2"
      "r_itemResults r2
         = mergeBatch progressTwo
             (case map_option floorNonNeg (rp_totalItems progressTwo) of
                Some x \<Rightarrow> min (floorNonNeg 2) x | None \<Rightarrow> floorNonNeg 2)
             (case storedResult dbC (rp_taskId progressTwo) 0 of
                Some r \<Rightarrow> r_itemResults r | None \<Rightarrow> [])"
    by blast
  have r2i: "r_itemResults r2 = [item0, item1]"
    unfolding r2(2) pC sC by (simp add: mbE)
  have w5: "\<exists>r'. storedResult (snd (recordProgress 5000 dbC progressTwo)) ''t1'' 0 = Some r'
          \<and> r_itemResults r' = [item0, item1]"
    by (rule exI[of _ r2]) (use r2(1) r2i in \<open>simp add: pv\<close>)
  \<comment> \<open>the batch items in the merged list\<close>
  have k0: "0 < length (rawBatchOf progressTwo)" and k1: "1 < length (rawBatchOf progressTwo)"
    by (simp_all add: rb)
  have B0: "batchItem progressTwo 2 (length (rawBatchOf progressTwo))
              (rawBatchOf progressTwo ! 0) 0 = Some item0"
    by (simp add: rb b0g)
  have B1: "batchItem progressTwo 2 (length (rawBatchOf progressTwo))
              (rawBatchOf progressTwo ! 1) 1 = Some item1"
    by (simp add: rb b1g)
  have room: "length [old0, old5] + length (rawBatchOf progressTwo) \<le> MAX_ITEM_RESULTS_STORED"
    by (simp add: rb MAX_ITEM_RESULTS_STORED_def)
  have later0: "\<forall>j. 0 < j \<and> j < length (rawBatchOf progressTwo) \<longrightarrow>
               (\<forall>it'. batchItem progressTwo 2 (length (rawBatchOf progressTwo))
                         (rawBatchOf progressTwo ! j) j = Some it'
                      \<longrightarrow> i_localIndex it' \<noteq> i_localIndex item0)"
  proof (intro allI impI)
    fix j it'
    assume j: "0 < j \<and> j < length (rawBatchOf progressTwo)"
      and e: "batchItem progressTwo 2 (length (rawBatchOf progressTwo))
                (rawBatchOf progressTwo ! j) j = Some it'"
    from j have "j = 1" by (simp add: rb)
    with e B1 have "it' = item1" by simp
    then show "i_localIndex it' \<noteq> i_localIndex item0" by (simp add: item0_def item1_def)
  qed
  have later1: "\<forall>j. 1 < j \<and> j < length (rawBatchOf progressTwo) \<longrightarrow>
               (\<forall>it'. batchItem progressTwo 2 (length (rawBatchOf progressTwo))
                         (rawBatchOf progressTwo ! j) j = Some it'
                      \<longrightarrow> i_localIndex it' \<noteq> i_localIndex item1)"
  proof (intro allI impI)
    fix j it'
    assume j: "1 < j \<and> j < length (rawBatchOf progressTwo)"
    have "length (rawBatchOf progressTwo) = 2" by (simp add: rb)
    with j have False by linarith
    then show "i_localIndex it' \<noteq> i_localIndex item1" ..
  qed
  have w6: "item0 \<in> set (mergeBatch progressTwo 2 [old0, old5])"
    by (rule t8[OF k0]) (intro conjI B0 later0 room)
  have w7: "item1 \<in> set (mergeBatch progressTwo 2 [old0, old5])"
    by (rule t8[OF k1]) (intro conjI B1 later1 room)
  have w8: "i_status item0 = coerceStatus (JStr ''failed'')"
    using t6[OF k0 B0] by (simp add: rb raw0_def)
  have w9: "i_status item1 = coerceStatus JUndefined"
    using t6[OF k1 B1] by (simp add: rb raw1_def)
  have n1: "JNum 1 \<noteq> JStr ''failed''" and n2: "JNum 1 \<noteq> JStr ''skipped''" by simp_all
  have w10: "coerceStatus (JNum 1) = ''completed''"
    by (rule t9) (intro conjI n1 n2)
  show ?thesis
    unfolding T_def[symmetric] item0_def[symmetric] item1_def[symmetric] old0_def[symmetric]
      old5_def[symmetric] raw0_def[symmetric] raw1_def[symmetric]
    apply (intro conjI)
    apply (rule w1 w2 w3 v dbB_task dbB_stored w4 pv dbC_task w5 rb b0 b1 mbS w6 w7 w8 w9 n1 n2 w10)+
    done
qed

end
